theory Spec2Isabelle
  imports Complex_Main "HOL-Library.Word"
begin

section \<open>Python values used by the conversion scripts\<close>

text \<open>
  The two exporters of the repository are
  \<^item> \<^verbatim>\<open>convert_to_binary_chunks\<close> of
    \<^verbatim>\<open>attached_assets/convert_vector_database_1761128315212.py\<close>, and
  \<^item> \<^verbatim>\<open>main\<close> of \<^verbatim>\<open>scripts/convert-pickle-to-binary.py\<close>.
  Python integers are \<open>int\<close>, strings are \<open>string\<close>, every exception the code can
  raise is a value of \<open>py_error\<close>, and the file system is an explicit map from paths to
  file contents that every function takes and returns.
\<close>

datatype py_error =
    FileNotFoundError
  | UnpicklingError
  | KeyError string
  | ValueError
  | ZeroDivisionError
  | IndexError
  | OSError

type_synonym byte = "8 word"

text \<open>A float32 value is its IEEE-754 bit pattern; no arithmetic is ever done on it.\<close>

type_synonym float32 = "32 word"

text \<open>
  A two-dimensional numpy array: \<open>shape = (length rows, ncols)\<close>. The number of columns
  is kept beside the rows because an array without rows still has a \<open>shape[1]\<close>.
\<close>

record 'a ndarray =
  rows :: "'a list list"
  ncols :: nat

definition shape :: "'a ndarray \<Rightarrow> int \<times> int" where
  "shape a = (int (length (rows a)), int (ncols a))"

definition well_shaped :: "'a ndarray \<Rightarrow> bool" where
  "well_shaped a = list_all (\<lambda>r. length r = ncols a) (rows a)"

text \<open>Python's \<^verbatim>\<open>xs[i:j]\<close>: negative indices count from the end, both ends are clamped.\<close>

definition slice_index :: "nat \<Rightarrow> int \<Rightarrow> nat" where
  "slice_index n i = (if i < 0 then nat (max 0 (int n + i)) else min n (nat i))"

definition getslice :: "'a list \<Rightarrow> int \<Rightarrow> int \<Rightarrow> 'a list" where
  "getslice xs i j =
     (let a = slice_index (length xs) i; b = slice_index (length xs) j
      in take (b - a) (drop a xs))"

text \<open>Python's \<^verbatim>\<open>xs[i]\<close>: negative indices count from the end, out of range raises.\<close>

definition getitem :: "'a list \<Rightarrow> int \<Rightarrow> py_error + 'a" where
  "getitem xs i =
     (if int (length xs) \<le> i \<or> i < - int (length xs) then Inl IndexError
      else if i < 0 then Inr (xs ! nat (int (length xs) + i))
      else Inr (xs ! nat i))"

text \<open>\<^verbatim>\<open>embeddings[i:j]\<close> slices the rows and keeps the column count.\<close>

definition array_slice :: "'a ndarray \<Rightarrow> int \<Rightarrow> int \<Rightarrow> 'a ndarray" where
  "array_slice a i j = \<lparr>rows = getslice (rows a) i j, ncols = ncols a\<rparr>"

text \<open>
  \<^verbatim>\<open>a.astype(np.float32)\<close>: the element conversion \<open>f32\<close> is a parameter (the identity
  when the array already holds float32 values, a rounding otherwise).
\<close>

definition astype_float32 :: "('a \<Rightarrow> float32) \<Rightarrow> 'a ndarray \<Rightarrow> float32 ndarray" where
  "astype_float32 f32 a = \<lparr>rows = map (map f32) (rows a), ncols = ncols a\<rparr>"

text \<open>The four bytes of one float32 value, least significant byte first.\<close>

definition float32_le :: "float32 \<Rightarrow> byte list" where
  "float32_le w = [ucast w, ucast (drop_bit 8 w), ucast (drop_bit 16 w), ucast (drop_bit 24 w)]"

text \<open>\<^verbatim>\<open>a.tobytes()\<close> of a C-ordered float32 array on a little-endian host.\<close>

definition tobytes :: "float32 ndarray \<Rightarrow> byte list" where
  "tobytes a = concat (map float32_le (concat (rows a)))"

text \<open>\<^verbatim>\<open>range(n)\<close>.\<close>

definition range :: "int \<Rightarrow> int list" where
  "range n = map int [0..<nat n]"

text \<open>Decimal digits of a natural number, and the format specification \<^verbatim>\<open>{n:0wd}\<close>.\<close>

fun str_nat :: "nat \<Rightarrow> string" where
  "str_nat n =
     (if n < 10 then [char_of (48 + n)]
      else str_nat (n div 10) @ [char_of (48 + n mod 10)])"

declare str_nat.simps [simp del]

definition zfill :: "nat \<Rightarrow> string \<Rightarrow> string" where
  "zfill w s = replicate (w - length s) (CHR ''0'') @ s"

definition format_0d :: "nat \<Rightarrow> int \<Rightarrow> string" where
  "format_0d w n =
     (if n < 0 then CHR ''-'' # zfill (w - 1) (str_nat (nat (- n)))
      else zfill w (str_nat (nat n)))"

text \<open>\<^verbatim>\<open>os.path.join(a, b)\<close> for two components.\<close>

definition path_join :: "string \<Rightarrow> string \<Rightarrow> string" where
  "path_join a b =
     (if b \<noteq> [] \<and> hd b = CHR ''/'' then b
      else if a = [] \<or> last a = CHR ''/'' then a @ b
      else a @ ''/'' @ b)"

section \<open>The file system and its failures\<close>

text \<open>
  The pickled container is a dictionary that may lack either key.
\<close>

record 'a database =
  db_keywords :: "string list option"
  db_embeddings :: "'a ndarray option"

text \<open>
  What a file holds: a pickled container, raw bytes, or the text that \<^verbatim>\<open>json.dump\<close>
  produced for a value \<open>m\<close>, represented by \<open>m\<close> itself. \<open>Json_prefix k m\<close> is that text
  cut after \<open>k\<close> characters, which is what a dump that raises leaves behind.
\<close>

datatype ('a, 'm) content =
    Pickle "'a database"
  | Bin "byte list"
  | Json 'm
  | Json_prefix nat 'm

type_synonym ('a, 'm) fs = "string \<Rightarrow> ('a, 'm) content option"

text \<open>
  A run stops at the first exception, so one fault describes a failing environment:
  creating the output directory fails, opening a path for writing fails, or writing to
  a path fails after the given number of bytes (characters) reached the file.
\<close>

datatype io_fault =
    No_fault
  | Makedirs_fails
  | Open_fails string
  | Write_fails string nat

text \<open>\<^verbatim>\<open>os.makedirs(d, exist_ok=True)\<close> and \<^verbatim>\<open>Path.mkdir(parents=True, exist_ok=True)\<close>.\<close>

definition makedirs :: "io_fault \<Rightarrow> ('a, 'm) fs \<Rightarrow> (py_error + unit) \<times> ('a, 'm) fs" where
  "makedirs env fs = (if env = Makedirs_fails then (Inl OSError, fs) else (Inr (), fs))"

text \<open>
  \<^verbatim>\<open>with open(path, 'wb') as f: f.write(data)\<close>: opening truncates the file, the write
  appends the data.
\<close>

definition write_bin ::
  "io_fault \<Rightarrow> string \<Rightarrow> byte list \<Rightarrow> ('a, 'm) fs \<Rightarrow> (py_error + unit) \<times> ('a, 'm) fs" where
  "write_bin env path data fs =
     (if env = Open_fails path then (Inl OSError, fs)
      else case env of
        Write_fails p k \<Rightarrow>
          if p = path then (Inl OSError, fs(path \<mapsto> Bin (take k data)))
          else (Inr (), fs(path \<mapsto> Bin data))
      | _ \<Rightarrow> (Inr (), fs(path \<mapsto> Bin data)))"

text \<open>\<^verbatim>\<open>with open(path, 'w') as f: json.dump(m, f, indent=2)\<close>.\<close>

definition write_json ::
  "io_fault \<Rightarrow> string \<Rightarrow> 'm \<Rightarrow> ('a, 'm) fs \<Rightarrow> (py_error + unit) \<times> ('a, 'm) fs" where
  "write_json env path m fs =
     (if env = Open_fails path then (Inl OSError, fs)
      else case env of
        Write_fails p k \<Rightarrow>
          if p = path then (Inl OSError, fs(path \<mapsto> Json_prefix k m))
          else (Inr (), fs(path \<mapsto> Json m))
      | _ \<Rightarrow> (Inr (), fs(path \<mapsto> Json m)))"

text \<open>
  A \<^verbatim>\<open>for\<close> loop over a list whose body updates an accumulator and the file system and
  may raise: the loop stops at the first exception.
\<close>

fun py_for ::
  "'i list \<Rightarrow> ('i \<Rightarrow> 'acc \<Rightarrow> 's \<Rightarrow> (py_error + 'acc) \<times> 's) \<Rightarrow> 'acc \<Rightarrow> 's \<Rightarrow> (py_error + 'acc) \<times> 's" where
  "py_for [] body acc s = (Inr acc, s)"
| "py_for (i # is) body acc s =
     (case body i acc s of
        (Inl e, s') \<Rightarrow> (Inl e, s')
      | (Inr acc', s') \<Rightarrow> py_for is body acc' s')"

section \<open>attached_assets/convert_vector_database_1761128315212.py\<close>

text \<open>
  The dictionaries written to \<^verbatim>\<open>metadata.json\<close>: every field is the dictionary key
  of the same name with the suffix \<open>_a\<close> (the plain names are variables of the code).
\<close>

record chunk_info =
  chunk_id_a :: int
  filename_a :: string
  start_index_a :: int
  end_index_a :: int
  keyword_count_a :: int
  keywords_a :: "string list"

record chunk_metadata =
  version_a :: string
  total_keywords_a :: int
  embedding_dimension_a :: int
  chunk_size_a :: int
  num_chunks_a :: int
  chunks_a :: "chunk_info list"

text \<open>\<^verbatim>\<open>load_pickle_database\<close> (lines 13-21).\<close>

definition load_pickle_database :: "string \<Rightarrow> ('a, 'm) fs \<Rightarrow> py_error + 'a database" where
  "load_pickle_database pickle_path fs =
     (case fs pickle_path of
        None \<Rightarrow> Inl FileNotFoundError
      | Some (Pickle database) \<Rightarrow>
          (case db_keywords database of
             None \<Rightarrow> Inl (KeyError ''keywords'')
           | Some _ \<Rightarrow>
               (case db_embeddings database of
                  None \<Rightarrow> Inl (KeyError ''embeddings'')
                | Some _ \<Rightarrow> Inr database))
      | Some _ \<Rightarrow> Inl UnpicklingError)"

text \<open>
  The first lines of \<^verbatim>\<open>main\<close> (lines 143-150): a missing path prints a message and
  returns normally (\<open>Inr None\<close>), otherwise the database is loaded.
\<close>

definition main_load_database :: "string \<Rightarrow> ('a, 'm) fs \<Rightarrow> py_error + 'a database option" where
  "main_load_database pickle_path fs =
     (if fs pickle_path = None then Inr None
      else case load_pickle_database pickle_path fs of
        Inl e \<Rightarrow> Inl e
      | Inr database \<Rightarrow> Inr (Some database))"

text \<open>The file name of a chunk (line 77).\<close>

definition chunk_filename :: "int \<Rightarrow> string" where
  "chunk_filename chunk_idx = ''chunk_'' @ format_0d 2 chunk_idx @ ''.bin''"

text \<open>The body of the loop of \<^verbatim>\<open>convert_to_binary_chunks\<close> (lines 69-95).\<close>

definition chunk_body ::
  "io_fault \<Rightarrow> ('a \<Rightarrow> float32) \<Rightarrow> string list \<Rightarrow> 'a ndarray \<Rightarrow> string \<Rightarrow> int \<Rightarrow>
   int \<Rightarrow> chunk_info list \<Rightarrow> ('a, 'm) fs \<Rightarrow> (py_error + chunk_info list) \<times> ('a, 'm) fs" where
  "chunk_body env f32 keywords embeddings output_dir chunk_size chunk_idx acc fs =
     (let total_keywords = int (length keywords);
          start_idx = chunk_idx * chunk_size;
          end_idx = min (start_idx + chunk_size) total_keywords;
          chunk_keywords = getslice keywords start_idx end_idx;
          chunk_embeddings = array_slice embeddings start_idx end_idx;
          chunk_path = path_join output_dir (chunk_filename chunk_idx)
      in case write_bin env chunk_path (tobytes (astype_float32 f32 chunk_embeddings)) fs of
           (Inl e, fs') \<Rightarrow> (Inl e, fs')
         | (Inr _, fs') \<Rightarrow>
             (Inr (acc @ [\<lparr>chunk_id_a = chunk_idx,
                           filename_a = chunk_filename chunk_idx,
                           start_index_a = start_idx,
                           end_index_a = end_idx,
                           keyword_count_a = int (length chunk_keywords),
                           keywords_a = chunk_keywords\<rparr>]), fs'))"

text \<open>\<^verbatim>\<open>convert_to_binary_chunks\<close> (lines 44-105).\<close>

definition convert_to_binary_chunks ::
  "io_fault \<Rightarrow> ('a \<Rightarrow> float32) \<Rightarrow> 'a database \<Rightarrow> string \<Rightarrow> int \<Rightarrow>
   ('a, chunk_metadata) fs \<Rightarrow> (py_error + unit) \<times> ('a, chunk_metadata) fs" where
  "convert_to_binary_chunks env f32 database output_dir chunk_size fs =
     (case makedirs env fs of
        (Inl e, fs0) \<Rightarrow> (Inl e, fs0)
      | (Inr _, fs0) \<Rightarrow>
     (case db_keywords database of
        None \<Rightarrow> (Inl (KeyError ''keywords''), fs0)
      | Some keywords \<Rightarrow>
     (case db_embeddings database of
        None \<Rightarrow> (Inl (KeyError ''embeddings''), fs0)
      | Some embeddings \<Rightarrow>
     (let total_keywords = int (length keywords)
      in if chunk_size = 0 then (Inl ZeroDivisionError, fs0)
         else
           (let num_chunks = (total_keywords + chunk_size - 1) div chunk_size
            in case py_for (range num_chunks)
                      (chunk_body env f32 keywords embeddings output_dir chunk_size) [] fs0 of
                 (Inl e, fs1) \<Rightarrow> (Inl e, fs1)
               | (Inr chunk_infos, fs1) \<Rightarrow>
                   write_json env (path_join output_dir ''metadata.json'')
                     \<lparr>version_a = ''1.0.0'',
                      total_keywords_a = total_keywords,
                      embedding_dimension_a = snd (shape embeddings),
                      chunk_size_a = chunk_size,
                      num_chunks_a = num_chunks,
                      chunks_a = chunk_infos\<rparr> fs1)))))"

section \<open>scripts/convert-pickle-to-binary.py\<close>

definition CHUNK_SIZE :: int where
  "CHUNK_SIZE = 2000"

definition EMBEDDING_DIM :: int where
  "EMBEDDING_DIM = 384"

text \<open>
  The dictionaries written to \<^verbatim>\<open>embeddings_metadata.json\<close>: every field is the
  dictionary key of the same name with the suffix \<open>_b\<close> (\<open>_e\<close> for a keyword entry).
\<close>

record chunk_entry =
  chunk_id_b :: int
  start_index_b :: int
  end_index_b :: int
  keyword_count_b :: int
  file_path_b :: string

record keyword_entry =
  keyword_e :: string
  chunk_id_e :: int
  local_index_e :: int

record metadata =
  version_b :: string
  created_at_b :: string
  total_keywords_b :: int
  embedding_dimensions_b :: int
  chunk_size_b :: int
  chunks_b :: "chunk_entry list"
  keywords_b :: "keyword_entry list"

text \<open>
  Lines 20-35 of \<^verbatim>\<open>main\<close>: the path check, the load and the shape check. The two
  module constants are parameters here; \<open>main\<close> below passes \<open>CHUNK_SIZE\<close> and
  \<open>EMBEDDING_DIM\<close>.
\<close>

definition main_load ::
  "int \<Rightarrow> ('a, 'm) fs \<Rightarrow> py_error + ('a ndarray \<times> string list)" where
  "main_load embedding_dim fs =
     (case fs ''new_keywords/vector_database.pkl'' of
        None \<Rightarrow> Inl FileNotFoundError
      | Some (Pickle data) \<Rightarrow>
          (case db_embeddings data of
             None \<Rightarrow> Inl (KeyError ''embeddings'')
           | Some embeddings \<Rightarrow>
               (case db_keywords data of
                  None \<Rightarrow> Inl (KeyError ''keywords'')
                | Some keywords \<Rightarrow>
                    (let total_keywords = int (length keywords)
                     in if shape embeddings \<noteq> (total_keywords, embedding_dim)
                        then Inl ValueError
                        else Inr (embeddings, keywords))))
      | Some _ \<Rightarrow> Inl UnpicklingError)"

text \<open>The file name of a chunk (line 59).\<close>

definition chunk_filename_b :: "int \<Rightarrow> string" where
  "chunk_filename_b chunk_id = ''chunk_'' @ format_0d 3 chunk_id @ ''.bin''"

text \<open>The inner loop that builds the keyword index (lines 65-70).\<close>

fun keyword_loop ::
  "string list \<Rightarrow> int \<Rightarrow> int \<Rightarrow> int list \<Rightarrow> keyword_entry list \<Rightarrow> py_error + keyword_entry list" where
  "keyword_loop keywords start_index chunk_id [] keyword_index = Inr keyword_index"
| "keyword_loop keywords start_index chunk_id (i # is) keyword_index =
     (case getitem keywords (start_index + i) of
        Inl e \<Rightarrow> Inl e
      | Inr k \<Rightarrow>
          keyword_loop keywords start_index chunk_id is
            (keyword_index @ [\<lparr>keyword_e = k, chunk_id_e = chunk_id, local_index_e = i\<rparr>]))"

text \<open>The body of the chunk loop (lines 49-81).\<close>

definition chunk_body_b ::
  "io_fault \<Rightarrow> ('a \<Rightarrow> float32) \<Rightarrow> string list \<Rightarrow> 'a ndarray \<Rightarrow> int \<Rightarrow>
   int \<Rightarrow> chunk_entry list \<times> keyword_entry list \<Rightarrow> ('a, 'm) fs \<Rightarrow>
   (py_error + chunk_entry list \<times> keyword_entry list) \<times> ('a, 'm) fs" where
  "chunk_body_b env f32 keywords embeddings chunk_size chunk_id acc fs =
     (let total_keywords = int (length keywords);
          start_index = chunk_id * chunk_size;
          end_index = min (start_index + chunk_size) total_keywords;
          chunk_keyword_count = end_index - start_index;
          chunk_embeddings = astype_float32 f32 (array_slice embeddings start_index end_index);
          chunk_path = ''data/embeddings_chunks/'' @ chunk_filename_b chunk_id
      in case write_bin env chunk_path (tobytes chunk_embeddings) fs of
           (Inl e, fs') \<Rightarrow> (Inl e, fs')
         | (Inr _, fs') \<Rightarrow>
             (case keyword_loop keywords start_index chunk_id (range chunk_keyword_count) (snd acc) of
                Inl e \<Rightarrow> (Inl e, fs')
              | Inr keyword_index \<Rightarrow>
                  (Inr (fst acc @ [\<lparr>chunk_id_b = chunk_id,
                                    start_index_b = start_index,
                                    end_index_b = end_index - 1,
                                    keyword_count_b = chunk_keyword_count,
                                    file_path_b = chunk_filename_b chunk_id\<rparr>],
                        keyword_index), fs')))"

text \<open>
  \<^verbatim>\<open>main\<close> with the two module constants and the clock reading
  \<^verbatim>\<open>np.datetime64('now').astype(str)\<close> as parameters.
\<close>

definition main_with ::
  "int \<Rightarrow> int \<Rightarrow> io_fault \<Rightarrow> string \<Rightarrow> ('a \<Rightarrow> float32) \<Rightarrow>
   ('a, metadata) fs \<Rightarrow> (py_error + unit) \<times> ('a, metadata) fs" where
  "main_with chunk_size embedding_dim env now f32 fs =
     (case main_load embedding_dim fs of
        Inl e \<Rightarrow> (Inl e, fs)
      | Inr (embeddings, keywords) \<Rightarrow>
     (case makedirs env fs of
        (Inl e, fs0) \<Rightarrow> (Inl e, fs0)
      | (Inr _, fs0) \<Rightarrow>
     (let total_keywords = int (length keywords)
      in if chunk_size = 0 then (Inl ZeroDivisionError, fs0)
         else
           (let total_chunks = (total_keywords + chunk_size - 1) div chunk_size
            in case py_for (range total_chunks)
                      (chunk_body_b env f32 keywords embeddings chunk_size) ([], []) fs0 of
                 (Inl e, fs1) \<Rightarrow> (Inl e, fs1)
               | (Inr (chunk_entries, keyword_index), fs1) \<Rightarrow>
                   write_json env ''data/embeddings_metadata.json''
                     \<lparr>version_b = ''3.0.0'',
                      created_at_b = now,
                      total_keywords_b = total_keywords,
                      embedding_dimensions_b = embedding_dim,
                      chunk_size_b = chunk_size,
                      chunks_b = chunk_entries,
                      keywords_b = keyword_index\<rparr> fs1))))"

definition main ::
  "io_fault \<Rightarrow> string \<Rightarrow> ('a \<Rightarrow> float32) \<Rightarrow>
   ('a, metadata) fs \<Rightarrow> (py_error + unit) \<times> ('a, metadata) fs" where
  "main = main_with CHUNK_SIZE EMBEDDING_DIM"

section \<open>Reading an export back\<close>

text \<open>
  The reader of the round-trip contract: a chunk file is read as consecutive 4-byte
  little-endian values, grouped into rows of \<open>d\<close> values; the number of rows is the
  chunk's keyword count from the manifest, and a file of any other length is refused.
\<close>

definition float32_of_le :: "byte \<Rightarrow> byte \<Rightarrow> byte \<Rightarrow> byte \<Rightarrow> float32" where
  "float32_of_le a b c d =
     or (ucast a) (or (push_bit 8 (ucast b)) (or (push_bit 16 (ucast c)) (push_bit 24 (ucast d))))"

fun frombuffer :: "byte list \<Rightarrow> float32 list" where
  "frombuffer (a # b # c # d # bs) = float32_of_le a b c d # frombuffer bs"
| "frombuffer _ = []"

definition reshape :: "nat \<Rightarrow> nat \<Rightarrow> 'x list \<Rightarrow> 'x list list" where
  "reshape n d xs = map (\<lambda>r. take d (drop (r * d) xs)) [0..<n]"

definition read_chunk :: "('a, 'm) fs \<Rightarrow> string \<Rightarrow> nat \<Rightarrow> nat \<Rightarrow> float32 list list option" where
  "read_chunk fs path n d =
     (case fs path of
        Some (Bin bs) \<Rightarrow>
          if length bs = n * d * 4 then Some (reshape n d (frombuffer bs)) else None
      | _ \<Rightarrow> None)"

fun read_all :: "'x list list option list \<Rightarrow> 'x list list option" where
  "read_all [] = Some []"
| "read_all (None # cs) = None"
| "read_all (Some c # cs) = (case read_all cs of None \<Rightarrow> None | Some rs \<Rightarrow> Some (c @ rs))"

definition read_back :: "('a, chunk_metadata) fs \<Rightarrow> string \<Rightarrow> float32 list list option" where
  "read_back fs output_dir =
     (case fs (path_join output_dir ''metadata.json'') of
        Some (Json m) \<Rightarrow>
          read_all (map (\<lambda>c. read_chunk fs (path_join output_dir (filename_a c))
                                 (nat (keyword_count_a c)) (nat (embedding_dimension_a m)))
                        (chunks_a m))
      | _ \<Rightarrow> None)"

definition read_back_b :: "('a, metadata) fs \<Rightarrow> float32 list list option" where
  "read_back_b fs =
     (case fs ''data/embeddings_metadata.json'' of
        Some (Json m) \<Rightarrow>
          read_all (map (\<lambda>c. read_chunk fs (''data/embeddings_chunks/'' @ file_path_b c)
                                 (nat (keyword_count_b c)) (nat (embedding_dimensions_b m)))
                        (chunks_b m))
      | _ \<Rightarrow> None)"

section \<open>What a run writes\<close>

text \<open>
  Names for the sub-expressions of the two loop bodies, used to state what a run leaves
  behind: the bytes of chunk \<open>idx\<close>, the dictionaries appended for it, and the
  metadata dictionaries that are dumped at the end.
\<close>

definition chunk_data :: "('a \<Rightarrow> float32) \<Rightarrow> string list \<Rightarrow> 'a ndarray \<Rightarrow> int \<Rightarrow> int \<Rightarrow> byte list" where
  "chunk_data f32 keywords embeddings chunk_size idx =
     tobytes (astype_float32 f32
       (array_slice embeddings (idx * chunk_size)
          (min (idx * chunk_size + chunk_size) (int (length keywords)))))"

definition chunk_info_at :: "string list \<Rightarrow> int \<Rightarrow> int \<Rightarrow> chunk_info" where
  "chunk_info_at keywords chunk_size idx =
     \<lparr>chunk_id_a = idx,
      filename_a = chunk_filename idx,
      start_index_a = idx * chunk_size,
      end_index_a = min (idx * chunk_size + chunk_size) (int (length keywords)),
      keyword_count_a = int (length (getslice keywords (idx * chunk_size)
         (min (idx * chunk_size + chunk_size) (int (length keywords))))),
      keywords_a = getslice keywords (idx * chunk_size)
         (min (idx * chunk_size + chunk_size) (int (length keywords)))\<rparr>"

definition chunk_entry_at :: "string list \<Rightarrow> int \<Rightarrow> int \<Rightarrow> chunk_entry" where
  "chunk_entry_at keywords chunk_size idx =
     \<lparr>chunk_id_b = idx,
      start_index_b = idx * chunk_size,
      end_index_b = min (idx * chunk_size + chunk_size) (int (length keywords)) - 1,
      keyword_count_b = min (idx * chunk_size + chunk_size) (int (length keywords)) - idx * chunk_size,
      file_path_b = chunk_filename_b idx\<rparr>"

definition keyword_entries_at :: "string list \<Rightarrow> int \<Rightarrow> int \<Rightarrow> keyword_entry list" where
  "keyword_entries_at keywords chunk_size idx =
     map (\<lambda>i. \<lparr>keyword_e = keywords ! nat (idx * chunk_size + i), chunk_id_e = idx, local_index_e = i\<rparr>)
       (range (min (idx * chunk_size + chunk_size) (int (length keywords)) - idx * chunk_size))"

definition metadata_of :: "string list \<Rightarrow> 'a ndarray \<Rightarrow> int \<Rightarrow> chunk_metadata" where
  "metadata_of keywords embeddings chunk_size =
     \<lparr>version_a = ''1.0.0'',
      total_keywords_a = int (length keywords),
      embedding_dimension_a = snd (shape embeddings),
      chunk_size_a = chunk_size,
      num_chunks_a = (int (length keywords) + chunk_size - 1) div chunk_size,
      chunks_a = map (chunk_info_at keywords chunk_size)
                   (range ((int (length keywords) + chunk_size - 1) div chunk_size))\<rparr>"

definition metadata_b_of :: "string list \<Rightarrow> int \<Rightarrow> int \<Rightarrow> string \<Rightarrow> metadata" where
  "metadata_b_of keywords chunk_size embedding_dim now =
     \<lparr>version_b = ''3.0.0'',
      created_at_b = now,
      total_keywords_b = int (length keywords),
      embedding_dimensions_b = embedding_dim,
      chunk_size_b = chunk_size,
      chunks_b = map (chunk_entry_at keywords chunk_size)
                   (range ((int (length keywords) + chunk_size - 1) div chunk_size)),
      keywords_b = concat (map (keyword_entries_at keywords chunk_size)
                   (range ((int (length keywords) + chunk_size - 1) div chunk_size)))\<rparr>"

text \<open>The file system after the chunk files \<open>0, \<dots>, n - 1\<close> have been written in order.\<close>

definition chunks_written ::
  "(int \<Rightarrow> string) \<Rightarrow> (int \<Rightarrow> byte list) \<Rightarrow> int \<Rightarrow> ('a, 'm) fs \<Rightarrow> ('a, 'm) fs" where
  "chunks_written path data n fs = fold (\<lambda>idx fs. fs(path idx \<mapsto> Bin (data idx))) (range n) fs"

text \<open>The number that a string of decimal digits denotes (leading zeros allowed).\<close>

definition digits_value :: "string \<Rightarrow> nat" where
  "digits_value s = foldl (\<lambda>v c. 10 * v + (of_char c - 48)) 0 s"

text \<open>
  The scenario of the specification: three keywords, two dimensions. The second file
  system holds it as the pickle that \<open>main\<close> loads.
\<close>

definition scenario :: "float32 database" where
  "scenario =
     \<lparr>db_keywords = Some [''a'', ''b'', ''c''],
      db_embeddings = Some \<lparr>rows = [[1, 2], [3, 4], [5, 6]], ncols = 2\<rparr>\<rparr>"

definition scenario_fs :: "(float32, metadata) fs" where
  "scenario_fs = [''new_keywords/vector_database.pkl'' \<mapsto> Pickle scenario]"

text \<open>
  One keyword with one row of \<open>EMBEDDING_DIM\<close> values, as the pickle that \<open>main\<close> loads.
\<close>

definition single :: "float32 database" where
  "single = \<lparr>db_keywords = Some [''a''], db_embeddings = Some \<lparr>rows = [replicate 384 0], ncols = 384\<rparr>\<rparr>"

definition single_fs :: "(float32, metadata) fs" where
  "single_fs = [''new_keywords/vector_database.pkl'' \<mapsto> Pickle single]"

text \<open>The metadata dictionary that a completely written JSON file holds.\<close>

definition manifest_at :: "('a, 'm) fs \<Rightarrow> string \<Rightarrow> 'm option" where
  "manifest_at fs p = (case fs p of Some (Json m) \<Rightarrow> Some m | _ \<Rightarrow> None)"

section \<open>Lemmas\<close>

subsection \<open>Slices and ranges\<close>

lemma slice_index_nat: "slice_index n (int a) = min n a"
  by (simp add: slice_index_def)

lemma getslice_nat: "getslice xs (int a) (int b) = take (b - a) (drop a xs)"
proof (cases "a < length xs")
  case True
  then show ?thesis
    by (simp add: getslice_def slice_index_nat Let_def min_def)
next
  case False
  then show ?thesis
    by (simp add: getslice_def slice_index_nat Let_def)
qed

lemma range_int: "range (int n) = map int [0..<n]"
  by (simp add: range_def)

lemma set_range: "set (range n) = {i. 0 \<le> i \<and> i < n}"
proof -
  have "i \<in> int ` {0..<nat n} \<longleftrightarrow> 0 \<le> i \<and> i < n" for i
  proof
    assume "i \<in> int ` {0..<nat n}"
    then show "0 \<le> i \<and> i < n" by auto
  next
    assume "0 \<le> i \<and> i < n"
    then have "nat i \<in> {0..<nat n}" and "i = int (nat i)" by auto
    then show "i \<in> int ` {0..<nat n}" by blast
  qed
  then show ?thesis by (auto simp: range_def)
qed

lemma getitem_nat: "a < length xs \<Longrightarrow> getitem xs (int a) = Inr (xs ! a)"
  by (simp add: getitem_def)

subsection \<open>Decimal file names\<close>

lemma digits_value_snoc: "digits_value (s @ [c]) = 10 * digits_value s + (of_char c - 48)"
  by (simp add: digits_value_def)

lemma digits_value_zeros: "digits_value (replicate k (CHR ''0'') @ s) = digits_value s"
proof -
  have "foldl (\<lambda>v c. 10 * v + (of_char c - 48)) (0::nat) (replicate k (CHR ''0'')) = 0"
    by (induction k) simp_all
  then show ?thesis by (simp add: digits_value_def)
qed

lemma of_char_digit: "d < 10 \<Longrightarrow> of_char (char_of (48 + d) :: char) = (48 + d :: nat)"
  by (simp add: of_char_of)

lemma digits_value_str_nat: "digits_value (str_nat n) = n"
proof (induction n rule: str_nat.induct)
  case (1 n)
  show ?case
  proof (cases "n < 10")
    case True
    then have "str_nat n = [char_of (48 + n)]" by (subst str_nat.simps) simp
    then show ?thesis using True digits_value_snoc [of "[]" "char_of (48 + n)"]
      by (simp add: of_char_digit digits_value_def)
  next
    case False
    then have *: "str_nat n = str_nat (n div 10) @ [char_of (48 + n mod 10)]"
      by (subst str_nat.simps) simp
    have "n mod 10 < 10" by simp
    then have "of_char (char_of (48 + n mod 10) :: char) = (48 + n mod 10 :: nat)"
      by (rule of_char_digit)
    with False "1.IH" show ?thesis
      by (simp add: * digits_value_snoc)
  qed
qed

lemma digits_value_format: "0 \<le> n \<Longrightarrow> digits_value (format_0d w n) = nat n"
  by (simp add: format_0d_def zfill_def digits_value_zeros digits_value_str_nat)

lemma format_0d_inj: "0 \<le> i \<Longrightarrow> 0 \<le> j \<Longrightarrow> format_0d w i = format_0d w j \<Longrightarrow> i = j"
  using digits_value_format [of i w] digits_value_format [of j w] by simp

lemma chunk_filename_inj:
  "0 \<le> i \<Longrightarrow> 0 \<le> j \<Longrightarrow> chunk_filename i = chunk_filename j \<Longrightarrow> i = j"
  by (auto simp: chunk_filename_def dest: format_0d_inj)

lemma chunk_filename_b_inj:
  "0 \<le> i \<Longrightarrow> 0 \<le> j \<Longrightarrow> chunk_filename_b i = chunk_filename_b j \<Longrightarrow> i = j"
  by (auto simp: chunk_filename_b_def dest: format_0d_inj)

lemma path_join_relative:
  "b \<noteq> [] \<Longrightarrow> hd b \<noteq> CHR ''/'' \<Longrightarrow>
   path_join a b = (if a = [] \<or> last a = CHR ''/'' then a else a @ ''/'') @ b"
  by (simp add: path_join_def)

lemma path_join_chunk_filename:
  "path_join a (chunk_filename i) = (if a = [] \<or> last a = CHR ''/'' then a else a @ ''/'') @ chunk_filename i"
  by (rule path_join_relative) (simp_all add: chunk_filename_def)

lemma path_join_metadata:
  "path_join a ''metadata.json'' = (if a = [] \<or> last a = CHR ''/'' then a else a @ ''/'') @ ''metadata.json''"
  by (rule path_join_relative) simp_all

lemma chunk_path_inj:
  "0 \<le> i \<Longrightarrow> 0 \<le> j \<Longrightarrow>
   path_join a (chunk_filename i) = path_join a (chunk_filename j) \<Longrightarrow> i = j"
  by (simp add: path_join_chunk_filename chunk_filename_inj)

lemma chunk_path_not_metadata:
  "path_join a (chunk_filename i) \<noteq> path_join a ''metadata.json''"
proof -
  have "chunk_filename i \<noteq> ''metadata.json''" by (simp add: chunk_filename_def)
  then show ?thesis by (simp only: path_join_chunk_filename path_join_metadata same_append_eq not_False_eq_True)
qed

lemma chunk_path_b_not_metadata:
  "''data/embeddings_chunks/'' @ chunk_filename_b i \<noteq> ''data/embeddings_metadata.json''"
  by simp

lemma chunk_path_b_not_pickle:
  "''data/embeddings_chunks/'' @ chunk_filename_b i \<noteq> ''new_keywords/vector_database.pkl''"
  by simp

subsection \<open>The byte codec\<close>

lemma float32_of_le_inverse:
  "float32_of_le (ucast w) (ucast (drop_bit 8 w)) (ucast (drop_bit 16 w)) (ucast (drop_bit 24 w)) = w"
  unfolding float32_of_le_def
  apply (rule bit_word_eqI)
  apply (auto simp add: bit_simps)
  subgoal for n by (cases "n < 24") simp_all
  done

lemma frombuffer_tobytes: "frombuffer (concat (map float32_le xs) @ bs) = xs @ frombuffer bs"
  by (induction xs) (simp_all add: float32_le_def float32_of_le_inverse)

lemma length_float32_bytes: "length (concat (map float32_le xs)) = 4 * length xs"
  by (induction xs) (simp_all add: float32_le_def)

lemma length_concat_rows:
  "list_all (\<lambda>r. length r = d) rs \<Longrightarrow> length (concat rs) = length rs * d"
  by (induction rs) simp_all

lemma drop_concat_rows:
  "list_all (\<lambda>r. length r = d) rs \<Longrightarrow> drop (i * d) (concat rs) = concat (drop i rs)"
proof (induction rs arbitrary: i)
  case Nil
  then show ?case by simp
next
  case (Cons r rs)
  then show ?case by (cases i) simp_all
qed

lemma reshape_concat:
  assumes "list_all (\<lambda>r. length r = d) rs"
  shows "reshape (length rs) d (concat rs) = rs"
proof (rule nth_equalityI)
  show "length (reshape (length rs) d (concat rs)) = length rs"
    by (simp add: reshape_def)
next
  fix i assume "i < length (reshape (length rs) d (concat rs))"
  then have i: "i < length rs" by (simp add: reshape_def)
  then have "drop i rs = rs ! i # drop (Suc i) rs" by (simp add: Cons_nth_drop_Suc)
  moreover have "length (rs ! i) = d"
    using assms i by (simp add: list_all_length)
  ultimately have "take d (concat (drop i rs)) = rs ! i" by simp
  with i show "reshape (length rs) d (concat rs) ! i = rs ! i"
    by (simp add: reshape_def drop_concat_rows [OF assms])
qed

subsection \<open>Writes\<close>

lemma write_bin_Inr:
  "write_bin env p d fs = (Inr u, fs') \<Longrightarrow> fs' = fs(p \<mapsto> Bin d)"
  by (auto simp: write_bin_def split: if_splits io_fault.splits)

lemma write_bin_No_fault: "write_bin No_fault p d fs = (Inr (), fs(p \<mapsto> Bin d))"
  by (simp add: write_bin_def)

lemma write_bin_frame:
  "write_bin env p d fs = (r, fs') \<Longrightarrow> q \<noteq> p \<Longrightarrow> fs' q = fs q"
  by (auto simp: write_bin_def split: if_splits io_fault.splits)

lemma write_json_cases:
  assumes "write_json env p m fs = (r, fs')"
  shows "(r = Inr () \<and> fs' = fs(p \<mapsto> Json m))
       \<or> (r = Inl OSError \<and> fs' = fs)
       \<or> (\<exists>k. r = Inl OSError \<and> env = Write_fails p k \<and> fs' = fs(p \<mapsto> Json_prefix k m))"
  using assms by (auto simp: write_json_def split: if_splits io_fault.splits)

lemma write_json_No_fault: "write_json No_fault p m fs = (Inr (), fs(p \<mapsto> Json m))"
  by (simp add: write_json_def)

subsection \<open>Loops\<close>

lemma py_for_ok:
  assumes "\<And>i acc s. i \<in> set is \<Longrightarrow> body i acc s = (Inr (step i acc), upd i s)"
  shows "py_for is body acc s = (Inr (fold step is acc), fold upd is s)"
  using assms by (induction "is" arbitrary: acc s) simp_all

lemma py_for_Inr:
  assumes "\<And>i acc s acc' s'. i \<in> set is \<Longrightarrow> body i acc s = (Inr acc', s') \<Longrightarrow>
             acc' = step i acc \<and> s' = upd i s"
    and "py_for is body acc s = (Inr r, s')"
  shows "r = fold step is acc \<and> s' = fold upd is s"
  using assms
proof (induction "is" arbitrary: acc s)
  case Nil
  then show ?case by simp
next
  case (Cons i "is")
  obtain r1 s1 where b: "body i acc s = (r1, s1)" by (cases "body i acc s")
  show ?case
  proof (cases r1)
    case (Inl e)
    with b Cons.prems(2) show ?thesis by simp
  next
    case (Inr acc1)
    with b Cons.prems(1) [of i acc s acc1 s1]
    have eq: "acc1 = step i acc" "s1 = upd i s" by simp_all
    from b Inr Cons.prems(2) have "py_for is body acc1 s1 = (Inr r, s')" by simp
    moreover have "\<And>i acc s acc' s'. i \<in> set is \<Longrightarrow> body i acc s = (Inr acc', s') \<Longrightarrow>
             acc' = step i acc \<and> s' = upd i s"
      using Cons.prems(1) by (meson list.set_intros(2))
    ultimately have "r = fold step is acc1 \<and> s' = fold upd is s1"
      by (rule Cons.IH [rotated])
    with eq show ?thesis by simp
  qed
qed

lemma py_for_frame:
  assumes "\<And>i acc s r s'. i \<in> set is \<Longrightarrow> body i acc s = (r, s') \<Longrightarrow> s' p = s p"
    and "py_for is body acc s = (r, s')"
  shows "s' p = s p"
  using assms
proof (induction "is" arbitrary: acc s)
  case Nil
  then show ?case by simp
next
  case (Cons i "is")
  obtain r1 s1 where b: "body i acc s = (r1, s1)" by (cases "body i acc s")
  then have s1: "s1 p = s p" using Cons.prems(1) [of i acc s r1 s1] by simp
  show ?case
  proof (cases r1)
    case (Inl e)
    with b Cons.prems(2) s1 show ?thesis by simp
  next
    case (Inr acc1)
    with b Cons.prems(2) have "py_for is body acc1 s1 = (r, s')" by simp
    moreover have "\<And>i acc s r s'. i \<in> set is \<Longrightarrow> body i acc s = (r, s') \<Longrightarrow> s' p = s p"
      using Cons.prems(1) by (meson list.set_intros(2))
    ultimately have "s' p = s1 p"
      by (rule Cons.IH [rotated])
    with s1 show ?thesis by simp
  qed
qed

lemma fold_snoc_map: "fold (\<lambda>i acc. acc @ [f i]) is acc = acc @ map f is"
  by (induction "is" arbitrary: acc) simp_all

lemma fold_snoc_pair:
  "fold (\<lambda>i acc. (fst acc @ [f i], snd acc @ g i)) is acc
   = (fst acc @ map f is, snd acc @ concat (map g is))"
  by (induction "is" arbitrary: acc) simp_all

lemma fold_upd_other:
  "p \<notin> f ` set is \<Longrightarrow> fold (\<lambda>i fs. fs(f i \<mapsto> g i)) is fs p = fs p"
  by (induction "is" arbitrary: fs) simp_all

lemma fold_upd_same:
  "inj_on f (set is) \<Longrightarrow> i \<in> set is \<Longrightarrow> fold (\<lambda>i fs. fs(f i \<mapsto> g i)) is fs (f i) = Some (g i)"
proof (induction "is" arbitrary: fs)
  case Nil
  then show ?case by simp
next
  case (Cons j "is")
  show ?case
  proof (cases "i \<in> set is")
    case True
    with Cons show ?thesis by (simp add: inj_on_def)
  next
    case False
    with Cons.prems have ij: "i = j" by simp
    have "f j \<notin> f ` set is"
    proof
      assume "f j \<in> f ` set is"
      then obtain k where "k \<in> set is" "f j = f k" by auto
      with Cons.prems(1) have "j = k" by (simp add: inj_on_def)
      with \<open>k \<in> set is\<close> False ij show False by simp
    qed
    then have "fold (\<lambda>i fs. fs(f i \<mapsto> g i)) is (fs(f j \<mapsto> g j)) (f j) = (fs(f j \<mapsto> g j)) (f j)"
      by (rule fold_upd_other)
    then show ?thesis by (simp only: ij fold_simps comp_apply fun_upd_same)
  qed
qed

subsection \<open>One iteration of each chunk loop\<close>

lemma chunk_body_eq:
  "chunk_body env f32 ks e dir cs idx acc fs =
     (case write_bin env (path_join dir (chunk_filename idx)) (chunk_data f32 ks e cs idx) fs of
        (Inl err, fs') \<Rightarrow> (Inl err, fs')
      | (Inr _, fs') \<Rightarrow> (Inr (acc @ [chunk_info_at ks cs idx]), fs'))"
  unfolding chunk_body_def chunk_data_def chunk_info_at_def Let_def ..

lemma chunk_body_Inr:
  assumes "chunk_body env f32 ks e dir cs idx acc fs = (Inr acc', fs')"
  shows "acc' = acc @ [chunk_info_at ks cs idx]
       \<and> fs' = fs(path_join dir (chunk_filename idx) \<mapsto> Bin (chunk_data f32 ks e cs idx))"
  using assms unfolding chunk_body_eq
  by (auto split: prod.splits sum.splits dest: write_bin_Inr)

lemma chunk_body_No_fault:
  "chunk_body No_fault f32 ks e dir cs idx acc fs =
     (Inr (acc @ [chunk_info_at ks cs idx]),
      fs(path_join dir (chunk_filename idx) \<mapsto> Bin (chunk_data f32 ks e cs idx)))"
  unfolding chunk_body_eq by (simp add: write_bin_No_fault)

lemma chunk_body_frame:
  assumes "chunk_body env f32 ks e dir cs idx acc fs = (r, fs')"
    and "p \<noteq> path_join dir (chunk_filename idx)"
  shows "fs' p = fs p"
  using assms unfolding chunk_body_eq
  by (auto split: prod.splits sum.splits dest: write_bin_frame)

lemma chunk_body_b_Inr:
  assumes "chunk_body_b env f32 ks e cs idx acc fs = (Inr acc', fs')"
  shows "fst acc' = fst acc @ [chunk_entry_at ks cs idx]
       \<and> fs' = fs(''data/embeddings_chunks/'' @ chunk_filename_b idx \<mapsto> Bin (chunk_data f32 ks e cs idx))"
  using assms
  by (auto simp: chunk_body_b_def chunk_data_def chunk_entry_at_def Let_def
           split: prod.splits sum.splits dest: write_bin_Inr)

lemma chunk_body_b_frame:
  assumes "chunk_body_b env f32 ks e cs idx acc fs = (r, fs')"
    and "p \<noteq> ''data/embeddings_chunks/'' @ chunk_filename_b idx"
  shows "fs' p = fs p"
  using assms
  by (auto simp: chunk_body_b_def Let_def
           split: prod.splits sum.splits dest: write_bin_frame)

lemma chunks_written_other:
  "(\<And>idx. 0 \<le> idx \<Longrightarrow> idx < n \<Longrightarrow> path idx \<noteq> p) \<Longrightarrow> chunks_written path data n fs p = fs p"
  unfolding chunks_written_def
  by (rule fold_upd_other [where g = "\<lambda>i. Bin (data i)"]) (auto simp: set_range)

lemma chunks_written_same:
  assumes "\<And>i j. 0 \<le> i \<Longrightarrow> 0 \<le> j \<Longrightarrow> path i = path j \<Longrightarrow> i = j"
    and "0 \<le> idx" "idx < n"
  shows "chunks_written path data n fs (path idx) = Some (Bin (data idx))"
proof -
  have "inj_on path (set (range n))"
    using assms(1) by (auto simp: inj_on_def set_range)
  moreover have "idx \<in> set (range n)" using assms(2,3) by (simp add: set_range)
  ultimately show ?thesis
    unfolding chunks_written_def
    by (rule fold_upd_same [where g = "\<lambda>i. Bin (data i)"])
qed

subsection \<open>The chunk loop of convert_to_binary_chunks\<close>

lemma loop_No_fault:
  "py_for is (chunk_body No_fault f32 ks e dir cs) acc fs =
     (Inr (acc @ map (chunk_info_at ks cs) is),
      fold (\<lambda>idx fs. fs(path_join dir (chunk_filename idx) \<mapsto> Bin (chunk_data f32 ks e cs idx))) is fs)"
proof -
  have "py_for is (chunk_body No_fault f32 ks e dir cs) acc fs =
     (Inr (fold (\<lambda>idx acc. acc @ [chunk_info_at ks cs idx]) is acc),
      fold (\<lambda>idx fs. fs(path_join dir (chunk_filename idx) \<mapsto> Bin (chunk_data f32 ks e cs idx))) is fs)"
    by (rule py_for_ok) (rule chunk_body_No_fault)
  then show ?thesis by (simp only: fold_snoc_map)
qed

lemma loop_Inr:
  assumes "py_for is (chunk_body env f32 ks e dir cs) acc fs = (Inr r, fs')"
  shows "r = acc @ map (chunk_info_at ks cs) is
       \<and> fs' = fold (\<lambda>idx fs. fs(path_join dir (chunk_filename idx) \<mapsto> Bin (chunk_data f32 ks e cs idx))) is fs"
proof -
  have "r = fold (\<lambda>idx acc. acc @ [chunk_info_at ks cs idx]) is acc
      \<and> fs' = fold (\<lambda>idx fs. fs(path_join dir (chunk_filename idx) \<mapsto> Bin (chunk_data f32 ks e cs idx))) is fs"
    by (rule py_for_Inr [OF _ assms]) (rule chunk_body_Inr)
  then show ?thesis by (simp only: fold_snoc_map)
qed

lemma loop_frame:
  assumes "py_for is (chunk_body env f32 ks e dir cs) acc fs = (r, fs')"
  shows "fs' (path_join dir ''metadata.json'') = fs (path_join dir ''metadata.json'')"
proof (rule py_for_frame [OF _ assms])
  fix i acc s r s'
  assume "chunk_body env f32 ks e dir cs i acc s = (r, s')"
  then show "s' (path_join dir ''metadata.json'') = s (path_join dir ''metadata.json'')"
    by (rule chunk_body_frame) (simp add: chunk_path_not_metadata [symmetric])
qed

lemma convert_No_fault:
  assumes "db_keywords db = Some ks" "db_embeddings db = Some e" "chunk_size \<noteq> 0"
  shows "convert_to_binary_chunks No_fault f32 db dir chunk_size fs =
     (Inr (),
      (chunks_written (\<lambda>idx. path_join dir (chunk_filename idx)) (chunk_data f32 ks e chunk_size)
         ((int (length ks) + chunk_size - 1) div chunk_size) fs)
        (path_join dir ''metadata.json'' \<mapsto> Json (metadata_of ks e chunk_size)))"
  using assms
  by (simp add: convert_to_binary_chunks_def makedirs_def loop_No_fault write_json_No_fault
        metadata_of_def chunks_written_def Let_def)

lemma convert_outcome:
  assumes "convert_to_binary_chunks env f32 db dir chunk_size fs = (r, fs')"
  shows "(r \<noteq> Inr () \<and> fs' (path_join dir ''metadata.json'') = fs (path_join dir ''metadata.json''))
       \<or> (\<exists>ks e. db_keywords db = Some ks \<and> db_embeddings db = Some e \<and> chunk_size \<noteq> 0 \<and>
            ((r = Inr () \<and>
              fs' = (chunks_written (\<lambda>idx. path_join dir (chunk_filename idx)) (chunk_data f32 ks e chunk_size)
                      ((int (length ks) + chunk_size - 1) div chunk_size) fs)
                    (path_join dir ''metadata.json'' \<mapsto> Json (metadata_of ks e chunk_size)))
           \<or> (\<exists>k. r = Inl OSError \<and> env = Write_fails (path_join dir ''metadata.json'') k \<and>
              fs' = (chunks_written (\<lambda>idx. path_join dir (chunk_filename idx)) (chunk_data f32 ks e chunk_size)
                      ((int (length ks) + chunk_size - 1) div chunk_size) fs)
                    (path_join dir ''metadata.json'' \<mapsto> Json_prefix k (metadata_of ks e chunk_size)))))"
proof (cases "env = Makedirs_fails")
  case True
  with assms show ?thesis by (auto simp: convert_to_binary_chunks_def makedirs_def)
next
  case mk: False
  show ?thesis
  proof (cases "db_keywords db")
    case None
    with assms mk show ?thesis by (auto simp: convert_to_binary_chunks_def makedirs_def)
  next
    case ks: (Some ks)
    show ?thesis
    proof (cases "db_embeddings db")
      case None
      with assms mk ks show ?thesis by (auto simp: convert_to_binary_chunks_def makedirs_def)
    next
      case e: (Some e)
      show ?thesis
      proof (cases "chunk_size = 0")
        case True
        with assms mk ks e show ?thesis by (auto simp: convert_to_binary_chunks_def makedirs_def)
      next
        case cs: False
        define n where "n = (int (length ks) + chunk_size - 1) div chunk_size"
        obtain r1 fs1 where loop:
          "py_for (range n) (chunk_body env f32 ks e dir chunk_size) [] fs = (r1, fs1)"
          by (cases "py_for (range n) (chunk_body env f32 ks e dir chunk_size) [] fs")
        show ?thesis
        proof (cases r1)
          case (Inl err)
          with assms mk ks e cs loop have "r = Inl err" "fs' = fs1"
            by (simp_all add: convert_to_binary_chunks_def makedirs_def Let_def n_def)
          with loop_frame [OF loop] show ?thesis by simp
        next
          case (Inr infos)
          from loop_Inr [OF loop [unfolded Inr]]
          have infos: "infos = map (chunk_info_at ks chunk_size) (range n)"
            and fs1: "fs1 = chunks_written (\<lambda>idx. path_join dir (chunk_filename idx))
                        (chunk_data f32 ks e chunk_size) n fs"
            by (simp_all add: chunks_written_def)
          from assms mk ks e cs loop Inr
          have w: "write_json env (path_join dir ''metadata.json'') (metadata_of ks e chunk_size) fs1 = (r, fs')"
            by (simp add: convert_to_binary_chunks_def makedirs_def Let_def n_def [symmetric]
                  metadata_of_def infos)
          from write_json_cases [OF w] show ?thesis
          proof (elim disjE exE conjE)
            assume "r = Inr ()" "fs' = fs1(path_join dir ''metadata.json'' \<mapsto> Json (metadata_of ks e chunk_size))"
            with ks e cs fs1 show ?thesis by (simp add: n_def)
          next
            assume "r = Inl OSError" "fs' = fs1"
            moreover have "fs1 (path_join dir ''metadata.json'') = fs (path_join dir ''metadata.json'')"
              using loop_frame [OF loop] .
            ultimately show ?thesis by simp
          next
            fix k
            assume "r = Inl OSError" "env = Write_fails (path_join dir ''metadata.json'') k"
              "fs' = fs1(path_join dir ''metadata.json'' \<mapsto> Json_prefix k (metadata_of ks e chunk_size))"
            with ks e cs fs1 show ?thesis by (simp add: n_def)
          qed
        qed
      qed
    qed
  qed
qed

subsection \<open>The loops of main\<close>

lemma keyword_loop_ok:
  assumes "\<And>j. j \<in> set js \<Longrightarrow> 0 \<le> start + j \<and> start + j < int (length ks)"
  shows "keyword_loop ks start cid js acc =
     Inr (acc @ map (\<lambda>i. \<lparr>keyword_e = ks ! nat (start + i), chunk_id_e = cid, local_index_e = i\<rparr>) js)"
  using assms
proof (induction js arbitrary: acc)
  case Nil
  then show ?case by simp
next
  case (Cons j js)
  from Cons.prems [of j] have "getitem ks (start + j) = Inr (ks ! nat (start + j))"
    by (simp add: getitem_def)
  moreover have "keyword_loop ks start cid js (acc @ [\<lparr>keyword_e = ks ! nat (start + j), chunk_id_e = cid, local_index_e = j\<rparr>]) =
     Inr ((acc @ [\<lparr>keyword_e = ks ! nat (start + j), chunk_id_e = cid, local_index_e = j\<rparr>])
       @ map (\<lambda>i. \<lparr>keyword_e = ks ! nat (start + i), chunk_id_e = cid, local_index_e = i\<rparr>) js)"
    using Cons.prems by (intro Cons.IH) simp
  ultimately show ?case by simp
qed

lemma keyword_loop_chunk:
  assumes "0 < cs" "0 \<le> idx"
  shows "keyword_loop ks (idx * cs) idx
           (range (min (idx * cs + cs) (int (length ks)) - idx * cs)) acc =
         Inr (acc @ keyword_entries_at ks cs idx)"
  unfolding keyword_entries_at_def
proof (rule keyword_loop_ok)
  fix j
  assume "j \<in> set (range (min (idx * cs + cs) (int (length ks)) - idx * cs))"
  then have "0 \<le> j" "j < min (idx * cs + cs) (int (length ks)) - idx * cs"
    by (simp_all add: set_range)
  moreover have "0 \<le> idx * cs" using assms by simp
  ultimately show "0 \<le> idx * cs + j \<and> idx * cs + j < int (length ks)" by simp
qed

lemma chunk_body_b_No_fault:
  assumes "0 < cs" "0 \<le> idx"
  shows "chunk_body_b No_fault f32 ks e cs idx acc fs =
     (Inr (fst acc @ [chunk_entry_at ks cs idx], snd acc @ keyword_entries_at ks cs idx),
      fs(''data/embeddings_chunks/'' @ chunk_filename_b idx \<mapsto> Bin (chunk_data f32 ks e cs idx)))"
  unfolding chunk_body_b_def Let_def
  by (simp only: write_bin_No_fault keyword_loop_chunk [OF assms] chunk_data_def chunk_entry_at_def
        prod.case sum.case)

lemma loop_b_No_fault:
  assumes "0 < cs"
  shows "py_for (range n) (chunk_body_b No_fault f32 ks e cs) ([], []) fs =
     (Inr (map (chunk_entry_at ks cs) (range n), concat (map (keyword_entries_at ks cs) (range n))),
      chunks_written (\<lambda>idx. ''data/embeddings_chunks/'' @ chunk_filename_b idx) (chunk_data f32 ks e cs) n fs)"
proof -
  have "py_for (range n) (chunk_body_b No_fault f32 ks e cs) ([], []) fs =
     (Inr (fold (\<lambda>idx acc. (fst acc @ [chunk_entry_at ks cs idx], snd acc @ keyword_entries_at ks cs idx))
             (range n) ([], [])),
      fold (\<lambda>idx fs. fs(''data/embeddings_chunks/'' @ chunk_filename_b idx \<mapsto> Bin (chunk_data f32 ks e cs idx)))
        (range n) fs)"
  proof (rule py_for_ok)
    fix i acc s
    assume "i \<in> set (range n)"
    then have "0 \<le> i" by (simp add: set_range)
    with assms show "chunk_body_b No_fault f32 ks e cs i acc s =
      (Inr (fst acc @ [chunk_entry_at ks cs i], snd acc @ keyword_entries_at ks cs i),
       s(''data/embeddings_chunks/'' @ chunk_filename_b i \<mapsto> Bin (chunk_data f32 ks e cs i)))"
      by (rule chunk_body_b_No_fault)
  qed
  then show ?thesis by (simp add: fold_snoc_pair chunks_written_def)
qed

lemma loop_b_Inr:
  assumes "py_for is (chunk_body_b env f32 ks e cs) acc fs = (Inr r, fs')"
  shows "fst r = fst acc @ map (chunk_entry_at ks cs) is
       \<and> fs' = fold (\<lambda>idx fs. fs(''data/embeddings_chunks/'' @ chunk_filename_b idx \<mapsto> Bin (chunk_data f32 ks e cs idx))) is fs"
  using assms
proof (induction "is" arbitrary: acc fs)
  case Nil
  then show ?case by simp
next
  case (Cons i "is")
  obtain r1 s1 where b: "chunk_body_b env f32 ks e cs i acc fs = (r1, s1)"
    by (cases "chunk_body_b env f32 ks e cs i acc fs")
  show ?case
  proof (cases r1)
    case (Inl err)
    with b Cons.prems show ?thesis by simp
  next
    case (Inr acc1)
    from chunk_body_b_Inr [OF b [unfolded Inr]]
    have eq: "fst acc1 = fst acc @ [chunk_entry_at ks cs i]"
      "s1 = fs(''data/embeddings_chunks/'' @ chunk_filename_b i \<mapsto> Bin (chunk_data f32 ks e cs i))"
      by simp_all
    from b Inr Cons.prems have "py_for is (chunk_body_b env f32 ks e cs) acc1 s1 = (Inr r, fs')"
      by simp
    from Cons.IH [OF this] eq show ?thesis by simp
  qed
qed

lemma loop_b_frame:
  assumes "py_for is (chunk_body_b env f32 ks e cs) acc fs = (r, fs')"
  shows "fs' ''data/embeddings_metadata.json'' = fs ''data/embeddings_metadata.json''"
proof (rule py_for_frame [OF _ assms])
  fix i acc s r s'
  assume "chunk_body_b env f32 ks e cs i acc s = (r, s')"
  then show "s' ''data/embeddings_metadata.json'' = s ''data/embeddings_metadata.json''"
    by (rule chunk_body_b_frame) simp
qed

lemma main_load_Inr:
  "main_load d fs = Inr (e, ks) \<longleftrightarrow>
     (\<exists>db. fs ''new_keywords/vector_database.pkl'' = Some (Pickle db) \<and>
           db_embeddings db = Some e \<and> db_keywords db = Some ks \<and>
           shape e = (int (length ks), d))"
  by (auto simp: main_load_def Let_def split: option.splits content.splits)

lemma main_with_No_fault:
  assumes "fs ''new_keywords/vector_database.pkl'' = Some (Pickle db)"
    and "db_keywords db = Some ks" "db_embeddings db = Some e"
    and "shape e = (int (length ks), d)" "0 < chunk_size"
  shows "main_with chunk_size d No_fault now f32 fs =
     (Inr (),
      (chunks_written (\<lambda>idx. ''data/embeddings_chunks/'' @ chunk_filename_b idx) (chunk_data f32 ks e chunk_size)
         ((int (length ks) + chunk_size - 1) div chunk_size) fs)
        (''data/embeddings_metadata.json'' \<mapsto> Json (metadata_b_of ks chunk_size d now)))"
proof -
  have "main_load d fs = Inr (e, ks)"
    using assms(1-4) by (auto simp: main_load_Inr)
  then show ?thesis
    using assms(5)
    by (simp add: main_with_def makedirs_def Let_def loop_b_No_fault write_json_No_fault
          metadata_b_of_def)
qed

lemma main_with_outcome:
  assumes "main_with chunk_size d env now f32 fs = (r, fs')"
  shows "(r \<noteq> Inr () \<and> fs' ''data/embeddings_metadata.json'' = fs ''data/embeddings_metadata.json'')
       \<or> (\<exists>ks e m. main_load d fs = Inr (e, ks) \<and> chunk_size \<noteq> 0 \<and>
            chunks_b m = map (chunk_entry_at ks chunk_size)
                           (range ((int (length ks) + chunk_size - 1) div chunk_size)) \<and>
            ((r = Inr () \<and>
              fs' = (chunks_written (\<lambda>idx. ''data/embeddings_chunks/'' @ chunk_filename_b idx)
                      (chunk_data f32 ks e chunk_size)
                      ((int (length ks) + chunk_size - 1) div chunk_size) fs)
                    (''data/embeddings_metadata.json'' \<mapsto> Json m))
           \<or> (\<exists>k. r = Inl OSError \<and> env = Write_fails ''data/embeddings_metadata.json'' k \<and>
              fs' = (chunks_written (\<lambda>idx. ''data/embeddings_chunks/'' @ chunk_filename_b idx)
                      (chunk_data f32 ks e chunk_size)
                      ((int (length ks) + chunk_size - 1) div chunk_size) fs)
                    (''data/embeddings_metadata.json'' \<mapsto> Json_prefix k m))))"
proof (cases "main_load d fs")
  case (Inl err)
  with assms show ?thesis by (auto simp: main_with_def)
next
  case (Inr p)
  obtain e ks where p: "p = (e, ks)" by (cases p)
  note ld = Inr [unfolded p]
  show ?thesis
  proof (cases "env = Makedirs_fails \<or> chunk_size = 0")
    case True
    then have "r \<noteq> Inr () \<and> fs' = fs"
    proof
      assume "env = Makedirs_fails"
      with assms ld show ?thesis by (simp add: main_with_def makedirs_def) auto
    next
      assume "chunk_size = 0"
      with assms ld show ?thesis
        by (cases "env = Makedirs_fails") (auto simp add: main_with_def makedirs_def)
    qed
    then show ?thesis by simp
  next
    case False
    then have mk: "env \<noteq> Makedirs_fails" and cs: "chunk_size \<noteq> 0" by simp_all
    define n where "n = (int (length ks) + chunk_size - 1) div chunk_size"
    obtain r1 fs1 where loop:
      "py_for (range n) (chunk_body_b env f32 ks e chunk_size) ([], []) fs = (r1, fs1)"
      by (cases "py_for (range n) (chunk_body_b env f32 ks e chunk_size) ([], []) fs")
    show ?thesis
    proof (cases r1)
      case (Inl err)
      with assms mk ld cs loop have "r = Inl err" "fs' = fs1"
        by (simp_all add: main_with_def makedirs_def Let_def n_def)
      with loop_b_frame [OF loop] show ?thesis by simp
    next
      case (Inr acc)
      obtain entries index where acc: "acc = (entries, index)" by (cases acc)
      from loop_b_Inr [OF loop [unfolded Inr]] acc
      have entries: "entries = map (chunk_entry_at ks chunk_size) (range n)"
        and fs1: "fs1 = chunks_written (\<lambda>idx. ''data/embeddings_chunks/'' @ chunk_filename_b idx)
                    (chunk_data f32 ks e chunk_size) n fs"
        by (simp_all add: chunks_written_def)
      define m where "m = \<lparr>version_b = ''3.0.0'', created_at_b = now,
        total_keywords_b = int (length ks), embedding_dimensions_b = d,
        chunk_size_b = chunk_size, chunks_b = entries, keywords_b = index\<rparr>"
      from assms mk ld cs loop Inr acc
      have w: "write_json env ''data/embeddings_metadata.json'' m fs1 = (r, fs')"
        by (simp add: main_with_def makedirs_def Let_def n_def [symmetric] m_def)
      have cm: "chunks_b m = map (chunk_entry_at ks chunk_size) (range n)"
        by (simp add: m_def entries)
      from write_json_cases [OF w] show ?thesis
      proof (elim disjE exE conjE)
        assume "r = Inr ()" "fs' = fs1(''data/embeddings_metadata.json'' \<mapsto> Json m)"
        with ld cs fs1 cm show ?thesis unfolding n_def by blast
      next
        assume "r = Inl OSError" "fs' = fs1"
        with loop_b_frame [OF loop] show ?thesis by simp
      next
        fix k
        assume "r = Inl OSError" "env = Write_fails ''data/embeddings_metadata.json'' k"
          "fs' = fs1(''data/embeddings_metadata.json'' \<mapsto> Json_prefix k m)"
        with ld cs fs1 cm show ?thesis unfolding n_def by blast
      qed
    qed
  qed
qed

subsection \<open>Chunk arithmetic for a positive chunk size\<close>

lemma ceil_div:
  fixes a b :: int
  assumes "0 < b"
  shows "\<lceil>real_of_int a / real_of_int b\<rceil> = (a + b - 1) div b"
proof -
  define q r where "q = (- a) div b" and "r = (- a) mod b"
  have r: "0 \<le> r" "r < b" using assms by (simp_all add: r_def)
  have "- a = b * q + r" by (simp add: q_def r_def)
  then have "a + b - 1 = b * (- q) + (b - 1 - r)" by (simp add: algebra_simps)
  then have "(a + b - 1) div b = - q"
    using r int_div_pos_eq [of "a + b - 1" b "- q" "b - 1 - r"] by simp
  then show ?thesis by (simp add: ceiling_divide_eq_div q_def)
qed

lemma num_chunks_nat:
  "0 < c \<Longrightarrow> (int N + int c - 1) div int c = int ((N + c - 1) div c)"
proof -
  assume "0 < c"
  then have "int N + int c - 1 = int (N + c - 1)" by simp
  then show ?thesis by (simp only: zdiv_int)
qed

lemma num_chunks_cover: "0 < c \<Longrightarrow> N \<le> ((N + c - 1) div c) * c" for c N :: nat
proof -
  assume c: "0 < c"
  have "N + c - 1 = ((N + c - 1) div c) * c + (N + c - 1) mod c" by simp
  moreover have "(N + c - 1) mod c < c" using c by simp
  ultimately show ?thesis by linarith
qed

lemma chunk_start_lt: "0 < c \<Longrightarrow> i < (N + c - 1) div c \<Longrightarrow> i * c < N" for c N i :: nat
proof -
  assume c: "0 < c" and i: "i < (N + c - 1) div c"
  then have "Suc i \<le> (N + c - 1) div c" by simp
  then have "Suc i * c \<le> ((N + c - 1) div c) * c" by (rule mult_le_mono1)
  also have "\<dots> \<le> N + c - 1" by simp
  finally show ?thesis using c by simp
qed

lemma chunk_end_nat:
  "min (int i * int c + int c) (int N) = int (min (i * c + c) N)"
proof -
  have "int i * int c + int c = int (i * c + c)" by simp
  then show ?thesis by (simp only: of_nat_min)
qed

lemma take_chunk:
  "length xs = N \<Longrightarrow> take (min (a + c) N - a) (drop a xs) = take c (drop a xs)"
  by (cases "a + c \<le> N") (simp_all add: min_def)

lemma getslice_chunk:
  assumes "length xs = N"
  shows "getslice xs (int i * int c) (min (int i * int c + int c) (int N)) = take c (drop (i * c) xs)"
proof -
  have "getslice xs (int i * int c) (min (int i * int c + int c) (int N))
      = getslice xs (int (i * c)) (int (min (i * c + c) N))"
    by (simp only: chunk_end_nat of_nat_mult)
  also have "\<dots> = take (min (i * c + c) N - i * c) (drop (i * c) xs)"
    by (rule getslice_nat)
  also have "\<dots> = take c (drop (i * c) xs)"
    using assms by (rule take_chunk)
  finally show ?thesis .
qed

lemma getslice_chunk_nat:
  assumes "length xs = N"
  shows "getslice xs (int i * int c) (int (min (i * c + c) N)) = take c (drop (i * c) xs)"
  using getslice_chunk [OF assms, of i c] by (simp only: chunk_end_nat)

lemma nat_int_diff: "nat (int a - int b) = a - b"
  by arith

lemma concat_chunks:
  "length xs \<le> n * c \<Longrightarrow> concat (map (\<lambda>i. take c (drop (i * c) xs)) [0..<n]) = xs"
proof (induction n arbitrary: xs)
  case 0
  then show ?case by simp
next
  case (Suc n)
  have "[0..<Suc n] = 0 # map Suc [0..<n]"
    by (simp add: upt_conv_Cons map_Suc_upt del: upt_Suc)
  then have "concat (map (\<lambda>i. take c (drop (i * c) xs)) [0..<Suc n])
      = take c xs @ concat (map (\<lambda>i. take c (drop (i * c) (drop c xs))) [0..<n])"
    by (simp add: comp_def add.commute del: upt_Suc)
  also have "concat (map (\<lambda>i. take c (drop (i * c) (drop c xs))) [0..<n]) = drop c xs"
    using Suc.prems by (intro Suc.IH) simp
  finally show ?case by simp
qed

lemma concat_chunks_all:
  "0 < c \<Longrightarrow> concat (map (\<lambda>i. take c (drop (i * c) xs)) [0..<(length xs + c - 1) div c]) = xs"
  by (rule concat_chunks) (rule num_chunks_cover)

lemma length_chunk:
  "0 < c \<Longrightarrow> i < (length xs + c - 1) div c \<Longrightarrow> length (take c (drop (i * c) xs)) = min c (length xs - i * c)"
  by simp

subsection \<open>The records and bytes of a chunk, for a positive chunk size\<close>

lemma chunk_info_at_nat:
  "chunk_info_at ks (int c) (int i) =
     \<lparr>chunk_id_a = int i,
      filename_a = chunk_filename (int i),
      start_index_a = int (i * c),
      end_index_a = int (min (i * c + c) (length ks)),
      keyword_count_a = int (length (take c (drop (i * c) ks))),
      keywords_a = take c (drop (i * c) ks)\<rparr>"
  unfolding chunk_info_at_def
  by (simp only: getslice_chunk_nat [OF refl] chunk_end_nat of_nat_mult)

lemma chunk_entry_at_nat:
  "chunk_entry_at ks (int c) (int i) =
     \<lparr>chunk_id_b = int i,
      start_index_b = int (i * c),
      end_index_b = int (min (i * c + c) (length ks)) - 1,
      keyword_count_b = int (min (i * c + c) (length ks)) - int (i * c),
      file_path_b = chunk_filename_b (int i)\<rparr>"
  by (simp add: chunk_entry_at_def chunk_end_nat del: of_nat_min)

lemma chunk_data_nat:
  assumes "length (rows e) = length ks"
  shows "chunk_data f32 ks e (int c) (int i) =
     concat (map float32_le (concat (map (map f32) (take c (drop (i * c) (rows e))))))"
  by (simp add: chunk_data_def tobytes_def astype_float32_def array_slice_def
        getslice_chunk [OF assms])

lemma keyword_entries_at_nat:
  "keyword_entries_at ks (int c) (int i) =
     map (\<lambda>j. \<lparr>keyword_e = ks ! (i * c + j), chunk_id_e = int i, local_index_e = int j\<rparr>)
       [0..<min (i * c + c) (length ks) - i * c]"
proof -
  have "min (int i * int c + int c) (int (length ks)) - int i * int c
      = int (min (i * c + c) (length ks)) - int (i * c)"
    by (simp only: chunk_end_nat of_nat_mult)
  then have "range (min (int i * int c + int c) (int (length ks)) - int i * int c)
      = map int [0..<min (i * c + c) (length ks) - i * c]"
    by (simp only: range_def nat_int_diff)
  moreover have "nat (int i * int c + int j) = i * c + j" for j
    by (simp add: nat_add_distrib nat_mult_distrib)
  ultimately show ?thesis
    by (simp add: keyword_entries_at_def comp_def)
qed

lemma metadata_of_nat:
  assumes "0 < c"
  shows "metadata_of ks e (int c) =
     \<lparr>version_a = ''1.0.0'',
      total_keywords_a = int (length ks),
      embedding_dimension_a = int (ncols e),
      chunk_size_a = int c,
      num_chunks_a = int ((length ks + c - 1) div c),
      chunks_a = map (\<lambda>i. chunk_info_at ks (int c) (int i)) [0..<(length ks + c - 1) div c]\<rparr>"
  by (simp add: metadata_of_def num_chunks_nat [OF assms] range_int shape_def comp_def)

lemma metadata_b_of_nat:
  assumes "0 < c"
  shows "metadata_b_of ks (int c) d now =
     \<lparr>version_b = ''3.0.0'',
      created_at_b = now,
      total_keywords_b = int (length ks),
      embedding_dimensions_b = d,
      chunk_size_b = int c,
      chunks_b = map (\<lambda>i. chunk_entry_at ks (int c) (int i)) [0..<(length ks + c - 1) div c],
      keywords_b = concat (map (\<lambda>i. keyword_entries_at ks (int c) (int i)) [0..<(length ks + c - 1) div c])\<rparr>"
  by (simp add: metadata_b_of_def num_chunks_nat [OF assms] range_int comp_def)

subsection \<open>The metadata of a run without faults\<close>

lemma pos_int_obtain:
  fixes z :: int
  assumes "0 < z"
  obtains c where "z = int c" "0 < c"
  using assms by (metis zero_less_imp_eq_int)

lemma convert_manifest:
  assumes "0 < chunk_size" "db_keywords db = Some ks" "db_embeddings db = Some e"
  shows "\<exists>fs'. convert_to_binary_chunks No_fault f32 db dir chunk_size fs = (Inr (), fs')
           \<and> fs' (path_join dir ''metadata.json'') = Some (Json (metadata_of ks e chunk_size))"
  using convert_No_fault [OF assms(2,3), of chunk_size f32 dir fs] assms(1) by simp

lemma main_with_manifest:
  assumes "fs ''new_keywords/vector_database.pkl'' = Some (Pickle db)"
    and "db_keywords db = Some ks" "db_embeddings db = Some e"
    and "shape e = (int (length ks), d)" "0 < chunk_size"
  shows "\<exists>fs'. main_with chunk_size d No_fault now f32 fs = (Inr (), fs')
           \<and> fs' ''data/embeddings_metadata.json'' = Some (Json (metadata_b_of ks chunk_size d now))"
  using main_with_No_fault [of fs db ks e d chunk_size now f32] assms by simp

lemma chunk_info_bounds:
  assumes "0 < c" "i < (length ks + c - 1) div c"
  shows "start_index_a (chunk_info_at ks (int c) (int i)) = chunk_id_a (chunk_info_at ks (int c) (int i)) * int c"
    and "end_index_a (chunk_info_at ks (int c) (int i))
         = min (start_index_a (chunk_info_at ks (int c) (int i)) + int c) (int (length ks))"
    and "keyword_count_a (chunk_info_at ks (int c) (int i))
         = end_index_a (chunk_info_at ks (int c) (int i)) - start_index_a (chunk_info_at ks (int c) (int i))"
proof -
  show "start_index_a (chunk_info_at ks (int c) (int i)) = chunk_id_a (chunk_info_at ks (int c) (int i)) * int c"
    by (simp add: chunk_info_at_def)
  show "end_index_a (chunk_info_at ks (int c) (int i))
         = min (start_index_a (chunk_info_at ks (int c) (int i)) + int c) (int (length ks))"
    by (simp add: chunk_info_at_def)
  have "i * c < length ks" using assms by (rule chunk_start_lt)
  then have "length (take c (drop (i * c) ks)) = min (i * c + c) (length ks) - i * c"
    and "i * c \<le> min (i * c + c) (length ks)"
    by (auto simp add: min_def)
  then have "int (length (take c (drop (i * c) ks))) = int (min (i * c + c) (length ks)) - int (i * c)"
    by (simp only: of_nat_diff)
  then show "keyword_count_a (chunk_info_at ks (int c) (int i))
         = end_index_a (chunk_info_at ks (int c) (int i)) - start_index_a (chunk_info_at ks (int c) (int i))"
    by (simp only: chunk_info_at_nat chunk_info.simps)
qed

lemma chunk_entry_bounds:
  "start_index_b (chunk_entry_at ks cs idx) = chunk_id_b (chunk_entry_at ks cs idx) * cs"
  "end_index_b (chunk_entry_at ks cs idx)
     = min (start_index_b (chunk_entry_at ks cs idx) + cs) (int (length ks)) - 1"
  "keyword_count_b (chunk_entry_at ks cs idx)
     = end_index_b (chunk_entry_at ks cs idx) - start_index_b (chunk_entry_at ks cs idx) + 1"
  by (simp_all add: chunk_entry_at_def)

section \<open>Claims\<close>

text \<open>
  C7 (as amended). For a positive chunk size, a run without faults completes and every
  chunk record of its metadata has \<open>start_index = chunk_id * chunk_size\<close>. In
  \<^verbatim>\<open>convert_to_binary_chunks\<close> the recorded \<open>end_index\<close> is the exclusive end
  \<open>min (start_index + chunk_size) N\<close> and \<open>keyword_count = end_index - start_index\<close>; in
  \<^verbatim>\<open>main\<close> of \<^verbatim>\<open>convert-pickle-to-binary.py\<close> the recorded \<open>end_index\<close> is the inclusive
  end \<open>min (start_index + chunk_size) N - 1\<close> and
  \<open>keyword_count = end_index - start_index + 1\<close>.
\<close>

theorem chunk_record_bounds:
  assumes "0 < chunk_size" "db_keywords db = Some ks" "db_embeddings db = Some e"
  shows "(\<exists>m fs'. convert_to_binary_chunks No_fault f32 db dir chunk_size fs = (Inr (), fs')
            \<and> fs' (path_join dir ''metadata.json'') = Some (Json m)
            \<and> (\<forall>c \<in> set (chunks_a m).
                  start_index_a c = chunk_id_a c * chunk_size
                \<and> end_index_a c = min (start_index_a c + chunk_size) (int (length ks))
                \<and> keyword_count_a c = end_index_a c - start_index_a c))
       \<and> (fs_b ''new_keywords/vector_database.pkl'' = Some (Pickle db)
            \<and> shape e = (int (length ks), d) \<longrightarrow>
          (\<exists>m fs'. main_with chunk_size d No_fault now f32 fs_b = (Inr (), fs')
            \<and> fs' ''data/embeddings_metadata.json'' = Some (Json m)
            \<and> (\<forall>c \<in> set (chunks_b m).
                  start_index_b c = chunk_id_b c * chunk_size
                \<and> end_index_b c = min (start_index_b c + chunk_size) (int (length ks)) - 1
                \<and> keyword_count_b c = end_index_b c - start_index_b c + 1)))"
proof (intro conjI impI)
  from assms(1) obtain c where c: "chunk_size = int c" "0 < c" by (rule pos_int_obtain)
  have "\<forall>x \<in> set (chunks_a (metadata_of ks e chunk_size)).
                  start_index_a x = chunk_id_a x * chunk_size
                \<and> end_index_a x = min (start_index_a x + chunk_size) (int (length ks))
                \<and> keyword_count_a x = end_index_a x - start_index_a x"
    unfolding c(1) metadata_of_nat [OF c(2)]
    using chunk_info_bounds [OF c(2), of _ ks] by auto
  with convert_manifest [OF assms, of f32 dir fs]
  show "\<exists>m fs'. convert_to_binary_chunks No_fault f32 db dir chunk_size fs = (Inr (), fs')
            \<and> fs' (path_join dir ''metadata.json'') = Some (Json m)
            \<and> (\<forall>c \<in> set (chunks_a m).
                  start_index_a c = chunk_id_a c * chunk_size
                \<and> end_index_a c = min (start_index_a c + chunk_size) (int (length ks))
                \<and> keyword_count_a c = end_index_a c - start_index_a c)"
    by blast
next
  assume b: "fs_b ''new_keywords/vector_database.pkl'' = Some (Pickle db) \<and> shape e = (int (length ks), d)"
  have "\<forall>x \<in> set (chunks_b (metadata_b_of ks chunk_size d now)).
                  start_index_b x = chunk_id_b x * chunk_size
                \<and> end_index_b x = min (start_index_b x + chunk_size) (int (length ks)) - 1
                \<and> keyword_count_b x = end_index_b x - start_index_b x + 1"
    using chunk_entry_bounds [of ks chunk_size] by (auto simp: metadata_b_of_def)
  with main_with_manifest [of fs_b db ks e d chunk_size now f32] b assms
  show "\<exists>m fs'. main_with chunk_size d No_fault now f32 fs_b = (Inr (), fs')
            \<and> fs' ''data/embeddings_metadata.json'' = Some (Json m)
            \<and> (\<forall>c \<in> set (chunks_b m).
                  start_index_b c = chunk_id_b c * chunk_size
                \<and> end_index_b c = min (start_index_b c + chunk_size) (int (length ks)) - 1
                \<and> keyword_count_b c = end_index_b c - start_index_b c + 1)"
    by blast
qed

text \<open>
  C7 as stated fails for \<^verbatim>\<open>main\<close>: with one keyword and \<open>CHUNK_SIZE = 2000\<close> the only
  chunk record has \<open>end_index = 0\<close>, which is neither \<open>min (0 + 2000) 1 = 1\<close> nor
  \<open>start_index + keyword_count\<close>.
\<close>

theorem chunk_record_bounds_counterexample:
  "map_option chunks_b (manifest_at (snd (main No_fault ''t'' id single_fs)) ''data/embeddings_metadata.json'')
     = Some [\<lparr>chunk_id_b = 0, start_index_b = 0, end_index_b = 0, keyword_count_b = 1,
              file_path_b = ''chunk_000.bin''\<rparr>]
   \<and> (0::int) \<noteq> min (0 + CHUNK_SIZE) (int (length [''a'']))
   \<and> (1::int) \<noteq> 0 - 0"
proof -
  have "main No_fault ''t'' id single_fs =
     (Inr (),
      (chunks_written (\<lambda>idx. ''data/embeddings_chunks/'' @ chunk_filename_b idx)
         (chunk_data id [''a''] \<lparr>rows = [replicate 384 0], ncols = 384\<rparr> CHUNK_SIZE)
         ((int (length [''a'']) + CHUNK_SIZE - 1) div CHUNK_SIZE) single_fs)
        (''data/embeddings_metadata.json'' \<mapsto> Json (metadata_b_of [''a''] CHUNK_SIZE EMBEDDING_DIM ''t'')))"
    unfolding main_def
    by (rule main_with_No_fault [where db = single])
       (simp_all add: single_fs_def single_def shape_def CHUNK_SIZE_def EMBEDDING_DIM_def)
  moreover have "chunks_b (metadata_b_of [''a''] CHUNK_SIZE EMBEDDING_DIM ''t'')
     = [\<lparr>chunk_id_b = 0, start_index_b = 0, end_index_b = 0, keyword_count_b = 1,
              file_path_b = ''chunk_000.bin''\<rparr>]"
  proof -
    have "chunk_filename_b 0 = ''chunk_000.bin''" by code_simp
    then show ?thesis
      by (simp add: metadata_b_of_def CHUNK_SIZE_def range_def chunk_entry_at_def)
  qed
  ultimately show ?thesis
    by (simp add: manifest_at_def CHUNK_SIZE_def)
qed

text \<open>C7 on the scenario of the specification, for both scripts.\<close>

theorem chunk_record_bounds_witness:
  "(0::int) < 2 \<and> db_keywords scenario = Some [''a'', ''b'', ''c'']
   \<and> db_embeddings scenario = Some \<lparr>rows = [[1, 2], [3, 4], [5, 6]], ncols = 2\<rparr>
   \<and> scenario_fs ''new_keywords/vector_database.pkl'' = Some (Pickle scenario)
   \<and> shape \<lparr>rows = [[1, 2], [3, 4], [5, 6 :: float32]], ncols = 2\<rparr> = (int (length [''a'', ''b'', ''c'']), 2)
   \<and> (\<exists>m fs'. convert_to_binary_chunks No_fault id scenario ''out'' 2 Map.empty = (Inr (), fs')
            \<and> fs' (path_join ''out'' ''metadata.json'') = Some (Json m)
            \<and> (\<forall>c \<in> set (chunks_a m).
                  start_index_a c = chunk_id_a c * 2
                \<and> end_index_a c = min (start_index_a c + 2) (int (length [''a'', ''b'', ''c'']))
                \<and> keyword_count_a c = end_index_a c - start_index_a c))
   \<and> (\<exists>m fs'. main_with 2 2 No_fault ''t'' id scenario_fs = (Inr (), fs')
            \<and> fs' ''data/embeddings_metadata.json'' = Some (Json m)
            \<and> (\<forall>c \<in> set (chunks_b m).
                  start_index_b c = chunk_id_b c * 2
                \<and> end_index_b c = min (start_index_b c + 2) (int (length [''a'', ''b'', ''c''])) - 1
                \<and> keyword_count_b c = end_index_b c - start_index_b c + 1))"
proof -
  have h1: "(0::int) < 2" by simp
  have h2: "db_keywords scenario = Some [''a'', ''b'', ''c'']" by (simp add: scenario_def)
  have h3: "db_embeddings scenario = Some \<lparr>rows = [[1, 2], [3, 4], [5, 6]], ncols = 2\<rparr>"
    by (simp add: scenario_def)
  have h4: "scenario_fs ''new_keywords/vector_database.pkl'' = Some (Pickle scenario)"
    by (simp add: scenario_fs_def)
  have h5: "shape \<lparr>rows = [[1, 2], [3, 4], [5, 6 :: float32]], ncols = 2\<rparr> = (int (length [''a'', ''b'', ''c'']), 2)"
    by (simp add: shape_def)
  from chunk_record_bounds [OF h1 h2 h3, of id "''out''" Map.empty scenario_fs 2 "''t''"] h4 h5
  show ?thesis using h1 h2 h3 by blast
qed

subsection \<open>Keyword counts of the chunk records\<close>

lemma counts_sum:
  fixes c N :: nat
  assumes "0 < c"
  shows "sum_list (map (\<lambda>i. int (min c (N - i * c))) [0..<(N + c - 1) div c]) = int N"
proof -
  define xs where "xs = replicate N ()"
  have "length (concat (map (\<lambda>i. take c (drop (i * c) xs)) [0..<(length xs + c - 1) div c])) = length xs"
    using assms by (simp only: concat_chunks_all)
  then have "sum_list (map (\<lambda>i. min c (N - i * c)) [0..<(N + c - 1) div c]) = N"
    by (simp add: length_concat comp_def xs_def min.commute)
  moreover have "map (\<lambda>i. int (min c (N - i * c))) [0..<(N + c - 1) div c]
      = map int (map (\<lambda>i. min c (N - i * c)) [0..<(N + c - 1) div c])"
    by (simp only: map_map comp_def)
  ultimately show ?thesis by (simp only: sum_list_of_nat)
qed

lemma counts_full:
  fixes c N i :: nat
  assumes "0 < c" "c dvd N" "i < (N + c - 1) div c"
  shows "min c (N - i * c) = c"
proof -
  from assms(2) obtain q where q: "N = c * q" ..
  have "i * c < N" using assms(1,3) by (rule chunk_start_lt)
  then have "i < q" using assms(1) by (simp add: q mult.commute)
  then have "Suc i * c \<le> q * c" by (intro mult_le_mono1) simp
  then have "i * c + c \<le> N" by (simp add: q mult.commute)
  then show ?thesis by simp
qed

lemma counts_last:
  fixes c N k :: nat
  assumes "0 < c" "N = k * c + 1"
  shows "(N + c - 1) div c = Suc k" and "min c (N - k * c) = 1"
  using assms by simp_all

lemma counts_a:
  assumes "0 < c"
  shows "map keyword_count_a (chunks_a (metadata_of ks e (int c)))
       = map (\<lambda>i. int (min c (length ks - i * c))) [0..<(length ks + c - 1) div c]"
  by (simp add: metadata_of_nat [OF assms] chunk_info_at_nat comp_def min.commute del: of_nat_min)

lemma counts_b:
  assumes "0 < c"
  shows "map keyword_count_b (chunks_b (metadata_b_of ks (int c) d now))
       = map (\<lambda>i. int (min c (length ks - i * c))) [0..<(length ks + c - 1) div c]"
proof -
  have "int (min (i * c + c) (length ks)) - int (i * c) = int (min c (length ks - i * c))"
    if "i \<in> set [0..<(length ks + c - 1) div c]" for i
  proof -
    from that have "i * c < length ks" using assms by (simp add: chunk_start_lt)
    then have "min (i * c + c) (length ks) - i * c = min c (length ks - i * c)"
      and "i * c \<le> min (i * c + c) (length ks)"
      by (auto simp add: min_def)
    then show ?thesis by (simp only: of_nat_diff [symmetric])
  qed
  then show ?thesis
    by (simp add: metadata_b_of_nat [OF assms] chunk_entry_at_nat comp_def del: of_nat_min of_nat_mult of_nat_add)
qed

lemma count_list_facts:
  fixes c N :: nat
  assumes "0 < c"
    and "map cnt cs = map (\<lambda>i. int (min c (N - i * c))) [0..<(N + c - 1) div c]"
  shows "int (length cs) = \<lceil>real N / real_of_int (int c)\<rceil>"
    and "sum_list (map cnt cs) = int N"
    and "N = 0 \<longrightarrow> cs = []"
    and "int c dvd int N \<longrightarrow> (\<forall>x \<in> set cs. cnt x = int c)"
    and "(\<exists>k::nat. int N = int k * int c + 1) \<longrightarrow> cs \<noteq> [] \<and> cnt (last cs) = 1"
proof -
  have len: "length cs = (N + c - 1) div c"
    using arg_cong [OF assms(2), of length] by simp
  show "int (length cs) = \<lceil>real N / real_of_int (int c)\<rceil>"
    using ceil_div [of "int c" "int N"] assms(1) by (simp add: len num_chunks_nat)
  show "sum_list (map cnt cs) = int N"
    by (simp only: assms(2) counts_sum [OF assms(1)])
  show "N = 0 \<longrightarrow> cs = []"
    using len assms(1) by auto
  show "int c dvd int N \<longrightarrow> (\<forall>x \<in> set cs. cnt x = int c)"
  proof (intro impI ballI)
    fix x assume d: "int c dvd int N" and "x \<in> set cs"
    then obtain i where i: "i < length cs" "x = cs ! i" by (auto simp: in_set_conv_nth)
    then have "cnt x = map cnt cs ! i" by simp
    also have "\<dots> = int (min c (N - i * c))"
      using i(1) len by (simp only: assms(2)) (simp del: upt_Suc)
    also have "min c (N - i * c) = c"
      using assms(1) d i(1) len by (intro counts_full) simp_all
    finally show "cnt x = int c" .
  qed
  show "(\<exists>k::nat. int N = int k * int c + 1) \<longrightarrow> cs \<noteq> [] \<and> cnt (last cs) = 1"
  proof (intro impI, elim exE)
    fix k :: nat assume "int N = int k * int c + 1"
    then have N: "N = k * c + 1" by (metis of_nat_1 of_nat_add of_nat_eq_iff of_nat_mult)
    from counts_last [OF assms(1) N] len have l: "length cs = Suc k" and m: "min c (N - k * c) = 1"
      by simp_all
    then have ne: "cs \<noteq> []" by auto
    then have "cnt (last cs) = map cnt cs ! k"
      using l by (simp add: last_conv_nth)
    also have "\<dots> = int (min c (N - k * c))"
      using l len by (simp only: assms(2)) (simp del: upt_Suc)
    finally show "cs \<noteq> [] \<and> cnt (last cs) = 1" using ne m by simp
  qed
qed

text \<open>
  C3. For a positive chunk size a run without faults completes; the metadata records
  \<open>\<lceil>N / chunk_size\<rceil>\<close> chunks whose keyword counts sum to \<open>N\<close> and \<open>total_keywords = N\<close>.
  No keywords give no chunks; if \<open>chunk_size\<close> divides \<open>N\<close> every chunk is full; if \<open>N\<close> is
  one more than a multiple of \<open>chunk_size\<close> the last chunk holds one keyword. This holds
  for \<^verbatim>\<open>convert_to_binary_chunks\<close> and for \<^verbatim>\<open>main\<close> of \<^verbatim>\<open>convert-pickle-to-binary.py\<close>.
\<close>

theorem chunk_count_and_sizes:
  assumes "0 < chunk_size" "db_keywords db = Some ks" "db_embeddings db = Some e"
  shows "(\<exists>m fs'. convert_to_binary_chunks No_fault f32 db dir chunk_size fs = (Inr (), fs')
            \<and> fs' (path_join dir ''metadata.json'') = Some (Json m)
            \<and> num_chunks_a m = \<lceil>real (length ks) / real_of_int chunk_size\<rceil>
            \<and> int (length (chunks_a m)) = num_chunks_a m
            \<and> sum_list (map keyword_count_a (chunks_a m)) = int (length ks)
            \<and> total_keywords_a m = int (length ks)
            \<and> (length ks = 0 \<longrightarrow> chunks_a m = [] \<and> total_keywords_a m = 0)
            \<and> (chunk_size dvd int (length ks) \<longrightarrow> (\<forall>c \<in> set (chunks_a m). keyword_count_a c = chunk_size))
            \<and> ((\<exists>k::nat. int (length ks) = int k * chunk_size + 1) \<longrightarrow>
                  chunks_a m \<noteq> [] \<and> keyword_count_a (last (chunks_a m)) = 1))
       \<and> (fs_b ''new_keywords/vector_database.pkl'' = Some (Pickle db)
            \<and> shape e = (int (length ks), d) \<longrightarrow>
          (\<exists>m fs'. main_with chunk_size d No_fault now f32 fs_b = (Inr (), fs')
            \<and> fs' ''data/embeddings_metadata.json'' = Some (Json m)
            \<and> int (length (chunks_b m)) = \<lceil>real (length ks) / real_of_int chunk_size\<rceil>
            \<and> sum_list (map keyword_count_b (chunks_b m)) = int (length ks)
            \<and> total_keywords_b m = int (length ks)
            \<and> (length ks = 0 \<longrightarrow> chunks_b m = [] \<and> total_keywords_b m = 0)
            \<and> (chunk_size dvd int (length ks) \<longrightarrow> (\<forall>c \<in> set (chunks_b m). keyword_count_b c = chunk_size))
            \<and> ((\<exists>k::nat. int (length ks) = int k * chunk_size + 1) \<longrightarrow>
                  chunks_b m \<noteq> [] \<and> keyword_count_b (last (chunks_b m)) = 1)))"
proof -
  from assms(1) obtain c where c: "chunk_size = int c" "0 < c" by (rule pos_int_obtain)
  define ma where "ma = metadata_of ks e chunk_size"
  note fa = count_list_facts [OF c(2) counts_a [OF c(2), of ks e], folded c(1)]
  have na: "int (length (chunks_a ma)) = num_chunks_a ma"
    by (simp add: ma_def c(1) metadata_of_nat [OF c(2)])
  with fa(1) have na': "num_chunks_a ma = \<lceil>real (length ks) / real_of_int chunk_size\<rceil>"
    by (simp add: ma_def)
  have ta: "total_keywords_a ma = int (length ks)"
    "length ks = 0 \<longrightarrow> total_keywords_a ma = 0"
    by (simp_all add: ma_def metadata_of_def)
  from convert_manifest [OF assms, of f32 dir fs] obtain fs'
    where ra: "convert_to_binary_chunks No_fault f32 db dir chunk_size fs = (Inr (), fs')"
      "fs' (path_join dir ''metadata.json'') = Some (Json ma)"
    unfolding ma_def by blast
  have A: "\<exists>m fs'. convert_to_binary_chunks No_fault f32 db dir chunk_size fs = (Inr (), fs')
            \<and> fs' (path_join dir ''metadata.json'') = Some (Json m)
            \<and> num_chunks_a m = \<lceil>real (length ks) / real_of_int chunk_size\<rceil>
            \<and> int (length (chunks_a m)) = num_chunks_a m
            \<and> sum_list (map keyword_count_a (chunks_a m)) = int (length ks)
            \<and> total_keywords_a m = int (length ks)
            \<and> (length ks = 0 \<longrightarrow> chunks_a m = [] \<and> total_keywords_a m = 0)
            \<and> (chunk_size dvd int (length ks) \<longrightarrow> (\<forall>c \<in> set (chunks_a m). keyword_count_a c = chunk_size))
            \<and> ((\<exists>k::nat. int (length ks) = int k * chunk_size + 1) \<longrightarrow>
                  chunks_a m \<noteq> [] \<and> keyword_count_a (last (chunks_a m)) = 1)"
    apply (rule exI [of _ ma], rule exI [of _ fs'])
    using ra fa na na' ta unfolding ma_def by blast
  have B: "\<exists>m fs'. main_with chunk_size d No_fault now f32 fs_b = (Inr (), fs')
            \<and> fs' ''data/embeddings_metadata.json'' = Some (Json m)
            \<and> int (length (chunks_b m)) = \<lceil>real (length ks) / real_of_int chunk_size\<rceil>
            \<and> sum_list (map keyword_count_b (chunks_b m)) = int (length ks)
            \<and> total_keywords_b m = int (length ks)
            \<and> (length ks = 0 \<longrightarrow> chunks_b m = [] \<and> total_keywords_b m = 0)
            \<and> (chunk_size dvd int (length ks) \<longrightarrow> (\<forall>c \<in> set (chunks_b m). keyword_count_b c = chunk_size))
            \<and> ((\<exists>k::nat. int (length ks) = int k * chunk_size + 1) \<longrightarrow>
                  chunks_b m \<noteq> [] \<and> keyword_count_b (last (chunks_b m)) = 1)"
    if b: "fs_b ''new_keywords/vector_database.pkl'' = Some (Pickle db) \<and> shape e = (int (length ks), d)"
  proof -
    define mb where "mb = metadata_b_of ks chunk_size d now"
    note fb = count_list_facts [OF c(2) counts_b [OF c(2), of ks d now], folded c(1)]
    have tb: "total_keywords_b mb = int (length ks)"
      "length ks = 0 \<longrightarrow> total_keywords_b mb = 0"
      by (simp_all add: mb_def metadata_b_of_def)
    from main_with_manifest [of fs_b db ks e d chunk_size now f32] b assms obtain fs'
      where rb: "main_with chunk_size d No_fault now f32 fs_b = (Inr (), fs')"
        "fs' ''data/embeddings_metadata.json'' = Some (Json mb)"
      unfolding mb_def by blast
    show ?thesis
      apply (rule exI [of _ mb], rule exI [of _ fs'])
      using rb fb tb unfolding mb_def by blast
  qed
  from A B show ?thesis by blast
qed

text \<open>
  C3 on the scenario of the specification with chunk size 2 (three keywords, one more than
  a multiple of 2), with chunk size 3 (which divides 3), and on a database without
  keywords.
\<close>

theorem chunk_count_and_sizes_witness:
  "(\<exists>m fs'. convert_to_binary_chunks No_fault id scenario ''out'' 2 Map.empty = (Inr (), fs')
      \<and> fs' (path_join ''out'' ''metadata.json'') = Some (Json m)
      \<and> num_chunks_a m = \<lceil>real (length [''a'', ''b'', ''c'']) / real_of_int 2\<rceil>
      \<and> int (length (chunks_a m)) = num_chunks_a m
      \<and> sum_list (map keyword_count_a (chunks_a m)) = int (length [''a'', ''b'', ''c''])
      \<and> total_keywords_a m = int (length [''a'', ''b'', ''c''])
      \<and> chunks_a m \<noteq> [] \<and> keyword_count_a (last (chunks_a m)) = 1)
   \<and> (\<exists>m fs'. main_with 2 2 No_fault ''t'' id scenario_fs = (Inr (), fs')
      \<and> fs' ''data/embeddings_metadata.json'' = Some (Json m)
      \<and> int (length (chunks_b m)) = \<lceil>real (length [''a'', ''b'', ''c'']) / real_of_int 2\<rceil>
      \<and> sum_list (map keyword_count_b (chunks_b m)) = int (length [''a'', ''b'', ''c''])
      \<and> total_keywords_b m = int (length [''a'', ''b'', ''c''])
      \<and> chunks_b m \<noteq> [] \<and> keyword_count_b (last (chunks_b m)) = 1)
   \<and> (\<exists>m fs'. convert_to_binary_chunks No_fault id scenario ''out'' 3 Map.empty = (Inr (), fs')
      \<and> fs' (path_join ''out'' ''metadata.json'') = Some (Json m)
      \<and> (\<forall>c \<in> set (chunks_a m). keyword_count_a c = 3))
   \<and> (\<exists>m fs'. convert_to_binary_chunks No_fault id
        \<lparr>db_keywords = Some [], db_embeddings = Some \<lparr>rows = [] :: float32 list list, ncols = 2\<rparr>\<rparr>
        ''out'' 2 Map.empty = (Inr (), fs')
      \<and> fs' (path_join ''out'' ''metadata.json'') = Some (Json m)
      \<and> chunks_a m = [] \<and> total_keywords_a m = 0)"
proof -
  have h2: "db_keywords scenario = Some [''a'', ''b'', ''c'']" by (simp add: scenario_def)
  have h3: "db_embeddings scenario = Some \<lparr>rows = [[1, 2], [3, 4], [5, 6]], ncols = 2\<rparr>"
    by (simp add: scenario_def)
  have h4: "scenario_fs ''new_keywords/vector_database.pkl'' = Some (Pickle scenario)
      \<and> shape \<lparr>rows = [[1, 2], [3, 4], [5, 6 :: float32]], ncols = 2\<rparr> = (int (length [''a'', ''b'', ''c'']), 2)"
    by (simp add: scenario_fs_def shape_def)
  have hk: "\<exists>k::nat. int (length [''a'', ''b'', ''c'']) = int k * 2 + 1"
    by (rule exI [of _ 1]) simp
  have hd: "(3::int) dvd int (length [''a'', ''b'', ''c''])" by simp
  have h0: "length ([] :: string list) = 0" by simp
  have p2: "(0::int) < 2" and p3: "(0::int) < 3" by simp_all
  from chunk_count_and_sizes [OF p2 h2 h3, of id "''out''" Map.empty scenario_fs 2 "''t''"] h4 hk
  have A: "(\<exists>m fs'. convert_to_binary_chunks No_fault id scenario ''out'' 2 Map.empty = (Inr (), fs')
      \<and> fs' (path_join ''out'' ''metadata.json'') = Some (Json m)
      \<and> num_chunks_a m = \<lceil>real (length [''a'', ''b'', ''c'']) / real_of_int 2\<rceil>
      \<and> int (length (chunks_a m)) = num_chunks_a m
      \<and> sum_list (map keyword_count_a (chunks_a m)) = int (length [''a'', ''b'', ''c''])
      \<and> total_keywords_a m = int (length [''a'', ''b'', ''c''])
      \<and> chunks_a m \<noteq> [] \<and> keyword_count_a (last (chunks_a m)) = 1)
   \<and> (\<exists>m fs'. main_with 2 2 No_fault ''t'' id scenario_fs = (Inr (), fs')
      \<and> fs' ''data/embeddings_metadata.json'' = Some (Json m)
      \<and> int (length (chunks_b m)) = \<lceil>real (length [''a'', ''b'', ''c'']) / real_of_int 2\<rceil>
      \<and> sum_list (map keyword_count_b (chunks_b m)) = int (length [''a'', ''b'', ''c''])
      \<and> total_keywords_b m = int (length [''a'', ''b'', ''c''])
      \<and> chunks_b m \<noteq> [] \<and> keyword_count_b (last (chunks_b m)) = 1)"
    by blast
  from chunk_count_and_sizes [OF p3 h2 h3, of id "''out''" Map.empty scenario_fs 2 "''t''"] hd
  have B: "\<exists>m fs'. convert_to_binary_chunks No_fault id scenario ''out'' 3 Map.empty = (Inr (), fs')
      \<and> fs' (path_join ''out'' ''metadata.json'') = Some (Json m)
      \<and> (\<forall>c \<in> set (chunks_a m). keyword_count_a c = 3)"
    by blast
  from chunk_count_and_sizes [OF p2, of
      "\<lparr>db_keywords = Some [], db_embeddings = Some \<lparr>rows = [] :: float32 list list, ncols = 2\<rparr>\<rparr>"
      "[]" "\<lparr>rows = [] :: float32 list list, ncols = 2\<rparr>" id "''out''" Map.empty scenario_fs 2 "''t''"] h0
  have C: "\<exists>m fs'. convert_to_binary_chunks No_fault id
        \<lparr>db_keywords = Some [], db_embeddings = Some \<lparr>rows = [] :: float32 list list, ncols = 2\<rparr>\<rparr>
        ''out'' 2 Map.empty = (Inr (), fs')
      \<and> fs' (path_join ''out'' ''metadata.json'') = Some (Json m)
      \<and> chunks_a m = [] \<and> total_keywords_a m = 0"
    by (simp del: of_nat_eq_0_iff) blast
  from A B C show ?thesis by blast
qed

subsection \<open>Keyword order\<close>

lemma map_nth_chunk:
  "map (\<lambda>j. xs ! (a + j)) [0..<min (a + c) (length xs) - a] = take c (drop a xs)"
proof (rule nth_equalityI)
  show "length (map (\<lambda>j. xs ! (a + j)) [0..<min (a + c) (length xs) - a]) = length (take c (drop a xs))"
    by (auto simp: min_def)
next
  fix j assume "j < length (map (\<lambda>j. xs ! (a + j)) [0..<min (a + c) (length xs) - a])"
  then have "j < min (a + c) (length xs) - a" by simp
  then have "j < c" "a + j < length xs" by (auto simp: min_def split: if_splits)
  then show "map (\<lambda>j. xs ! (a + j)) [0..<min (a + c) (length xs) - a] ! j = take c (drop a xs) ! j"
    using \<open>j < min (a + c) (length xs) - a\<close> by simp
qed

lemma take_min_drop: "take (min (length xs - a) c) (drop a xs) = take c (drop a xs)"
  by (simp add: min_def)

lemma keywords_a_concat:
  assumes "0 < c"
  shows "concat (map keywords_a (chunks_a (metadata_of ks e (int c)))) = ks"
  using concat_chunks_all [OF assms, of ks]
  by (simp add: metadata_of_nat [OF assms] chunk_info_at_nat comp_def)

lemma chunk_ids_a:
  assumes "0 < c"
  shows "map chunk_id_a (chunks_a (metadata_of ks e (int c)))
       = map int [0..<length (chunks_a (metadata_of ks e (int c)))]"
  by (simp add: metadata_of_nat [OF assms] chunk_info_at_nat comp_def)

lemma chunk_keywords_a:
  assumes "0 < c" "x \<in> set (chunks_a (metadata_of ks e (int c)))"
  shows "keywords_a x = take (nat (keyword_count_a x)) (drop (nat (start_index_a x)) ks)"
  using assms(2)
  by (auto simp add: metadata_of_nat [OF assms(1)] chunk_info_at_nat take_min_drop simp del: of_nat_mult)

lemma chunk_ids_b:
  assumes "0 < c"
  shows "map chunk_id_b (chunks_b (metadata_b_of ks (int c) d now))
       = map int [0..<length (chunks_b (metadata_b_of ks (int c) d now))]"
  by (simp add: metadata_b_of_nat [OF assms] chunk_entry_at_nat comp_def)

lemma keyword_index_by_chunk:
  assumes "0 < c"
  shows "keywords_b (metadata_b_of ks (int c) d now) =
     concat (map (\<lambda>x. map (\<lambda>j. \<lparr>keyword_e = ks ! (nat (start_index_b x) + j),
                                  chunk_id_e = chunk_id_b x,
                                  local_index_e = int j\<rparr>)
                          [0..<nat (keyword_count_b x)])
                 (chunks_b (metadata_b_of ks (int c) d now)))"
  by (simp add: metadata_b_of_nat [OF assms] chunk_entry_at_nat keyword_entries_at_nat comp_def
        nat_int_diff del: of_nat_mult of_nat_min of_nat_add)

lemma keyword_index_keywords:
  assumes "0 < c"
  shows "map keyword_e (keywords_b (metadata_b_of ks (int c) d now)) = ks"
proof -
  have "map keyword_e (keywords_b (metadata_b_of ks (int c) d now))
      = concat (map (\<lambda>i. map (\<lambda>j. ks ! (i * c + j)) [0..<min (i * c + c) (length ks) - i * c])
                  [0..<(length ks + c - 1) div c])"
    by (simp add: metadata_b_of_nat [OF assms] keyword_entries_at_nat map_concat comp_def)
  also have "\<dots> = concat (map (\<lambda>i. take c (drop (i * c) ks)) [0..<(length ks + c - 1) div c])"
    by (simp only: map_nth_chunk)
  also have "\<dots> = ks" using assms by (rule concat_chunks_all)
  finally show ?thesis .
qed

text \<open>
  C4. For a positive chunk size a run without faults completes and its metadata lists the
  chunk records in ascending \<open>chunk_id\<close> order \<open>0, 1, \<dots>\<close>. In
  \<^verbatim>\<open>convert_to_binary_chunks\<close> the keyword list of a chunk is the contiguous run of the
  input keywords that starts at its \<open>start_index\<close>, and the keyword lists of all chunks,
  concatenated in that order, are the input keywords. In \<^verbatim>\<open>main\<close> of
  \<^verbatim>\<open>convert-pickle-to-binary.py\<close> the keyword index is, chunk after chunk in that order,
  the entries of the chunk by ascending local index, the entry at local index \<open>j\<close> holding
  the input keyword at position \<open>start_index + j\<close>; the keywords of the index, in order,
  are the input keywords.
\<close>

theorem keyword_order_preserved:
  assumes "0 < chunk_size" "db_keywords db = Some ks" "db_embeddings db = Some e"
  shows "(\<exists>m fs'. convert_to_binary_chunks No_fault f32 db dir chunk_size fs = (Inr (), fs')
            \<and> fs' (path_join dir ''metadata.json'') = Some (Json m)
            \<and> map chunk_id_a (chunks_a m) = map int [0..<length (chunks_a m)]
            \<and> (\<forall>c \<in> set (chunks_a m).
                  keywords_a c = take (nat (keyword_count_a c)) (drop (nat (start_index_a c)) ks))
            \<and> concat (map keywords_a (chunks_a m)) = ks)
       \<and> (fs_b ''new_keywords/vector_database.pkl'' = Some (Pickle db)
            \<and> shape e = (int (length ks), d) \<longrightarrow>
          (\<exists>m fs'. main_with chunk_size d No_fault now f32 fs_b = (Inr (), fs')
            \<and> fs' ''data/embeddings_metadata.json'' = Some (Json m)
            \<and> map chunk_id_b (chunks_b m) = map int [0..<length (chunks_b m)]
            \<and> keywords_b m =
                concat (map (\<lambda>c. map (\<lambda>j. \<lparr>keyword_e = ks ! (nat (start_index_b c) + j),
                                             chunk_id_e = chunk_id_b c,
                                             local_index_e = int j\<rparr>)
                                     [0..<nat (keyword_count_b c)])
                            (chunks_b m))
            \<and> map keyword_e (keywords_b m) = ks))"
proof -
  from assms(1) obtain c where c: "chunk_size = int c" "0 < c" by (rule pos_int_obtain)
  from convert_manifest [OF assms, of f32 dir fs] obtain fs'
    where ra: "convert_to_binary_chunks No_fault f32 db dir chunk_size fs = (Inr (), fs')"
      "fs' (path_join dir ''metadata.json'') = Some (Json (metadata_of ks e chunk_size))"
    by blast
  have A: "\<exists>m fs'. convert_to_binary_chunks No_fault f32 db dir chunk_size fs = (Inr (), fs')
            \<and> fs' (path_join dir ''metadata.json'') = Some (Json m)
            \<and> map chunk_id_a (chunks_a m) = map int [0..<length (chunks_a m)]
            \<and> (\<forall>c \<in> set (chunks_a m).
                  keywords_a c = take (nat (keyword_count_a c)) (drop (nat (start_index_a c)) ks))
            \<and> concat (map keywords_a (chunks_a m)) = ks"
    using ra chunk_ids_a [OF c(2), of ks e] chunk_keywords_a [OF c(2), of _ ks e]
      keywords_a_concat [OF c(2), of ks e]
    unfolding c(1) by blast
  have B: "\<exists>m fs'. main_with chunk_size d No_fault now f32 fs_b = (Inr (), fs')
            \<and> fs' ''data/embeddings_metadata.json'' = Some (Json m)
            \<and> map chunk_id_b (chunks_b m) = map int [0..<length (chunks_b m)]
            \<and> keywords_b m =
                concat (map (\<lambda>c. map (\<lambda>j. \<lparr>keyword_e = ks ! (nat (start_index_b c) + j),
                                             chunk_id_e = chunk_id_b c,
                                             local_index_e = int j\<rparr>)
                                     [0..<nat (keyword_count_b c)])
                            (chunks_b m))
            \<and> map keyword_e (keywords_b m) = ks"
    if b: "fs_b ''new_keywords/vector_database.pkl'' = Some (Pickle db) \<and> shape e = (int (length ks), d)"
  proof -
    from main_with_manifest [of fs_b db ks e d chunk_size now f32] b assms obtain fs'
      where rb: "main_with chunk_size d No_fault now f32 fs_b = (Inr (), fs')"
        "fs' ''data/embeddings_metadata.json'' = Some (Json (metadata_b_of ks chunk_size d now))"
      by blast
    show ?thesis
      using rb chunk_ids_b [OF c(2), of ks d now] keyword_index_by_chunk [OF c(2), of ks d now]
        keyword_index_keywords [OF c(2), of ks d now]
      unfolding c(1) by blast
  qed
  from A B show ?thesis by blast
qed

text \<open>C4 on the scenario of the specification, for both scripts.\<close>

theorem keyword_order_preserved_witness:
  "(\<exists>m fs'. convert_to_binary_chunks No_fault id scenario ''out'' 2 Map.empty = (Inr (), fs')
            \<and> fs' (path_join ''out'' ''metadata.json'') = Some (Json m)
            \<and> map chunk_id_a (chunks_a m) = map int [0..<length (chunks_a m)]
            \<and> (\<forall>c \<in> set (chunks_a m).
                  keywords_a c = take (nat (keyword_count_a c)) (drop (nat (start_index_a c)) [''a'', ''b'', ''c'']))
            \<and> concat (map keywords_a (chunks_a m)) = [''a'', ''b'', ''c''])
   \<and> (\<exists>m fs'. main_with 2 2 No_fault ''t'' id scenario_fs = (Inr (), fs')
            \<and> fs' ''data/embeddings_metadata.json'' = Some (Json m)
            \<and> map chunk_id_b (chunks_b m) = map int [0..<length (chunks_b m)]
            \<and> keywords_b m =
                concat (map (\<lambda>c. map (\<lambda>j. \<lparr>keyword_e = [''a'', ''b'', ''c''] ! (nat (start_index_b c) + j),
                                             chunk_id_e = chunk_id_b c,
                                             local_index_e = int j\<rparr>)
                                     [0..<nat (keyword_count_b c)])
                            (chunks_b m))
            \<and> map keyword_e (keywords_b m) = [''a'', ''b'', ''c''])"
proof -
  have h1: "(0::int) < 2" by simp
  have h2: "db_keywords scenario = Some [''a'', ''b'', ''c'']" by (simp add: scenario_def)
  have h3: "db_embeddings scenario = Some \<lparr>rows = [[1, 2], [3, 4], [5, 6]], ncols = 2\<rparr>"
    by (simp add: scenario_def)
  have h4: "scenario_fs ''new_keywords/vector_database.pkl'' = Some (Pickle scenario)
      \<and> shape \<lparr>rows = [[1, 2], [3, 4], [5, 6 :: float32]], ncols = 2\<rparr> = (int (length [''a'', ''b'', ''c'']), 2)"
    by (simp add: scenario_fs_def shape_def)
  from keyword_order_preserved [OF h1 h2 h3, of id "''out''" Map.empty scenario_fs 2 "''t''"] h4
  show ?thesis by blast
qed

subsection \<open>The chunk files of a run without faults\<close>

lemma convert_files:
  assumes "0 < c" "db_keywords db = Some ks" "db_embeddings db = Some e"
  shows "\<exists>fs'. convert_to_binary_chunks No_fault f32 db dir (int c) fs = (Inr (), fs')
           \<and> fs' (path_join dir ''metadata.json'') = Some (Json (metadata_of ks e (int c)))
           \<and> (\<forall>i < (length ks + c - 1) div c.
                 fs' (path_join dir (chunk_filename (int i))) = Some (Bin (chunk_data f32 ks e (int c) (int i))))"
proof -
  let ?W = "chunks_written (\<lambda>idx. path_join dir (chunk_filename idx)) (chunk_data f32 ks e (int c))
         ((int (length ks) + int c - 1) div int c) fs"
  have run: "convert_to_binary_chunks No_fault f32 db dir (int c) fs =
      (Inr (), ?W(path_join dir ''metadata.json'' \<mapsto> Json (metadata_of ks e (int c))))"
    using assms by (intro convert_No_fault) simp_all
  have "?W (path_join dir (chunk_filename (int i))) = Some (Bin (chunk_data f32 ks e (int c) (int i)))"
    if "i < (length ks + c - 1) div c" for i
  proof (rule chunks_written_same)
    show "int i < (int (length ks) + int c - 1) div int c"
      using that by (simp only: num_chunks_nat [OF assms(1)] of_nat_less_iff)
  qed (simp_all add: chunk_path_inj)
  then have "\<forall>i < (length ks + c - 1) div c.
      (?W(path_join dir ''metadata.json'' \<mapsto> Json (metadata_of ks e (int c))))
        (path_join dir (chunk_filename (int i))) = Some (Bin (chunk_data f32 ks e (int c) (int i)))"
    by (simp add: chunk_path_not_metadata)
  with run show ?thesis by simp
qed

lemma chunk_path_b_inj:
  "0 \<le> i \<Longrightarrow> 0 \<le> j \<Longrightarrow>
   ''data/embeddings_chunks/'' @ chunk_filename_b i = ''data/embeddings_chunks/'' @ chunk_filename_b j \<Longrightarrow> i = j"
  by (simp add: chunk_filename_b_inj)

lemma main_with_files:
  assumes "fs ''new_keywords/vector_database.pkl'' = Some (Pickle db)"
    and "db_keywords db = Some ks" "db_embeddings db = Some e"
    and "shape e = (int (length ks), d)" "0 < c"
  shows "\<exists>fs'. main_with (int c) d No_fault now f32 fs = (Inr (), fs')
           \<and> fs' ''data/embeddings_metadata.json'' = Some (Json (metadata_b_of ks (int c) d now))
           \<and> (\<forall>i < (length ks + c - 1) div c.
                 fs' (''data/embeddings_chunks/'' @ chunk_filename_b (int i))
                   = Some (Bin (chunk_data f32 ks e (int c) (int i))))"
proof -
  let ?W = "chunks_written (\<lambda>idx. ''data/embeddings_chunks/'' @ chunk_filename_b idx)
         (chunk_data f32 ks e (int c)) ((int (length ks) + int c - 1) div int c) fs"
  have run: "main_with (int c) d No_fault now f32 fs =
      (Inr (), ?W(''data/embeddings_metadata.json'' \<mapsto> Json (metadata_b_of ks (int c) d now)))"
    using assms by (intro main_with_No_fault) simp_all
  have "?W (''data/embeddings_chunks/'' @ chunk_filename_b (int i))
      = Some (Bin (chunk_data f32 ks e (int c) (int i)))"
    if "i < (length ks + c - 1) div c" for i
  proof (rule chunks_written_same)
    show "int i < (int (length ks) + int c - 1) div int c"
      using that by (simp only: num_chunks_nat [OF assms(5)] of_nat_less_iff)
  qed (simp_all add: chunk_filename_b_inj)
  then have "\<forall>i < (length ks + c - 1) div c.
      (?W(''data/embeddings_metadata.json'' \<mapsto> Json (metadata_b_of ks (int c) d now)))
        (''data/embeddings_chunks/'' @ chunk_filename_b (int i))
      = Some (Bin (chunk_data f32 ks e (int c) (int i)))"
    by simp
  with run show ?thesis by simp
qed

subsection \<open>Bytes of a chunk\<close>

lemma well_shaped_chunk:
  assumes "well_shaped e"
  shows "list_all (\<lambda>r. length r = ncols e) (map (map f32) (take c (drop a (rows e))))"
proof -
  have "\<forall>r \<in> set (rows e). length r = ncols e"
    using assms by (simp add: well_shaped_def list_all_iff)
  then have "\<forall>r \<in> set (take c (drop a (rows e))). length r = ncols e"
    by (meson in_set_dropD in_set_takeD)
  then show ?thesis by (simp add: list_all_iff)
qed

lemma length_chunk_bytes:
  assumes "list_all (\<lambda>r. length r = d) rs"
  shows "length (concat (map float32_le (concat rs))) = length rs * d * 4"
  by (simp add: length_float32_bytes length_concat_rows [OF assms])

lemma read_chunk_written:
  assumes "fs p = Some (Bin (concat (map float32_le (concat rs))))"
    and "list_all (\<lambda>r. length r = d) rs"
  shows "read_chunk fs p (length rs) d = Some rs"
proof -
  have "frombuffer (concat (map float32_le (concat rs))) = concat rs"
    using frombuffer_tobytes [of "concat rs" "[]"] by simp
  then show ?thesis
    by (simp add: read_chunk_def assms(1) length_chunk_bytes [OF assms(2)] reshape_concat [OF assms(2)])
qed

lemma read_all_Some:
  "read_all (map (\<lambda>i. Some (f i)) is) = Some (concat (map f is))"
  by (induction "is") simp_all

lemma chunk_rows_nat:
  assumes "length rs = length ks"
  shows "take (length (take c (drop a ks))) (drop a rs) = take c (drop a rs)"
  using take_min_drop [of rs a c] assms by simp

subsection \<open>Reading the chunks back\<close>

lemma read_chunks_back:
  assumes "0 < c" "length (rows e) = length ks" "well_shaped e"
    and "\<forall>i < (length ks + c - 1) div c.
           fs' (path i) = Some (Bin (chunk_data f32 ks e (int c) (int i)))"
  shows "read_all (map (\<lambda>i. read_chunk fs' (path i) (length (take c (drop (i * c) ks))) (ncols e))
                    [0..<(length ks + c - 1) div c])
         = Some (map (map f32) (rows e))"
proof -
  have one: "read_chunk fs' (path i) (length (take c (drop (i * c) ks))) (ncols e)
      = Some (map (map f32) (take c (drop (i * c) (rows e))))"
    if "i \<in> set [0..<(length ks + c - 1) div c]" for i
  proof -
    let ?rs = "map (map f32) (take c (drop (i * c) (rows e)))"
    from that assms(4) have "fs' (path i) = Some (Bin (concat (map float32_le (concat ?rs))))"
      by (simp add: chunk_data_nat [OF assms(2)])
    then have "read_chunk fs' (path i) (length ?rs) (ncols e) = Some ?rs"
      using well_shaped_chunk [OF assms(3)] by (rule read_chunk_written)
    moreover have "length ?rs = length (take c (drop (i * c) ks))"
      using assms(2) by simp
    ultimately show ?thesis by (simp only:)
  qed
  have "map (\<lambda>i. read_chunk fs' (path i) (length (take c (drop (i * c) ks))) (ncols e))
          [0..<(length ks + c - 1) div c]
      = map (\<lambda>i. Some (map (map f32) (take c (drop (i * c) (rows e))))) [0..<(length ks + c - 1) div c]"
    using one by (rule map_cong [OF refl])
  then have "read_all (map (\<lambda>i. read_chunk fs' (path i) (length (take c (drop (i * c) ks))) (ncols e))
          [0..<(length ks + c - 1) div c])
      = Some (concat (map (\<lambda>i. map (map f32) (take c (drop (i * c) (rows e))))
          [0..<(length ks + c - 1) div c]))"
    by (simp only: read_all_Some)
  also have "concat (map (\<lambda>i. map (map f32) (take c (drop (i * c) (rows e))))
          [0..<(length ks + c - 1) div c])
      = map (map f32) (concat (map (\<lambda>i. take c (drop (i * c) (rows e)))
          [0..<(length (rows e) + c - 1) div c]))"
    by (simp add: map_concat comp_def assms(2))
  also have "\<dots> = map (map f32) (rows e)"
    using assms(1) by (simp only: concat_chunks_all)
  finally show ?thesis .
qed

lemma read_back_a:
  assumes "0 < c" "length (rows e) = length ks" "well_shaped e"
    and "fs' (path_join dir ''metadata.json'') = Some (Json (metadata_of ks e (int c)))"
    and "\<forall>i < (length ks + c - 1) div c.
           fs' (path_join dir (chunk_filename (int i))) = Some (Bin (chunk_data f32 ks e (int c) (int i)))"
  shows "read_back fs' dir = Some (map (map f32) (rows e))"
proof -
  have "read_back fs' dir =
      read_all (map (\<lambda>i. read_chunk fs' (path_join dir (chunk_filename (int i)))
                             (length (take c (drop (i * c) ks))) (ncols e))
                    [0..<(length ks + c - 1) div c])"
    by (simp add: read_back_def assms(4) metadata_of_nat [OF assms(1)] chunk_info_at_nat comp_def
          del: length_take)
  also have "\<dots> = Some (map (map f32) (rows e))"
    using assms(1,2,3,5) by (rule read_chunks_back)
  finally show ?thesis .
qed

lemma read_back_b_ok:
  assumes "0 < c" "length (rows e) = length ks" "well_shaped e" "d = int (ncols e)"
    and "fs' ''data/embeddings_metadata.json'' = Some (Json (metadata_b_of ks (int c) d now))"
    and "\<forall>i < (length ks + c - 1) div c.
           fs' (''data/embeddings_chunks/'' @ chunk_filename_b (int i))
             = Some (Bin (chunk_data f32 ks e (int c) (int i)))"
  shows "read_back_b fs' = Some (map (map f32) (rows e))"
proof -
  have cnt: "nat (int (min (i * c + c) (length ks)) - int (i * c)) = length (take c (drop (i * c) ks))" for i
    by (simp only: nat_int_diff) (auto simp: min_def)
  have "read_back_b fs' =
      read_all (map (\<lambda>i. read_chunk fs' (''data/embeddings_chunks/'' @ chunk_filename_b (int i))
                             (length (take c (drop (i * c) ks))) (ncols e))
                    [0..<(length ks + c - 1) div c])"
    by (simp add: read_back_b_def assms(4,5) metadata_b_of_nat [OF assms(1)] chunk_entry_at_nat
          comp_def cnt del: length_take of_nat_min of_nat_mult of_nat_add)
  also have "\<dots> = Some (map (map f32) (rows e))"
    using assms(1,2,3,6) by (rule read_chunks_back)
  finally show ?thesis .
qed

text \<open>
  C1. For a positive chunk size and an \<open>N \<times> D\<close> matrix for \<open>N\<close> keywords, a run without
  faults completes, and reading the chunk files back in the order of the metadata, every
  file as 4-byte little-endian values in rows of \<open>D\<close>, gives the rows of the input
  matrix, converted to float32, in their order.
\<close>

theorem export_round_trip:
  assumes "0 < chunk_size" "db_keywords db = Some ks" "db_embeddings db = Some e"
    and "length (rows e) = length ks" "well_shaped e"
  shows "(\<exists>fs'. convert_to_binary_chunks No_fault f32 db dir chunk_size fs = (Inr (), fs')
            \<and> read_back fs' dir = Some (map (map f32) (rows e)))
       \<and> (fs_b ''new_keywords/vector_database.pkl'' = Some (Pickle db)
            \<and> shape e = (int (length ks), d) \<longrightarrow>
          (\<exists>fs'. main_with chunk_size d No_fault now f32 fs_b = (Inr (), fs')
            \<and> read_back_b fs' = Some (map (map f32) (rows e))))"
proof -
  from assms(1) obtain c where c: "chunk_size = int c" "0 < c" by (rule pos_int_obtain)
  from convert_files [OF c(2) assms(2,3), of f32 dir fs] obtain fs'
    where ra: "convert_to_binary_chunks No_fault f32 db dir chunk_size fs = (Inr (), fs')"
      and ma: "fs' (path_join dir ''metadata.json'') = Some (Json (metadata_of ks e (int c)))"
      and fa: "\<forall>i < (length ks + c - 1) div c.
         fs' (path_join dir (chunk_filename (int i))) = Some (Bin (chunk_data f32 ks e (int c) (int i)))"
    unfolding c(1) by blast
  from read_back_a [OF c(2) assms(4,5) ma fa] ra
  have A: "(\<exists>fs'. convert_to_binary_chunks No_fault f32 db dir chunk_size fs = (Inr (), fs')
            \<and> read_back fs' dir = Some (map (map f32) (rows e)))"
    by blast
  have B: "(\<exists>fs'. main_with chunk_size d No_fault now f32 fs_b = (Inr (), fs')
            \<and> read_back_b fs' = Some (map (map f32) (rows e)))"
    if b: "fs_b ''new_keywords/vector_database.pkl'' = Some (Pickle db)
            \<and> shape e = (int (length ks), d)"
  proof -
    from main_with_files [of fs_b db ks e d c now f32] b assms(2,3) c(2) obtain fs'
      where rb: "main_with chunk_size d No_fault now f32 fs_b = (Inr (), fs')"
        and mb: "fs' ''data/embeddings_metadata.json'' = Some (Json (metadata_b_of ks (int c) d now))"
        and fb: "\<forall>i < (length ks + c - 1) div c.
           fs' (''data/embeddings_chunks/'' @ chunk_filename_b (int i))
             = Some (Bin (chunk_data f32 ks e (int c) (int i)))"
      unfolding c(1) by blast
    have d: "d = int (ncols e)" using b by (simp add: shape_def)
    from read_back_b_ok [OF c(2) assms(4,5) d mb fb] rb show ?thesis by blast
  qed
  from A B show ?thesis by blast
qed

text \<open>C1 on the scenario of the specification, for both scripts.\<close>

theorem export_round_trip_witness:
  "(\<exists>fs'. convert_to_binary_chunks No_fault id scenario ''out'' 2 Map.empty = (Inr (), fs')
            \<and> read_back fs' ''out'' = Some (map (map id) (rows \<lparr>rows = [[1, 2], [3, 4], [5, 6 :: float32]], ncols = 2\<rparr>)))
   \<and> (\<exists>fs'. main_with 2 2 No_fault ''t'' id scenario_fs = (Inr (), fs')
            \<and> read_back_b fs' = Some (map (map id) (rows \<lparr>rows = [[1, 2], [3, 4], [5, 6 :: float32]], ncols = 2\<rparr>)))"
proof -
  have h1: "(0::int) < 2" by simp
  have h2: "db_keywords scenario = Some [''a'', ''b'', ''c'']" by (simp add: scenario_def)
  have h3: "db_embeddings scenario = Some \<lparr>rows = [[1, 2], [3, 4], [5, 6 :: float32]], ncols = 2\<rparr>"
    by (simp add: scenario_def)
  have h4: "length (rows \<lparr>rows = [[1, 2], [3, 4], [5, 6 :: float32]], ncols = 2\<rparr>) = length [''a'', ''b'', ''c'']" by simp
  have h5: "well_shaped \<lparr>rows = [[1, 2], [3, 4], [5, 6 :: float32]], ncols = 2\<rparr>" by (simp add: well_shaped_def)
  have h6: "scenario_fs ''new_keywords/vector_database.pkl'' = Some (Pickle scenario)
      \<and> shape \<lparr>rows = [[1, 2], [3, 4], [5, 6 :: float32]], ncols = 2\<rparr> = (int (length [''a'', ''b'', ''c'']), 2)"
    by (simp add: scenario_fs_def shape_def)
  from export_round_trip [OF h1 h2 h3 h4 h5, of id "''out''" Map.empty scenario_fs 2 "''t''"] h6
  show ?thesis by blast
qed

subsection \<open>The flat keyword index\<close>

lemma upt_chunk:
  "map (\<lambda>j. a + j) [0..<min (a + c) N - a] = take c (drop a [0..<N])"
proof -
  have "map (\<lambda>j. [0..<N] ! (a + j)) [0..<min (a + c) (length [0..<N]) - a] = take c (drop a [0..<N])"
    by (rule map_nth_chunk)
  moreover have "map (\<lambda>j. [0..<N] ! (a + j)) [0..<min (a + c) N - a] = map (\<lambda>j. a + j) [0..<min (a + c) N - a]"
    by (rule map_cong [OF refl]) (auto simp: min_def split: if_splits)
  ultimately show ?thesis by simp
qed

lemma keyword_index_flat:
  assumes "0 < c"
  shows "keywords_b (metadata_b_of ks (int c) d now) =
     map (\<lambda>g. \<lparr>keyword_e = ks ! g, chunk_id_e = int (g div c), local_index_e = int (g mod c)\<rparr>)
       [0..<length ks]"
proof -
  let ?F = "\<lambda>g. \<lparr>keyword_e = ks ! g, chunk_id_e = int (g div c), local_index_e = int (g mod c)\<rparr>"
  have one: "keyword_entries_at ks (int c) (int i) = map ?F (take c (drop (i * c) [0..<length ks]))" for i
  proof -
    have "keyword_entries_at ks (int c) (int i)
        = map (\<lambda>j. ?F (i * c + j)) [0..<min (i * c + c) (length ks) - i * c]"
      unfolding keyword_entries_at_nat
    proof (rule map_cong [OF refl])
      fix j assume "j \<in> set [0..<min (i * c + c) (length ks) - i * c]"
      then have "j < c" by (auto simp: min_def split: if_splits)
      then show "\<lparr>keyword_e = ks ! (i * c + j), chunk_id_e = int i, local_index_e = int j\<rparr> = ?F (i * c + j)"
        by simp
    qed
    also have "\<dots> = map ?F (map (\<lambda>j. i * c + j) [0..<min (i * c + c) (length ks) - i * c])"
      by (simp add: comp_def)
    finally show ?thesis by (simp only: upt_chunk)
  qed
  have "keywords_b (metadata_b_of ks (int c) d now)
      = concat (map (\<lambda>i. map ?F (take c (drop (i * c) [0..<length ks]))) [0..<(length ks + c - 1) div c])"
    by (simp add: metadata_b_of_nat [OF assms] one)
  also have "\<dots> = map ?F (concat (map (\<lambda>i. take c (drop (i * c) [0..<length ks]))
      [0..<(length [0..<length ks] + c - 1) div c]))"
    by (simp add: map_concat comp_def)
  also have "\<dots> = map ?F [0..<length ks]"
    using assms by (simp only: concat_chunks_all)
  finally show ?thesis .
qed

lemma chunk_of_position:
  fixes c N g :: nat
  assumes "0 < c" "g < N"
  shows "g div c < (N + c - 1) div c"
proof -
  have "g < ((N + c - 1) div c) * c"
    using assms(2) num_chunks_cover [OF assms(1), of N] by simp
  then show ?thesis by (simp add: div_less_iff_less_mult assms(1))
qed

lemma local_of_position:
  fixes c N g :: nat
  assumes "0 < c" "g < N"
  shows "g mod c < min (g div c * c + c) N - g div c * c"
proof -
  define q r where "q = g div c" and "r = g mod c"
  have "q * c + r = g" by (simp add: q_def r_def)
  moreover have "r < c" using assms(1) by (simp add: r_def)
  ultimately have "r < min (q * c + c) N - q * c" using assms(2) by (auto simp: min_def)
  then show ?thesis by (simp only: q_def r_def)
qed

text \<open>
  C10. In \<^verbatim>\<open>main\<close> of \<^verbatim>\<open>convert-pickle-to-binary.py\<close>, for a positive chunk size and an
  \<open>N \<times> D\<close> matrix for \<open>N\<close> keywords, a run without faults completes and its keyword
  index has one entry per keyword; the entry at global position \<open>g\<close> satisfies
  \<open>chunk_id * chunk_size + local_index = g\<close> and holds the keyword at position \<open>g\<close>; its
  \<open>chunk_id\<close> is the position and the \<open>chunk_id\<close> of a chunk record whose
  \<open>keyword_count\<close> bounds \<open>local_index\<close> from above; and row \<open>local_index\<close> of that
  chunk's file is row \<open>g\<close> of the matrix, converted to float32.
\<close>

theorem keyword_index_locates:
  assumes "0 < chunk_size" "fs ''new_keywords/vector_database.pkl'' = Some (Pickle db)"
    and "db_keywords db = Some ks" "db_embeddings db = Some e"
    and "shape e = (int (length ks), d)" "well_shaped e"
  shows "(\<exists>m fs'. main_with chunk_size d No_fault now f32 fs = (Inr (), fs')
          \<and> fs' ''data/embeddings_metadata.json'' = Some (Json m)
          \<and> length (keywords_b m) = length ks
          \<and> (\<forall>g < length ks. \<exists>en ch rs.
                en = keywords_b m ! g
              \<and> chunk_id_e en * chunk_size + local_index_e en = int g
              \<and> keyword_e en = ks ! g
              \<and> 0 \<le> chunk_id_e en \<and> nat (chunk_id_e en) < length (chunks_b m)
              \<and> ch = chunks_b m ! nat (chunk_id_e en)
              \<and> chunk_id_b ch = chunk_id_e en
              \<and> 0 \<le> local_index_e en \<and> local_index_e en < keyword_count_b ch
              \<and> read_chunk fs' (''data/embeddings_chunks/'' @ file_path_b ch)
                    (nat (keyword_count_b ch)) (nat (embedding_dimensions_b m)) = Some rs
              \<and> rs ! nat (local_index_e en) = map f32 (rows e ! g)))"
proof -
  from assms(1) obtain c where c: "chunk_size = int c" "0 < c" by (rule pos_int_obtain)
  let ?m = "metadata_b_of ks (int c) d now"
  let ?n = "(length ks + c - 1) div c"
  from assms(5) have len: "length (rows e) = length ks" and d: "nat d = ncols e"
    by (auto simp: shape_def)
  from main_with_files [of fs db ks e d c now f32] assms(2,3,4,5) c(2) obtain fs'
    where run: "main_with chunk_size d No_fault now f32 fs = (Inr (), fs')"
      and man: "fs' ''data/embeddings_metadata.json'' = Some (Json ?m)"
      and files: "\<forall>i < ?n. fs' (''data/embeddings_chunks/'' @ chunk_filename_b (int i))
             = Some (Bin (chunk_data f32 ks e (int c) (int i)))"
    unfolding c(1) by blast
  note flat = keyword_index_flat [OF c(2), of ks d now]
  have chunks: "chunks_b ?m = map (\<lambda>i. chunk_entry_at ks (int c) (int i)) [0..<?n]"
    and dim: "embedding_dimensions_b ?m = d"
    by (simp_all add: metadata_b_of_nat [OF c(2)])
  have per: "\<exists>en ch rs.
                en = keywords_b ?m ! g
              \<and> chunk_id_e en * int c + local_index_e en = int g
              \<and> keyword_e en = ks ! g
              \<and> 0 \<le> chunk_id_e en \<and> nat (chunk_id_e en) < length (chunks_b ?m)
              \<and> ch = chunks_b ?m ! nat (chunk_id_e en)
              \<and> chunk_id_b ch = chunk_id_e en
              \<and> 0 \<le> local_index_e en \<and> local_index_e en < keyword_count_b ch
              \<and> read_chunk fs' (''data/embeddings_chunks/'' @ file_path_b ch)
                    (nat (keyword_count_b ch)) (nat (embedding_dimensions_b ?m)) = Some rs
              \<and> rs ! nat (local_index_e en) = map f32 (rows e ! g)"
    if g: "g < length ks" for g
  proof -
    define i j where "i = g div c" and "j = g mod c"
    have gij: "i * c + j = g" by (simp add: i_def j_def)
    have i: "i < ?n" unfolding i_def using c(2) g by (rule chunk_of_position)
    have j: "j < min (i * c + c) (length ks) - i * c"
      unfolding i_def j_def using c(2) g by (rule local_of_position)
    then have le: "i * c \<le> min (i * c + c) (length ks)" by simp
    have cnt: "min (i * c + c) (length ks) - i * c = length (take c (drop (i * c) ks))"
      using j by (auto simp: min_def)
    let ?en = "\<lparr>keyword_e = ks ! g, chunk_id_e = int i, local_index_e = int j\<rparr>"
    let ?ch = "chunk_entry_at ks (int c) (int i)"
    let ?rs = "map (map f32) (take c (drop (i * c) (rows e)))"
    have en: "keywords_b ?m ! g = ?en"
      using g by (simp add: flat i_def j_def)
    have ch: "chunks_b ?m ! i = ?ch" and nch: "i < length (chunks_b ?m)"
      using i by (simp_all add: chunks del: upt_Suc)
    have kc: "keyword_count_b ?ch = int (min (i * c + c) (length ks) - i * c)"
      unfolding chunk_entry_at_nat using le by (simp add: of_nat_diff del: of_nat_min of_nat_mult of_nat_add)
    have fp: "file_path_b ?ch = chunk_filename_b (int i)" and ci: "chunk_id_b ?ch = int i"
      by (simp_all add: chunk_entry_at_def)
    have lrs: "length ?rs = length (take c (drop (i * c) ks))"
      using len by simp
    have "fs' (''data/embeddings_chunks/'' @ chunk_filename_b (int i))
        = Some (Bin (concat (map float32_le (concat ?rs))))"
      using files i by (simp add: chunk_data_nat [OF len])
    then have "read_chunk fs' (''data/embeddings_chunks/'' @ chunk_filename_b (int i)) (length ?rs) (ncols e)
        = Some ?rs"
      using well_shaped_chunk [OF assms(6)] by (rule read_chunk_written)
    then have rd: "read_chunk fs' (''data/embeddings_chunks/'' @ file_path_b ?ch)
          (nat (keyword_count_b ?ch)) (nat (embedding_dimensions_b ?m)) = Some ?rs"
      by (simp only: fp kc nat_int cnt lrs dim d)
    have jl: "j < length (take c (drop (i * c) (rows e)))"
      using j cnt len by simp
    then have "?rs ! j = map f32 (take c (drop (i * c) (rows e)) ! j)"
      by (simp only: nth_map)
    also have "take c (drop (i * c) (rows e)) ! j = rows e ! (i * c + j)"
    proof -
      have "i * c \<le> length (rows e)" using le len by simp
      then show ?thesis using jl by (simp add: nth_drop)
    qed
    also have "i * c + j = g" by (rule gij)
    finally have row: "?rs ! j = map f32 (rows e ! g)" .
    have "int i * int c + int j = int g"
      using gij by (metis of_nat_add of_nat_mult)
    moreover have "int j < keyword_count_b ?ch" using j by (simp only: kc of_nat_less_iff)
    ultimately show ?thesis
      apply (intro exI [of _ ?en] exI [of _ ?ch] exI [of _ ?rs])
      using en ch nch ci rd row by simp
  qed
  have "length (keywords_b ?m) = length ks" by (simp add: flat)
  with run man per show ?thesis unfolding c(1) by blast
qed

text \<open>C10 on the scenario of the specification.\<close>

theorem keyword_index_locates_witness:
  "(\<exists>m fs'. main_with 2 2 No_fault ''t'' id scenario_fs = (Inr (), fs')
          \<and> fs' ''data/embeddings_metadata.json'' = Some (Json m)
          \<and> length (keywords_b m) = length [''a'', ''b'', ''c'']
          \<and> (\<forall>g < length [''a'', ''b'', ''c'']. \<exists>en ch rs.
                en = keywords_b m ! g
              \<and> chunk_id_e en * 2 + local_index_e en = int g
              \<and> keyword_e en = [''a'', ''b'', ''c''] ! g
              \<and> 0 \<le> chunk_id_e en \<and> nat (chunk_id_e en) < length (chunks_b m)
              \<and> ch = chunks_b m ! nat (chunk_id_e en)
              \<and> chunk_id_b ch = chunk_id_e en
              \<and> 0 \<le> local_index_e en \<and> local_index_e en < keyword_count_b ch
              \<and> read_chunk fs' (''data/embeddings_chunks/'' @ file_path_b ch)
                    (nat (keyword_count_b ch)) (nat (embedding_dimensions_b m)) = Some rs
              \<and> rs ! nat (local_index_e en) = map id (rows \<lparr>rows = [[1, 2], [3, 4], [5, 6 :: float32]], ncols = 2\<rparr> ! g)))"
proof -
  have h1: "(0::int) < 2" by simp
  have h2: "scenario_fs ''new_keywords/vector_database.pkl'' = Some (Pickle scenario)"
    by (simp add: scenario_fs_def)
  have h3: "db_keywords scenario = Some [''a'', ''b'', ''c'']" by (simp add: scenario_def)
  have h4: "db_embeddings scenario = Some \<lparr>rows = [[1, 2], [3, 4], [5, 6 :: float32]], ncols = 2\<rparr>"
    by (simp add: scenario_def)
  have h5: "shape \<lparr>rows = [[1, 2], [3, 4], [5, 6 :: float32]], ncols = 2\<rparr> = (int (length [''a'', ''b'', ''c'']), 2)"
    by (simp add: shape_def)
  have h6: "well_shaped \<lparr>rows = [[1, 2], [3, 4], [5, 6 :: float32]], ncols = 2\<rparr>" by (simp add: well_shaped_def)
  from keyword_index_locates [where chunk_size = 2 and fs = scenario_fs and db = scenario
      and now = "''t''" and ?f32.0 = id, OF h1 h2 h3 h4 h5 h6]
  show ?thesis .
qed

subsection \<open>The output directory as a whole\<close>

lemma fold_upd_view:
  assumes "\<And>i. i \<in> set is \<Longrightarrow> (j (p i) = j name \<longleftrightarrow> p i = name)"
    and "fs (j name) = m0 name"
  shows "fold (\<lambda>i fs. fs(j (p i) \<mapsto> g i)) is fs (j name) = fold (\<lambda>i m. m(p i \<mapsto> g i)) is m0 name"
  using assms
proof (induction "is" arbitrary: fs m0)
  case Nil
  then show ?case by simp
next
  case (Cons i "is")
  have "(fs(j (p i) \<mapsto> g i)) (j name) = (m0(p i \<mapsto> g i)) name"
    using Cons.prems(1) [of i] Cons.prems(2) by (cases "p i = name") auto
  moreover have "\<And>k. k \<in> set is \<Longrightarrow> (j (p k) = j name \<longleftrightarrow> p k = name)"
    using Cons.prems(1) by simp
  ultimately have "fold (\<lambda>i fs. fs(j (p i) \<mapsto> g i)) is (fs(j (p i) \<mapsto> g i)) (j name)
      = fold (\<lambda>i m. m(p i \<mapsto> g i)) is (m0(p i \<mapsto> g i)) name"
    by (rule Cons.IH [rotated])
  then show ?case by (simp only: fold_simps comp_apply)
qed

lemma chunks_written_view:
  assumes "\<And>idx. (j (p idx) = j name \<longleftrightarrow> p idx = name)"
    and "fs (j name) = None"
  shows "chunks_written (\<lambda>idx. j (p idx)) data n fs (j name) = chunks_written p data n Map.empty name"
  unfolding chunks_written_def
  by (rule fold_upd_view [where g = "\<lambda>i. Bin (data i)"]) (simp_all add: assms)

lemma path_join_rel:
  "b = [] \<or> hd b \<noteq> CHR ''/'' \<Longrightarrow>
   path_join a b = (if a = [] \<or> last a = CHR ''/'' then a else a @ ''/'') @ b"
  by (auto simp: path_join_def)

lemma path_join_rel_inj:
  assumes "b = [] \<or> hd b \<noteq> CHR ''/''" "b' = [] \<or> hd b' \<noteq> CHR ''/''"
  shows "path_join a b = path_join a b' \<longleftrightarrow> b = b'"
  by (simp only: path_join_rel [OF assms(1)] path_join_rel [OF assms(2)] same_append_eq)

lemma chunk_filename_rel: "chunk_filename idx = [] \<or> hd (chunk_filename idx) \<noteq> CHR ''/''"
  by (simp add: chunk_filename_def)

lemma convert_dir_view:
  assumes "\<forall>name. (name = [] \<or> hd name \<noteq> CHR ''/'') \<longrightarrow> fs (path_join dir name) = None"
    and "name = [] \<or> hd name \<noteq> CHR ''/''"
    and "db_keywords db = Some ks" "db_embeddings db = Some e" "chunk_size \<noteq> 0"
  shows "snd (convert_to_binary_chunks No_fault f32 db dir chunk_size fs) (path_join dir name) =
     ((chunks_written chunk_filename (chunk_data f32 ks e chunk_size)
         ((int (length ks) + chunk_size - 1) div chunk_size) Map.empty)
        (''metadata.json'' \<mapsto> Json (metadata_of ks e chunk_size))) name"
proof -
  have m: "path_join dir name = path_join dir ''metadata.json'' \<longleftrightarrow> name = ''metadata.json''"
    by (rule path_join_rel_inj [OF assms(2)]) simp
  have "chunks_written (\<lambda>idx. path_join dir (chunk_filename idx)) (chunk_data f32 ks e chunk_size)
         ((int (length ks) + chunk_size - 1) div chunk_size) fs (path_join dir name)
      = chunks_written chunk_filename (chunk_data f32 ks e chunk_size)
         ((int (length ks) + chunk_size - 1) div chunk_size) Map.empty name"
  proof (rule chunks_written_view)
    show "path_join dir (chunk_filename idx) = path_join dir name \<longleftrightarrow> chunk_filename idx = name" for idx
      by (rule path_join_rel_inj [OF chunk_filename_rel assms(2)])
    show "fs (path_join dir name) = None" by (rule assms(1) [rule_format, OF assms(2)])
  qed
  moreover have "snd (convert_to_binary_chunks No_fault f32 db dir chunk_size fs) =
      (chunks_written (\<lambda>idx. path_join dir (chunk_filename idx)) (chunk_data f32 ks e chunk_size)
         ((int (length ks) + chunk_size - 1) div chunk_size) fs)
        (path_join dir ''metadata.json'' \<mapsto> Json (metadata_of ks e chunk_size))"
    by (simp only: convert_No_fault [OF assms(3,4,5)] snd_conv)
  ultimately show ?thesis
    using m by (simp only: fun_upd_apply split: if_splits)
qed

lemma convert_error_unchanged:
  assumes "db_keywords db = None \<or> db_embeddings db = None \<or> chunk_size = 0"
  shows "\<exists>err. convert_to_binary_chunks No_fault f32 db dir chunk_size fs = (Inl err, fs)
           \<and> err = (if db_keywords db = None then KeyError ''keywords''
                     else if db_embeddings db = None then KeyError ''embeddings''
                     else ZeroDivisionError)"
proof (cases "db_keywords db")
  case None
  then show ?thesis by (simp add: convert_to_binary_chunks_def makedirs_def)
next
  case ks: (Some ks)
  show ?thesis
  proof (cases "db_embeddings db")
    case None
    with ks show ?thesis by (simp add: convert_to_binary_chunks_def makedirs_def)
  next
    case (Some e)
    with ks assms have "chunk_size = 0" by simp
    with ks Some show ?thesis by (simp add: convert_to_binary_chunks_def makedirs_def)
  qed
qed

lemma main_with_dir_view:
  assumes "\<forall>name. fs (''data/embeddings_chunks/'' @ name) = None"
    and "fs ''new_keywords/vector_database.pkl'' = Some (Pickle db)"
    and "db_keywords db = Some ks" "db_embeddings db = Some e"
    and "shape e = (int (length ks), d)" "0 < chunk_size"
  shows "snd (main_with chunk_size d No_fault now f32 fs) (''data/embeddings_chunks/'' @ name) =
     chunks_written chunk_filename_b (chunk_data f32 ks e chunk_size)
         ((int (length ks) + chunk_size - 1) div chunk_size) Map.empty name"
proof -
  have "chunks_written (\<lambda>idx. ''data/embeddings_chunks/'' @ chunk_filename_b idx)
         (chunk_data f32 ks e chunk_size)
         ((int (length ks) + chunk_size - 1) div chunk_size) fs (''data/embeddings_chunks/'' @ name)
      = chunks_written chunk_filename_b (chunk_data f32 ks e chunk_size)
         ((int (length ks) + chunk_size - 1) div chunk_size) Map.empty name"
  proof (rule chunks_written_view [where j = "\<lambda>n. ''data/embeddings_chunks/'' @ n"])
    show "''data/embeddings_chunks/'' @ chunk_filename_b idx = ''data/embeddings_chunks/'' @ name
        \<longleftrightarrow> chunk_filename_b idx = name" for idx
      by (simp only: same_append_eq)
    show "fs (''data/embeddings_chunks/'' @ name) = None"
      by (rule assms(1) [rule_format])
  qed
  moreover have "''data/embeddings_chunks/'' @ name \<noteq> ''data/embeddings_metadata.json''"
    by simp
  moreover have "snd (main_with chunk_size d No_fault now f32 fs) =
      (chunks_written (\<lambda>idx. ''data/embeddings_chunks/'' @ chunk_filename_b idx)
         (chunk_data f32 ks e chunk_size) ((int (length ks) + chunk_size - 1) div chunk_size) fs)
        (''data/embeddings_metadata.json'' \<mapsto> Json (metadata_b_of ks chunk_size d now))"
    by (simp only: main_with_No_fault [of fs db ks e d chunk_size now f32, OF assms(2-6)] snd_conv)
  ultimately show ?thesis
    by (simp only: fun_upd_apply if_False)
qed

text \<open>
  C9. Two runs without faults on the same input with the same chunk size give the same
  result, whatever the output directory, the clock and the rest of the file system are.
  For \<^verbatim>\<open>convert_to_binary_chunks\<close> into two fresh output directories, every relative name
  holds the same file in both directories afterwards (the same bytes for a chunk file,
  the same metadata). For \<^verbatim>\<open>main\<close> of \<^verbatim>\<open>convert-pickle-to-binary.py\<close>, started with the same
  pickle, a fresh chunk directory and no metadata file, every name of the chunk directory
  holds the same file after both runs, and the two metadata files are both absent (the
  runs failed) or differ at most in \<open>created_at\<close>.
\<close>

theorem export_deterministic:
  "((\<forall>name. (name = [] \<or> hd name \<noteq> CHR ''/'') \<longrightarrow> fs1 (path_join dir1 name) = None)
    \<and> (\<forall>name. (name = [] \<or> hd name \<noteq> CHR ''/'') \<longrightarrow> fs2 (path_join dir2 name) = None) \<longrightarrow>
      fst (convert_to_binary_chunks No_fault f32 db dir1 chunk_size fs1)
        = fst (convert_to_binary_chunks No_fault f32 db dir2 chunk_size fs2)
    \<and> (\<forall>name. (name = [] \<or> hd name \<noteq> CHR ''/'') \<longrightarrow>
          snd (convert_to_binary_chunks No_fault f32 db dir1 chunk_size fs1) (path_join dir1 name)
            = snd (convert_to_binary_chunks No_fault f32 db dir2 chunk_size fs2) (path_join dir2 name)))
   \<and> (0 < chunk_size
      \<and> fb1 ''new_keywords/vector_database.pkl'' = fb2 ''new_keywords/vector_database.pkl''
      \<and> (\<forall>name. fb1 (''data/embeddings_chunks/'' @ name) = None)
      \<and> (\<forall>name. fb2 (''data/embeddings_chunks/'' @ name) = None)
      \<and> fb1 ''data/embeddings_metadata.json'' = None
      \<and> fb2 ''data/embeddings_metadata.json'' = None \<longrightarrow>
      fst (main_with chunk_size d No_fault now1 f32 fb1) = fst (main_with chunk_size d No_fault now2 f32 fb2)
    \<and> (\<forall>name. snd (main_with chunk_size d No_fault now1 f32 fb1) (''data/embeddings_chunks/'' @ name)
              = snd (main_with chunk_size d No_fault now2 f32 fb2) (''data/embeddings_chunks/'' @ name))
    \<and> ((snd (main_with chunk_size d No_fault now1 f32 fb1) ''data/embeddings_metadata.json'' = None
         \<and> snd (main_with chunk_size d No_fault now2 f32 fb2) ''data/embeddings_metadata.json'' = None)
       \<or> (\<exists>m1 m2.
           snd (main_with chunk_size d No_fault now1 f32 fb1) ''data/embeddings_metadata.json'' = Some (Json m1)
         \<and> snd (main_with chunk_size d No_fault now2 f32 fb2) ''data/embeddings_metadata.json'' = Some (Json m2)
         \<and> m1\<lparr>created_at_b := []\<rparr> = m2\<lparr>created_at_b := []\<rparr>)))"
proof (intro conjI impI allI; (elim conjE)?)
  assume f1: "\<forall>name. (name = [] \<or> hd name \<noteq> CHR ''/'') \<longrightarrow> fs1 (path_join dir1 name) = None"
    and f2: "\<forall>name. (name = [] \<or> hd name \<noteq> CHR ''/'') \<longrightarrow> fs2 (path_join dir2 name) = None"
  show "fst (convert_to_binary_chunks No_fault f32 db dir1 chunk_size fs1)
        = fst (convert_to_binary_chunks No_fault f32 db dir2 chunk_size fs2)"
  proof (cases "db_keywords db = None \<or> db_embeddings db = None \<or> chunk_size = 0")
    case True
    from convert_error_unchanged [OF True, of f32 dir1 fs1] convert_error_unchanged [OF True, of f32 dir2 fs2]
    show ?thesis by auto
  next
    case False
    then obtain ks e where "db_keywords db = Some ks" "db_embeddings db = Some e" "chunk_size \<noteq> 0"
      by auto
    then show ?thesis by (simp add: convert_No_fault)
  qed
next
  fix name
  assume f1: "\<forall>name. (name = [] \<or> hd name \<noteq> CHR ''/'') \<longrightarrow> fs1 (path_join dir1 name) = None"
    and f2: "\<forall>name. (name = [] \<or> hd name \<noteq> CHR ''/'') \<longrightarrow> fs2 (path_join dir2 name) = None"
    and rel: "name = [] \<or> hd name \<noteq> CHR ''/''"
  show "snd (convert_to_binary_chunks No_fault f32 db dir1 chunk_size fs1) (path_join dir1 name)
            = snd (convert_to_binary_chunks No_fault f32 db dir2 chunk_size fs2) (path_join dir2 name)"
  proof (cases "db_keywords db = None \<or> db_embeddings db = None \<or> chunk_size = 0")
    case True
    from convert_error_unchanged [OF True, of f32 dir1 fs1] convert_error_unchanged [OF True, of f32 dir2 fs2]
    have "snd (convert_to_binary_chunks No_fault f32 db dir1 chunk_size fs1) = fs1"
      "snd (convert_to_binary_chunks No_fault f32 db dir2 chunk_size fs2) = fs2"
      by auto
    then show ?thesis
      by (simp only: f1 [rule_format, OF rel] f2 [rule_format, OF rel])
  next
    case False
    then obtain ks e where k: "db_keywords db = Some ks" "db_embeddings db = Some e" "chunk_size \<noteq> 0"
      by auto
    show ?thesis
      by (simp only: convert_dir_view [OF f1 rel k] convert_dir_view [OF f2 rel k])
  qed
next
  assume cs: "0 < chunk_size"
    and same: "fb1 ''new_keywords/vector_database.pkl'' = fb2 ''new_keywords/vector_database.pkl''"
    and f1: "\<forall>name. fb1 (''data/embeddings_chunks/'' @ name) = None"
    and f2: "\<forall>name. fb2 (''data/embeddings_chunks/'' @ name) = None"
    and m1: "fb1 ''data/embeddings_metadata.json'' = None"
    and m2: "fb2 ''data/embeddings_metadata.json'' = None"
  let ?r1 = "main_with chunk_size d No_fault now1 f32 fb1"
  let ?r2 = "main_with chunk_size d No_fault now2 f32 fb2"
  have ld: "main_load d fb1 = main_load d fb2"
    by (simp only: main_load_def same)
  have "fst ?r1 = fst ?r2
    \<and> (\<forall>name. snd ?r1 (''data/embeddings_chunks/'' @ name) = snd ?r2 (''data/embeddings_chunks/'' @ name))
    \<and> ((snd ?r1 ''data/embeddings_metadata.json'' = None \<and> snd ?r2 ''data/embeddings_metadata.json'' = None)
       \<or> (\<exists>m1 m2.
           snd ?r1 ''data/embeddings_metadata.json'' = Some (Json m1)
         \<and> snd ?r2 ''data/embeddings_metadata.json'' = Some (Json m2)
         \<and> m1\<lparr>created_at_b := []\<rparr> = m2\<lparr>created_at_b := []\<rparr>))"
  proof (cases "main_load d fb1")
    case (Inl err)
    then have "?r1 = (Inl err, fb1)" "?r2 = (Inl err, fb2)"
      using ld by (simp_all add: main_with_def)
    then show ?thesis using f1 f2 m1 m2 by simp
  next
    case (Inr p)
    obtain e ks where p: "p = (e, ks)" by (cases p)
    from Inr [unfolded p main_load_Inr] obtain db where
      l1: "fb1 ''new_keywords/vector_database.pkl'' = Some (Pickle db)"
      and k: "db_keywords db = Some ks" "db_embeddings db = Some e" "shape e = (int (length ks), d)"
      by blast
    from l1 same have l2: "fb2 ''new_keywords/vector_database.pkl'' = Some (Pickle db)" by simp
    have r1: "?r1 = (Inr (),
        (chunks_written (\<lambda>idx. ''data/embeddings_chunks/'' @ chunk_filename_b idx)
           (chunk_data f32 ks e chunk_size) ((int (length ks) + chunk_size - 1) div chunk_size) fb1)
          (''data/embeddings_metadata.json'' \<mapsto> Json (metadata_b_of ks chunk_size d now1)))"
      using l1 k cs by (rule main_with_No_fault)
    have r2: "?r2 = (Inr (),
        (chunks_written (\<lambda>idx. ''data/embeddings_chunks/'' @ chunk_filename_b idx)
           (chunk_data f32 ks e chunk_size) ((int (length ks) + chunk_size - 1) div chunk_size) fb2)
          (''data/embeddings_metadata.json'' \<mapsto> Json (metadata_b_of ks chunk_size d now2)))"
      using l2 k cs by (rule main_with_No_fault)
    have a: "fst ?r1 = fst ?r2" by (simp only: r1 r2 fst_conv)
    have b: "snd ?r1 (''data/embeddings_chunks/'' @ name) = snd ?r2 (''data/embeddings_chunks/'' @ name)" for name
      by (simp only: main_with_dir_view [OF f1 l1 k cs] main_with_dir_view [OF f2 l2 k cs])
    have "(metadata_b_of ks chunk_size d now1)\<lparr>created_at_b := []\<rparr>
        = (metadata_b_of ks chunk_size d now2)\<lparr>created_at_b := []\<rparr>"
      by (simp add: metadata_b_of_def)
    moreover have "snd ?r1 ''data/embeddings_metadata.json'' = Some (Json (metadata_b_of ks chunk_size d now1))"
      "snd ?r2 ''data/embeddings_metadata.json'' = Some (Json (metadata_b_of ks chunk_size d now2))"
      by (simp_all only: r1 r2 snd_conv fun_upd_same)
    ultimately show ?thesis using a b by blast
  qed
  then show "fst ?r1 = fst ?r2"
    and "\<And>name. snd ?r1 (''data/embeddings_chunks/'' @ name) = snd ?r2 (''data/embeddings_chunks/'' @ name)"
    and "(snd ?r1 ''data/embeddings_metadata.json'' = None \<and> snd ?r2 ''data/embeddings_metadata.json'' = None)
       \<or> (\<exists>m1 m2.
           snd ?r1 ''data/embeddings_metadata.json'' = Some (Json m1)
         \<and> snd ?r2 ''data/embeddings_metadata.json'' = Some (Json m2)
         \<and> m1\<lparr>created_at_b := []\<rparr> = m2\<lparr>created_at_b := []\<rparr>)"
    by blast+
qed

text \<open>
  C9 on the scenario of the specification: two runs of \<^verbatim>\<open>convert_to_binary_chunks\<close> into
  the fresh directories \<open>out1\<close> and \<open>out2\<close> of otherwise different file systems, and two
  runs of \<^verbatim>\<open>main\<close> at different clock readings.
\<close>

theorem export_deterministic_witness:
  "fst (convert_to_binary_chunks No_fault id scenario ''out1'' 2 Map.empty)
     = fst (convert_to_binary_chunks No_fault id scenario ''out2'' 2 [''other'' \<mapsto> Bin []])
   \<and> snd (convert_to_binary_chunks No_fault id scenario ''out1'' 2 Map.empty) (path_join ''out1'' ''chunk_01.bin'')
     = snd (convert_to_binary_chunks No_fault id scenario ''out2'' 2 [''other'' \<mapsto> Bin []]) (path_join ''out2'' ''chunk_01.bin'')
   \<and> snd (convert_to_binary_chunks No_fault id scenario ''out1'' 2 Map.empty) (path_join ''out1'' ''metadata.json'')
     = snd (convert_to_binary_chunks No_fault id scenario ''out2'' 2 [''other'' \<mapsto> Bin []]) (path_join ''out2'' ''metadata.json'')
   \<and> fst (main_with 2 2 No_fault ''t1'' id scenario_fs) = fst (main_with 2 2 No_fault ''t2'' id scenario_fs)
   \<and> snd (main_with 2 2 No_fault ''t1'' id scenario_fs) (''data/embeddings_chunks/'' @ ''chunk_001.bin'')
     = snd (main_with 2 2 No_fault ''t2'' id scenario_fs) (''data/embeddings_chunks/'' @ ''chunk_001.bin'')
   \<and> ((snd (main_with 2 2 No_fault ''t1'' id scenario_fs) ''data/embeddings_metadata.json'' = None
         \<and> snd (main_with 2 2 No_fault ''t2'' id scenario_fs) ''data/embeddings_metadata.json'' = None)
       \<or> (\<exists>m1 m2.
           snd (main_with 2 2 No_fault ''t1'' id scenario_fs) ''data/embeddings_metadata.json'' = Some (Json m1)
         \<and> snd (main_with 2 2 No_fault ''t2'' id scenario_fs) ''data/embeddings_metadata.json'' = Some (Json m2)
         \<and> m1\<lparr>created_at_b := []\<rparr> = m2\<lparr>created_at_b := []\<rparr>))"
proof -
  have f1: "\<forall>name. (name = [] \<or> hd name \<noteq> CHR ''/'') \<longrightarrow>
      (Map.empty :: (float32, chunk_metadata) fs) (path_join ''out1'' name) = None"
    by simp
  have f2: "\<forall>name. (name = [] \<or> hd name \<noteq> CHR ''/'') \<longrightarrow>
      ([''other'' \<mapsto> Bin []] :: (float32, chunk_metadata) fs) (path_join ''out2'' name) = None"
    by (simp add: path_join_def)
  have r1: "''chunk_01.bin'' = [] \<or> hd ''chunk_01.bin'' \<noteq> CHR ''/''" by simp
  have r2: "''metadata.json'' = [] \<or> hd ''metadata.json'' \<noteq> CHR ''/''" by simp
  have b: "(0::int) < 2
      \<and> scenario_fs ''new_keywords/vector_database.pkl'' = scenario_fs ''new_keywords/vector_database.pkl''
      \<and> (\<forall>name. scenario_fs (''data/embeddings_chunks/'' @ name) = None)
      \<and> (\<forall>name. scenario_fs (''data/embeddings_chunks/'' @ name) = None)
      \<and> scenario_fs ''data/embeddings_metadata.json'' = None
      \<and> scenario_fs ''data/embeddings_metadata.json'' = None"
    by (simp add: scenario_fs_def)
  note th = export_deterministic [where ?fs1.0 = "Map.empty :: (float32, chunk_metadata) fs"
      and ?dir1.0 = "''out1''" and ?fs2.0 = "[''other'' \<mapsto> Bin []]" and ?dir2.0 = "''out2''"
      and ?f32.0 = id and db = scenario and chunk_size = 2
      and ?fb1.0 = scenario_fs and ?fb2.0 = scenario_fs and d = 2 and ?now1.0 = "''t1''" and ?now2.0 = "''t2''"]
  from th [THEN conjunct1, rule_format, OF conjI [OF f1 f2]]
  have A: "fst (convert_to_binary_chunks No_fault id scenario ''out1'' 2 Map.empty)
     = fst (convert_to_binary_chunks No_fault id scenario ''out2'' 2 [''other'' \<mapsto> Bin []])"
    and A': "\<And>name. name = [] \<or> hd name \<noteq> CHR ''/'' \<Longrightarrow>
      snd (convert_to_binary_chunks No_fault id scenario ''out1'' 2 Map.empty) (path_join ''out1'' name)
     = snd (convert_to_binary_chunks No_fault id scenario ''out2'' 2 [''other'' \<mapsto> Bin []]) (path_join ''out2'' name)"
    by blast+
  from th [THEN conjunct2, rule_format, OF b]
  have B: "fst (main_with 2 2 No_fault ''t1'' id scenario_fs) = fst (main_with 2 2 No_fault ''t2'' id scenario_fs)"
    and B': "\<And>name. snd (main_with 2 2 No_fault ''t1'' id scenario_fs) (''data/embeddings_chunks/'' @ name)
     = snd (main_with 2 2 No_fault ''t2'' id scenario_fs) (''data/embeddings_chunks/'' @ name)"
    and B'': "(snd (main_with 2 2 No_fault ''t1'' id scenario_fs) ''data/embeddings_metadata.json'' = None
         \<and> snd (main_with 2 2 No_fault ''t2'' id scenario_fs) ''data/embeddings_metadata.json'' = None)
       \<or> (\<exists>m1 m2.
           snd (main_with 2 2 No_fault ''t1'' id scenario_fs) ''data/embeddings_metadata.json'' = Some (Json m1)
         \<and> snd (main_with 2 2 No_fault ''t2'' id scenario_fs) ''data/embeddings_metadata.json'' = Some (Json m2)
         \<and> m1\<lparr>created_at_b := []\<rparr> = m2\<lparr>created_at_b := []\<rparr>)"
    by blast+
  from A A' [OF r1] A' [OF r2] B B' [of "''chunk_001.bin''"] B''
  show ?thesis by (intro conjI)
qed

subsection \<open>Chunk files behind a manifest\<close>

lemma chunk_data_info:
  "chunk_data f32 ks e cs idx =
     tobytes (astype_float32 f32 (array_slice e (start_index_a (chunk_info_at ks cs idx))
        (end_index_a (chunk_info_at ks cs idx))))"
  by (simp add: chunk_data_def chunk_info_at_def)

lemma chunk_data_entry:
  "chunk_data f32 ks e cs idx =
     tobytes (astype_float32 f32 (array_slice e (start_index_b (chunk_entry_at ks cs idx))
        (end_index_b (chunk_entry_at ks cs idx) + 1)))"
  by (simp add: chunk_data_def chunk_entry_at_def)

lemma chunks_behind_manifest_a:
  assumes "fs' = (chunks_written (\<lambda>idx. path_join dir (chunk_filename idx)) (chunk_data f32 ks e cs) n fs)
                   (path_join dir ''metadata.json'' \<mapsto> v)"
    and "x \<in> set (map (chunk_info_at ks cs) (range n))"
  shows "fs' (path_join dir (filename_a x)) =
     Some (Bin (tobytes (astype_float32 f32 (array_slice e (start_index_a x) (end_index_a x)))))"
proof -
  from assms(2) obtain idx where idx: "0 \<le> idx" "idx < n" and x: "x = chunk_info_at ks cs idx"
    by (auto simp: set_range)
  have f: "filename_a (chunk_info_at ks cs idx) = chunk_filename idx" by (simp add: chunk_info_at_def)
  have "chunks_written (\<lambda>idx. path_join dir (chunk_filename idx)) (chunk_data f32 ks e cs) n fs
          (path_join dir (chunk_filename idx)) = Some (Bin (chunk_data f32 ks e cs idx))"
    using _ idx by (rule chunks_written_same) (rule chunk_path_inj)
  then have "fs' (path_join dir (chunk_filename idx)) = Some (Bin (chunk_data f32 ks e cs idx))"
    by (simp only: assms(1) fun_upd_apply chunk_path_not_metadata if_False)
  then show ?thesis by (simp only: x f chunk_data_info [symmetric])
qed

lemma chunks_behind_manifest_b:
  assumes "fs' = (chunks_written (\<lambda>idx. ''data/embeddings_chunks/'' @ chunk_filename_b idx)
                    (chunk_data f32 ks e cs) n fs)
                   (''data/embeddings_metadata.json'' \<mapsto> v)"
    and "x \<in> set (map (chunk_entry_at ks cs) (range n))"
  shows "fs' (''data/embeddings_chunks/'' @ file_path_b x) =
     Some (Bin (tobytes (astype_float32 f32 (array_slice e (start_index_b x) (end_index_b x + 1)))))"
proof -
  from assms(2) obtain idx where idx: "0 \<le> idx" "idx < n" and x: "x = chunk_entry_at ks cs idx"
    by (auto simp: set_range)
  have f: "file_path_b (chunk_entry_at ks cs idx) = chunk_filename_b idx" by (simp add: chunk_entry_at_def)
  have "chunks_written (\<lambda>idx. ''data/embeddings_chunks/'' @ chunk_filename_b idx) (chunk_data f32 ks e cs) n fs
          (''data/embeddings_chunks/'' @ chunk_filename_b idx) = Some (Bin (chunk_data f32 ks e cs idx))"
    using _ idx by (rule chunks_written_same) (rule chunk_path_b_inj)
  then have "fs' (''data/embeddings_chunks/'' @ chunk_filename_b idx) = Some (Bin (chunk_data f32 ks e cs idx))"
    by (simp only: assms(1) fun_upd_apply chunk_path_b_not_metadata if_False)
  then show ?thesis by (simp only: x f chunk_data_entry [symmetric])
qed

text \<open>
  C6 (as amended). Whatever fails, a run of either script leaves one of three states.
  Either the run failed and the metadata path holds what it held before the run (so it
  is absent if it was absent: every failure before the metadata file is written, among
  them each failed chunk write). Or the run completed and the metadata file is complete.
  Or writing the metadata file itself failed after \<open>k\<close> characters and the file holds
  that truncated text. In the last two states every chunk file that the metadata
  references holds all the bytes of its rows: the metadata file is only written after
  every chunk file.
\<close>

theorem manifest_after_chunks:
  "(convert_to_binary_chunks env f32 db dir chunk_size fs = (r, fs') \<longrightarrow>
      (r \<noteq> Inr () \<and> fs' (path_join dir ''metadata.json'') = fs (path_join dir ''metadata.json''))
    \<or> (\<exists>e m. db_embeddings db = Some e
         \<and> ((r = Inr () \<and> fs' (path_join dir ''metadata.json'') = Some (Json m))
            \<or> (\<exists>k. r = Inl OSError \<and> env = Write_fails (path_join dir ''metadata.json'') k
                  \<and> fs' (path_join dir ''metadata.json'') = Some (Json_prefix k m)))
         \<and> (\<forall>c \<in> set (chunks_a m).
               fs' (path_join dir (filename_a c)) =
                 Some (Bin (tobytes (astype_float32 f32
                   (array_slice e (start_index_a c) (end_index_a c))))))))
   \<and> (main_with chunk_size d env now f32 fs_b = (r_b, fs_b') \<longrightarrow>
      (r_b \<noteq> Inr () \<and> fs_b' ''data/embeddings_metadata.json'' = fs_b ''data/embeddings_metadata.json'')
    \<or> (\<exists>e ks m. main_load d fs_b = Inr (e, ks)
         \<and> ((r_b = Inr () \<and> fs_b' ''data/embeddings_metadata.json'' = Some (Json m))
            \<or> (\<exists>k. r_b = Inl OSError \<and> env = Write_fails ''data/embeddings_metadata.json'' k
                  \<and> fs_b' ''data/embeddings_metadata.json'' = Some (Json_prefix k m)))
         \<and> (\<forall>c \<in> set (chunks_b m).
               fs_b' (''data/embeddings_chunks/'' @ file_path_b c) =
                 Some (Bin (tobytes (astype_float32 f32
                   (array_slice e (start_index_b c) (end_index_b c + 1))))))))"
proof (intro conjI impI)
  assume run: "convert_to_binary_chunks env f32 db dir chunk_size fs = (r, fs')"
  from convert_outcome [OF run]
  show "(r \<noteq> Inr () \<and> fs' (path_join dir ''metadata.json'') = fs (path_join dir ''metadata.json''))
    \<or> (\<exists>e m. db_embeddings db = Some e
         \<and> ((r = Inr () \<and> fs' (path_join dir ''metadata.json'') = Some (Json m))
            \<or> (\<exists>k. r = Inl OSError \<and> env = Write_fails (path_join dir ''metadata.json'') k
                  \<and> fs' (path_join dir ''metadata.json'') = Some (Json_prefix k m)))
         \<and> (\<forall>c \<in> set (chunks_a m).
               fs' (path_join dir (filename_a c)) =
                 Some (Bin (tobytes (astype_float32 f32
                   (array_slice e (start_index_a c) (end_index_a c)))))))"
  proof (elim disjE exE conjE)
    assume "r \<noteq> Inr ()" "fs' (path_join dir ''metadata.json'') = fs (path_join dir ''metadata.json'')"
    then show ?thesis by blast
  next
    fix ks e
    assume e: "db_embeddings db = Some e" and r: "r = Inr ()"
      and fs': "fs' = (chunks_written (\<lambda>idx. path_join dir (chunk_filename idx)) (chunk_data f32 ks e chunk_size)
                      ((int (length ks) + chunk_size - 1) div chunk_size) fs)
                    (path_join dir ''metadata.json'' \<mapsto> Json (metadata_of ks e chunk_size))"
    have "\<forall>c \<in> set (chunks_a (metadata_of ks e chunk_size)).
               fs' (path_join dir (filename_a c)) =
                 Some (Bin (tobytes (astype_float32 f32 (array_slice e (start_index_a c) (end_index_a c)))))"
      using chunks_behind_manifest_a [OF fs'] by (simp add: metadata_of_def)
    moreover have "fs' (path_join dir ''metadata.json'') = Some (Json (metadata_of ks e chunk_size))"
      by (simp only: fs' fun_upd_same)
    ultimately show ?thesis using e r by blast
  next
    fix ks e k
    assume e: "db_embeddings db = Some e" and r: "r = Inl OSError"
      and env: "env = Write_fails (path_join dir ''metadata.json'') k"
      and fs': "fs' = (chunks_written (\<lambda>idx. path_join dir (chunk_filename idx)) (chunk_data f32 ks e chunk_size)
                      ((int (length ks) + chunk_size - 1) div chunk_size) fs)
                    (path_join dir ''metadata.json'' \<mapsto> Json_prefix k (metadata_of ks e chunk_size))"
    have "\<forall>c \<in> set (chunks_a (metadata_of ks e chunk_size)).
               fs' (path_join dir (filename_a c)) =
                 Some (Bin (tobytes (astype_float32 f32 (array_slice e (start_index_a c) (end_index_a c)))))"
      using chunks_behind_manifest_a [OF fs'] by (simp add: metadata_of_def)
    moreover have "fs' (path_join dir ''metadata.json'') = Some (Json_prefix k (metadata_of ks e chunk_size))"
      by (simp only: fs' fun_upd_same)
    ultimately show ?thesis using e r env by blast
  qed
next
  assume run: "main_with chunk_size d env now f32 fs_b = (r_b, fs_b')"
  from main_with_outcome [OF run]
  show "(r_b \<noteq> Inr () \<and> fs_b' ''data/embeddings_metadata.json'' = fs_b ''data/embeddings_metadata.json'')
    \<or> (\<exists>e ks m. main_load d fs_b = Inr (e, ks)
         \<and> ((r_b = Inr () \<and> fs_b' ''data/embeddings_metadata.json'' = Some (Json m))
            \<or> (\<exists>k. r_b = Inl OSError \<and> env = Write_fails ''data/embeddings_metadata.json'' k
                  \<and> fs_b' ''data/embeddings_metadata.json'' = Some (Json_prefix k m)))
         \<and> (\<forall>c \<in> set (chunks_b m).
               fs_b' (''data/embeddings_chunks/'' @ file_path_b c) =
                 Some (Bin (tobytes (astype_float32 f32
                   (array_slice e (start_index_b c) (end_index_b c + 1)))))))"
  proof (elim disjE exE conjE)
    assume "r_b \<noteq> Inr ()" "fs_b' ''data/embeddings_metadata.json'' = fs_b ''data/embeddings_metadata.json''"
    then show ?thesis by blast
  next
    fix ks e m
    assume ld: "main_load d fs_b = Inr (e, ks)" and r: "r_b = Inr ()"
      and cm: "chunks_b m = map (chunk_entry_at ks chunk_size)
                 (range ((int (length ks) + chunk_size - 1) div chunk_size))"
      and fs': "fs_b' = (chunks_written (\<lambda>idx. ''data/embeddings_chunks/'' @ chunk_filename_b idx)
                      (chunk_data f32 ks e chunk_size)
                      ((int (length ks) + chunk_size - 1) div chunk_size) fs_b)
                    (''data/embeddings_metadata.json'' \<mapsto> Json m)"
    have "\<forall>c \<in> set (chunks_b m).
               fs_b' (''data/embeddings_chunks/'' @ file_path_b c) =
                 Some (Bin (tobytes (astype_float32 f32 (array_slice e (start_index_b c) (end_index_b c + 1)))))"
      using chunks_behind_manifest_b [OF fs'] by (simp only: cm) blast
    moreover have "fs_b' ''data/embeddings_metadata.json'' = Some (Json m)"
      by (simp only: fs' fun_upd_same)
    ultimately show ?thesis using ld r by blast
  next
    fix ks e m k
    assume ld: "main_load d fs_b = Inr (e, ks)" and r: "r_b = Inl OSError"
      and env: "env = Write_fails ''data/embeddings_metadata.json'' k"
      and cm: "chunks_b m = map (chunk_entry_at ks chunk_size)
                 (range ((int (length ks) + chunk_size - 1) div chunk_size))"
      and fs': "fs_b' = (chunks_written (\<lambda>idx. ''data/embeddings_chunks/'' @ chunk_filename_b idx)
                      (chunk_data f32 ks e chunk_size)
                      ((int (length ks) + chunk_size - 1) div chunk_size) fs_b)
                    (''data/embeddings_metadata.json'' \<mapsto> Json_prefix k m)"
    have "\<forall>c \<in> set (chunks_b m).
               fs_b' (''data/embeddings_chunks/'' @ file_path_b c) =
                 Some (Bin (tobytes (astype_float32 f32 (array_slice e (start_index_b c) (end_index_b c + 1)))))"
      using chunks_behind_manifest_b [OF fs'] by (simp only: cm) blast
    moreover have "fs_b' ''data/embeddings_metadata.json'' = Some (Json_prefix k m)"
      by (simp only: fs' fun_upd_same)
    ultimately show ?thesis using ld r env by blast
  qed
qed

text \<open>
  C6 as stated fails: in a fresh output directory, when the chunk files are written and
  writing \<^verbatim>\<open>metadata.json\<close> then fails before any character reaches the file, the run
  fails and leaves an empty \<^verbatim>\<open>metadata.json\<close> behind: neither absent nor marked.
\<close>

theorem manifest_after_chunks_counterexample:
  "fst (convert_to_binary_chunks (Write_fails ''out/metadata.json'' 0) id scenario ''out'' 2 Map.empty)
     = Inl OSError
   \<and> snd (convert_to_binary_chunks (Write_fails ''out/metadata.json'' 0) id scenario ''out'' 2 Map.empty)
       ''out/metadata.json''
     = Some (Json_prefix 0
         \<lparr>version_a = ''1.0.0'', total_keywords_a = 3, embedding_dimension_a = 2, chunk_size_a = 2,
          num_chunks_a = 2,
          chunks_a =
            [\<lparr>chunk_id_a = 0, filename_a = ''chunk_00.bin'', start_index_a = 0, end_index_a = 2,
              keyword_count_a = 2, keywords_a = [''a'', ''b'']\<rparr>,
             \<lparr>chunk_id_a = 1, filename_a = ''chunk_01.bin'', start_index_a = 2, end_index_a = 3,
              keyword_count_a = 1, keywords_a = [''c'']\<rparr>]\<rparr>)"
  by code_simp

text \<open>
  C6 (as amended) on the scenario of the specification: a run of
  \<^verbatim>\<open>convert_to_binary_chunks\<close> whose second chunk write fails after three bytes leaves no
  metadata file in a fresh directory, and a run of \<^verbatim>\<open>main\<close> without faults leaves a
  complete metadata file whose chunk files are all complete.
\<close>

theorem manifest_after_chunks_witness:
  "fst (convert_to_binary_chunks (Write_fails ''out/chunk_01.bin'' 3) id scenario ''out'' 2 Map.empty)
     = Inl OSError
   \<and> snd (convert_to_binary_chunks (Write_fails ''out/chunk_01.bin'' 3) id scenario ''out'' 2 Map.empty)
       (path_join ''out'' ''metadata.json'') = None
   \<and> (\<exists>e ks m. main_load 2 scenario_fs = Inr (e, ks)
         \<and> fst (main_with 2 2 No_fault ''t'' id scenario_fs) = Inr ()
         \<and> snd (main_with 2 2 No_fault ''t'' id scenario_fs) ''data/embeddings_metadata.json'' = Some (Json m)
         \<and> (\<forall>c \<in> set (chunks_b m).
               snd (main_with 2 2 No_fault ''t'' id scenario_fs) (''data/embeddings_chunks/'' @ file_path_b c) =
                 Some (Bin (tobytes (astype_float32 id
                   (array_slice e (start_index_b c) (end_index_b c + 1)))))))"
proof -
  let ?R = "convert_to_binary_chunks (Write_fails ''out/chunk_01.bin'' 3) id scenario ''out'' 2 Map.empty"
  let ?S = "main_with 2 2 No_fault ''t'' id scenario_fs"
  have a: "fst ?R = Inl OSError" by code_simp
  have b: "fst ?S = Inr ()" by code_simp
  have ne: "Write_fails ''out/chunk_01.bin'' 3 \<noteq> Write_fails (path_join ''out'' ''metadata.json'') k" for k
    by (simp add: path_join_def)
  have ra: "?R = (fst ?R, snd ?R)" and rb: "?S = (fst ?S, snd ?S)" by simp_all
  note th = manifest_after_chunks [where env = "Write_fails ''out/chunk_01.bin'' 3" and ?f32.0 = id
      and db = scenario and dir = "''out''" and chunk_size = 2
      and fs = "Map.empty :: (float32, chunk_metadata) fs" and r = "fst ?R" and fs' = "snd ?R"]
  from th [THEN conjunct1, rule_format, OF ra] a ne
  have A: "snd ?R (path_join ''out'' ''metadata.json'') = None" by auto
  note th' = manifest_after_chunks [where env = No_fault and ?f32.0 = id and chunk_size = 2 and d = 2
      and now = "''t''" and fs_b = scenario_fs and r_b = "fst ?S" and fs_b' = "snd ?S"
      and db = "scenario" and fs = "Map.empty :: (float32, chunk_metadata) fs"]
  from th' [THEN conjunct2, rule_format, OF rb] b
  have B: "\<exists>e ks m. main_load 2 scenario_fs = Inr (e, ks)
         \<and> fst ?S = Inr ()
         \<and> snd ?S ''data/embeddings_metadata.json'' = Some (Json m)
         \<and> (\<forall>c \<in> set (chunks_b m).
               snd ?S (''data/embeddings_chunks/'' @ file_path_b c) =
                 Some (Bin (tobytes (astype_float32 id
                   (array_slice e (start_index_b c) (end_index_b c + 1))))))"
    by (elim disjE exE conjE) (simp, blast, simp)
  from a A B show ?thesis by (intro conjI)
qed

subsection \<open>Shape of the chunk file names\<close>

lemma digit_char: "d < 10 \<Longrightarrow> char_of (48 + d :: nat) \<in> set ''0123456789''"
proof -
  assume "d < 10"
  then have "d \<in> set [0..<10]" by simp
  moreover have "\<forall>k \<in> set [0..<10]. char_of (48 + k :: nat) \<in> set ''0123456789''"
    by code_simp
  ultimately show ?thesis by blast
qed

lemma str_nat_digits: "set (str_nat n) \<subseteq> set ''0123456789''"
proof (induction n rule: str_nat.induct)
  case (1 n)
  show ?case
  proof (cases "n < 10")
    case True
    then have "str_nat n = [char_of (48 + n)]" by (subst str_nat.simps) simp
    with digit_char [OF True] show ?thesis by simp
  next
    case False
    then have "str_nat n = str_nat (n div 10) @ [char_of (48 + n mod 10)]"
      by (subst str_nat.simps) simp
    moreover have "char_of (48 + n mod 10) \<in> set ''0123456789''"
      by (rule digit_char) simp
    ultimately show ?thesis using "1.IH" [OF False] by simp
  qed
qed

lemma length_str_nat_pos: "0 < length (str_nat n)"
  by (subst str_nat.simps) simp

lemma length_str_nat_10: "n < 10 \<Longrightarrow> length (str_nat n) = 1"
  by (subst str_nat.simps) simp

lemma length_str_nat_100: "n < 100 \<Longrightarrow> length (str_nat n) \<le> 2"
  by (subst str_nat.simps) (simp add: length_str_nat_10)

lemma length_str_nat_1000: "n < 1000 \<Longrightarrow> length (str_nat n) \<le> 3"
proof (cases "n < 10")
  case True
  then show ?thesis by (simp add: length_str_nat_10)
next
  case False
  assume "n < 1000"
  then have "n div 10 < 100" by simp
  then have "length (str_nat (n div 10)) \<le> 2" by (rule length_str_nat_100)
  with False show ?thesis by (subst str_nat.simps) simp
qed

lemma format_0d_shape:
  assumes "0 \<le> idx"
  shows "set (format_0d w idx) \<subseteq> set ''0123456789''"
    and "digits_value (format_0d w idx) = nat idx"
    and "w \<le> length (format_0d w idx)"
proof -
  have f: "format_0d w idx = replicate (w - length (str_nat (nat idx))) (CHR ''0'') @ str_nat (nat idx)"
    using assms by (simp add: format_0d_def zfill_def)
  show "set (format_0d w idx) \<subseteq> set ''0123456789''"
    using str_nat_digits [of "nat idx"] by (auto simp: f)
  show "digits_value (format_0d w idx) = nat idx"
    using assms by (rule digits_value_format)
  show "w \<le> length (format_0d w idx)"
    by (simp add: f)
qed

lemma format_0d_width_2: "0 \<le> idx \<Longrightarrow> idx < 100 \<Longrightarrow> length (format_0d 2 idx) = 2"
  using length_str_nat_100 [of "nat idx"] by (simp add: format_0d_def zfill_def)

lemma format_0d_width_3: "0 \<le> idx \<Longrightarrow> idx < 1000 \<Longrightarrow> length (format_0d 3 idx) = 3"
  using length_str_nat_1000 [of "nat idx"] by (simp add: format_0d_def zfill_def)

lemma distinct_range: "distinct (range n)"
  by (simp add: range_def distinct_map inj_on_def)

lemma distinct_chunk_filenames: "distinct (map chunk_filename (range n))"
  by (simp add: distinct_map distinct_range inj_on_def set_range chunk_filename_inj)

lemma distinct_chunk_filenames_b: "distinct (map chunk_filename_b (range n))"
  by (simp add: distinct_map distinct_range inj_on_def set_range chunk_filename_b_inj)

subsection \<open>Every chunk file of a run, and nothing else\<close>

lemma convert_files_frame:
  assumes "0 < c" "db_keywords db = Some ks" "db_embeddings db = Some e"
  shows "\<exists>fs'. convert_to_binary_chunks No_fault f32 db dir (int c) fs = (Inr (), fs')
           \<and> fs' (path_join dir ''metadata.json'') = Some (Json (metadata_of ks e (int c)))
           \<and> (\<forall>i < (length ks + c - 1) div c.
                 fs' (path_join dir (chunk_filename (int i))) = Some (Bin (chunk_data f32 ks e (int c) (int i))))
           \<and> (\<forall>p. p \<noteq> path_join dir ''metadata.json''
                 \<and> (\<forall>i < (length ks + c - 1) div c. p \<noteq> path_join dir (chunk_filename (int i)))
                 \<longrightarrow> fs' p = fs p)"
proof -
  let ?n = "(int (length ks) + int c - 1) div int c"
  let ?W = "chunks_written (\<lambda>idx. path_join dir (chunk_filename idx)) (chunk_data f32 ks e (int c)) ?n fs"
  let ?F = "?W(path_join dir ''metadata.json'' \<mapsto> Json (metadata_of ks e (int c)))"
  let ?M = "path_join dir ''metadata.json''"
  let ?P = "\<lambda>idx. path_join dir (chunk_filename idx)"
  have n: "?n = int ((length ks + c - 1) div c)" by (rule num_chunks_nat [OF assms(1)])
  have run: "convert_to_binary_chunks No_fault f32 db dir (int c) fs = (Inr (), ?F)"
    using assms by (intro convert_No_fault) simp_all
  have same: "?F (path_join dir (chunk_filename (int i))) = Some (Bin (chunk_data f32 ks e (int c) (int i)))"
    if "i < (length ks + c - 1) div c" for i
  proof -
    have "?W (path_join dir (chunk_filename (int i))) = Some (Bin (chunk_data f32 ks e (int c) (int i)))"
    proof (rule chunks_written_same)
      show "int i < ?n" using that by (simp only: n of_nat_less_iff)
    qed (simp_all add: chunk_path_inj)
    then show ?thesis by (simp add: chunk_path_not_metadata)
  qed
  have other: "?F p = fs p"
    if p: "p \<noteq> path_join dir ''metadata.json''
         \<and> (\<forall>i < (length ks + c - 1) div c. p \<noteq> path_join dir (chunk_filename (int i)))" for p
  proof -
    have "?W p = fs p"
    proof (rule chunks_written_other)
      fix idx :: int assume idx: "0 \<le> idx" "idx < ?n"
      then have "nat idx < (length ks + c - 1) div c" unfolding n by linarith
      with p have "p \<noteq> path_join dir (chunk_filename (int (nat idx)))" by blast
      with idx(1) show "path_join dir (chunk_filename idx) \<noteq> p" by simp
    qed
    with p show ?thesis by simp
  qed
  show ?thesis
  proof (intro exI [of _ ?F] conjI allI impI)
    show "?F p = fs p" if "p \<noteq> ?M \<and> (\<forall>i < (length ks + c - 1) div c. p \<noteq> ?P (int i))" for p
      using that by (rule other)
  qed (simp_all only: run same fun_upd_same)
qed

lemma main_with_files_frame:
  assumes "fs ''new_keywords/vector_database.pkl'' = Some (Pickle db)"
    and "db_keywords db = Some ks" "db_embeddings db = Some e"
    and "shape e = (int (length ks), d)" "0 < c"
  shows "\<exists>fs'. main_with (int c) d No_fault now f32 fs = (Inr (), fs')
           \<and> fs' ''data/embeddings_metadata.json'' = Some (Json (metadata_b_of ks (int c) d now))
           \<and> (\<forall>i < (length ks + c - 1) div c.
                 fs' (''data/embeddings_chunks/'' @ chunk_filename_b (int i))
                   = Some (Bin (chunk_data f32 ks e (int c) (int i))))
           \<and> (\<forall>p. p \<noteq> ''data/embeddings_metadata.json''
                 \<and> (\<forall>i < (length ks + c - 1) div c. p \<noteq> ''data/embeddings_chunks/'' @ chunk_filename_b (int i))
                 \<longrightarrow> fs' p = fs p)"
proof -
  let ?n = "(int (length ks) + int c - 1) div int c"
  let ?W = "chunks_written (\<lambda>idx. ''data/embeddings_chunks/'' @ chunk_filename_b idx)
         (chunk_data f32 ks e (int c)) ?n fs"
  let ?F = "?W(''data/embeddings_metadata.json'' \<mapsto> Json (metadata_b_of ks (int c) d now))"
  let ?M = "''data/embeddings_metadata.json''"
  let ?P = "\<lambda>idx. ''data/embeddings_chunks/'' @ chunk_filename_b idx"
  have n: "?n = int ((length ks + c - 1) div c)" by (rule num_chunks_nat [OF assms(5)])
  have run: "main_with (int c) d No_fault now f32 fs = (Inr (), ?F)"
    using assms by (intro main_with_No_fault) simp_all
  have same: "?F (''data/embeddings_chunks/'' @ chunk_filename_b (int i))
      = Some (Bin (chunk_data f32 ks e (int c) (int i)))"
    if "i < (length ks + c - 1) div c" for i
  proof -
    have "?W (''data/embeddings_chunks/'' @ chunk_filename_b (int i))
        = Some (Bin (chunk_data f32 ks e (int c) (int i)))"
    proof (rule chunks_written_same)
      show "int i < ?n" using that by (simp only: n of_nat_less_iff)
    qed (simp_all add: chunk_filename_b_inj)
    then show ?thesis by simp
  qed
  have other: "?F p = fs p"
    if p: "p \<noteq> ''data/embeddings_metadata.json''
         \<and> (\<forall>i < (length ks + c - 1) div c. p \<noteq> ''data/embeddings_chunks/'' @ chunk_filename_b (int i))" for p
  proof -
    have "?W p = fs p"
    proof (rule chunks_written_other)
      fix idx :: int assume idx: "0 \<le> idx" "idx < ?n"
      then have "nat idx < (length ks + c - 1) div c" unfolding n by linarith
      with p have "p \<noteq> ''data/embeddings_chunks/'' @ chunk_filename_b (int (nat idx))" by blast
      with idx(1) show "''data/embeddings_chunks/'' @ chunk_filename_b idx \<noteq> p" by simp
    qed
    with p show ?thesis by simp
  qed
  show ?thesis
  proof (intro exI [of _ ?F] conjI allI impI)
    show "?F p = fs p" if "p \<noteq> ?M \<and> (\<forall>i < (length ks + c - 1) div c. p \<noteq> ?P (int i))" for p
      using that by (rule other)
  qed (simp_all only: run same fun_upd_same)
qed

lemma chunk_count_int:
  assumes "0 < c" "i < (length ks + c - 1) div c"
  shows "int (length (take c (drop (i * c) ks))) = min (int c) (int (length ks) - int i * int c)"
proof -
  have "i * c < length ks" using assms by (rule chunk_start_lt)
  then have "int (length ks - i * c) = int (length ks) - int i * int c" by (simp add: of_nat_diff)
  moreover have "length (take c (drop (i * c) ks)) = min c (length ks - i * c)" by simp
  ultimately show ?thesis by (simp only: of_nat_min)
qed

lemma chunk_bytes_nat:
  assumes "0 < c" "length (rows e) = length ks" "well_shaped e" "i < (length ks + c - 1) div c"
    and "start = int i * int c" "count = min (int c) (int (length ks) - int i * int c)"
  shows "chunk_data f32 ks e (int c) (int i) =
           concat (map float32_le (concat (map (map f32) (take (nat count) (drop (nat start) (rows e))))))"
    and "int (length (chunk_data f32 ks e (int c) (int i))) = count * int (ncols e) * 4"
proof -
  have k: "count = int (length (take c (drop (i * c) ks)))"
    using chunk_count_int [OF assms(1,4)] assms(6) by (simp only:)
  have s: "nat start = i * c" by (simp add: assms(5) nat_mult_distrib)
  have r: "take (nat count) (drop (nat start) (rows e)) = take c (drop (i * c) (rows e))"
    unfolding k s nat_int using assms(2) by (rule chunk_rows_nat)
  show "chunk_data f32 ks e (int c) (int i) =
           concat (map float32_le (concat (map (map f32) (take (nat count) (drop (nat start) (rows e))))))"
    by (simp only: r chunk_data_nat [OF assms(2)])
  have "length (concat (map float32_le (concat (map (map f32) (take c (drop (i * c) (rows e)))))))
      = length (map (map f32) (take c (drop (i * c) (rows e)))) * ncols e * 4"
    using well_shaped_chunk [OF assms(3)] by (rule length_chunk_bytes)
  also have "length (map (map f32) (take c (drop (i * c) (rows e)))) = length (take c (drop (i * c) ks))"
    using assms(2) by simp
  finally have "int (length (chunk_data f32 ks e (int c) (int i)))
      = int (length (take c (drop (i * c) ks))) * int (ncols e) * 4"
    by (simp only: chunk_data_nat [OF assms(2)] of_nat_mult of_nat_numeral)
  then show "int (length (chunk_data f32 ks e (int c) (int i))) = count * int (ncols e) * 4"
    by (simp only: k)
qed

lemma chunk_info_fields:
  assumes "0 < c" "i < (length ks + c - 1) div c"
  shows "filename_a (chunk_info_at ks (int c) (int i)) = chunk_filename (int i)"
    and "start_index_a (chunk_info_at ks (int c) (int i)) = int i * int c"
    and "keyword_count_a (chunk_info_at ks (int c) (int i)) = min (int c) (int (length ks) - int i * int c)"
proof -
  show "filename_a (chunk_info_at ks (int c) (int i)) = chunk_filename (int i)"
    and "start_index_a (chunk_info_at ks (int c) (int i)) = int i * int c"
    by (simp_all add: chunk_info_at_def)
  have "keyword_count_a (chunk_info_at ks (int c) (int i)) = int (length (take c (drop (i * c) ks)))"
    unfolding chunk_info_at_nat by (simp del: length_take)
  then show "keyword_count_a (chunk_info_at ks (int c) (int i)) = min (int c) (int (length ks) - int i * int c)"
    by (simp only: chunk_count_int [OF assms])
qed

lemma chunk_entry_fields:
  assumes "0 < c" "i < (length ks + c - 1) div c"
  shows "file_path_b (chunk_entry_at ks (int c) (int i)) = chunk_filename_b (int i)"
    and "start_index_b (chunk_entry_at ks (int c) (int i)) = int i * int c"
    and "keyword_count_b (chunk_entry_at ks (int c) (int i)) = min (int c) (int (length ks) - int i * int c)"
proof -
  show "file_path_b (chunk_entry_at ks (int c) (int i)) = chunk_filename_b (int i)"
    and "start_index_b (chunk_entry_at ks (int c) (int i)) = int i * int c"
    by (simp_all add: chunk_entry_at_def)
  show "keyword_count_b (chunk_entry_at ks (int c) (int i)) = min (int c) (int (length ks) - int i * int c)"
    by (simp add: chunk_entry_at_def min_def)
qed

lemma chunks_a_nth:
  assumes "0 < c"
  shows "length (chunks_a (metadata_of ks e (int c))) = (length ks + c - 1) div c"
    and "i < (length ks + c - 1) div c \<Longrightarrow>
         chunks_a (metadata_of ks e (int c)) ! i = chunk_info_at ks (int c) (int i)"
  by (simp_all add: metadata_of_nat [OF assms])

lemma chunks_b_nth:
  assumes "0 < c"
  shows "length (chunks_b (metadata_b_of ks (int c) d now)) = (length ks + c - 1) div c"
    and "i < (length ks + c - 1) div c \<Longrightarrow>
         chunks_b (metadata_b_of ks (int c) d now) ! i = chunk_entry_at ks (int c) (int i)"
  by (simp_all add: metadata_b_of_nat [OF assms])

text \<open>
  C2. For a positive chunk size and an \<open>N \<times> D\<close> matrix for \<open>N\<close> keywords, a run without
  faults completes and writes one file for every chunk index below \<open>\<lceil>N / chunk_size\<rceil>\<close>,
  the file that the chunk's record names. It holds exactly the chunk's rows
  \<open>[start, start + keyword_count)\<close>, row after row, every value as its four float32
  bytes, least significant byte first, and nothing else; its length is
  \<open>keyword_count * D * 4\<close> bytes. Apart from these files and the metadata file the run
  changes no file.
\<close>

theorem chunk_file_layout:
  assumes "0 < chunk_size" "db_keywords db = Some ks" "db_embeddings db = Some e"
    and "length (rows e) = length ks" "well_shaped e"
  shows "(\<exists>m fs'. convert_to_binary_chunks No_fault f32 db dir chunk_size fs = (Inr (), fs')
            \<and> fs' (path_join dir ''metadata.json'') = Some (Json m)
            \<and> int (length (chunks_a m)) = (int (length ks) + chunk_size - 1) div chunk_size
            \<and> embedding_dimension_a m = int (ncols e)
            \<and> (\<forall>i < length (chunks_a m). \<exists>bs.
                  filename_a (chunks_a m ! i) = chunk_filename (int i)
                \<and> start_index_a (chunks_a m ! i) = int i * chunk_size
                \<and> keyword_count_a (chunks_a m ! i) = min chunk_size (int (length ks) - int i * chunk_size)
                \<and> fs' (path_join dir (chunk_filename (int i))) = Some (Bin bs)
                \<and> bs = concat (map float32_le (concat (map (map f32)
                         (take (nat (keyword_count_a (chunks_a m ! i)))
                            (drop (nat (start_index_a (chunks_a m ! i))) (rows e))))))
                \<and> int (length bs) = keyword_count_a (chunks_a m ! i) * embedding_dimension_a m * 4)
            \<and> (\<forall>p. fs' p \<noteq> fs p \<longrightarrow> p = path_join dir ''metadata.json''
                  \<or> (\<exists>i < length (chunks_a m). p = path_join dir (chunk_filename (int i)))))
       \<and> (fs_b ''new_keywords/vector_database.pkl'' = Some (Pickle db)
            \<and> shape e = (int (length ks), d) \<longrightarrow>
          (\<exists>m fs'. main_with chunk_size d No_fault now f32 fs_b = (Inr (), fs')
            \<and> fs' ''data/embeddings_metadata.json'' = Some (Json m)
            \<and> int (length (chunks_b m)) = (int (length ks) + chunk_size - 1) div chunk_size
            \<and> embedding_dimensions_b m = int (ncols e)
            \<and> (\<forall>i < length (chunks_b m). \<exists>bs.
                  file_path_b (chunks_b m ! i) = chunk_filename_b (int i)
                \<and> start_index_b (chunks_b m ! i) = int i * chunk_size
                \<and> keyword_count_b (chunks_b m ! i) = min chunk_size (int (length ks) - int i * chunk_size)
                \<and> fs' (''data/embeddings_chunks/'' @ chunk_filename_b (int i)) = Some (Bin bs)
                \<and> bs = concat (map float32_le (concat (map (map f32)
                         (take (nat (keyword_count_b (chunks_b m ! i)))
                            (drop (nat (start_index_b (chunks_b m ! i))) (rows e))))))
                \<and> int (length bs) = keyword_count_b (chunks_b m ! i) * embedding_dimensions_b m * 4)
            \<and> (\<forall>p. fs' p \<noteq> fs_b p \<longrightarrow> p = ''data/embeddings_metadata.json''
                  \<or> (\<exists>i < length (chunks_b m). p = ''data/embeddings_chunks/'' @ chunk_filename_b (int i)))))"
proof -
  from assms(1) obtain c where c: "chunk_size = int c" "0 < c" by (rule pos_int_obtain)
  let ?n = "(length ks + c - 1) div c"
  have n: "(int (length ks) + chunk_size - 1) div chunk_size = int ?n"
    unfolding c(1) by (rule num_chunks_nat [OF c(2)])
  have A: "(\<exists>m fs'. convert_to_binary_chunks No_fault f32 db dir chunk_size fs = (Inr (), fs')
            \<and> fs' (path_join dir ''metadata.json'') = Some (Json m)
            \<and> int (length (chunks_a m)) = (int (length ks) + chunk_size - 1) div chunk_size
            \<and> embedding_dimension_a m = int (ncols e)
            \<and> (\<forall>i < length (chunks_a m). \<exists>bs.
                  filename_a (chunks_a m ! i) = chunk_filename (int i)
                \<and> start_index_a (chunks_a m ! i) = int i * chunk_size
                \<and> keyword_count_a (chunks_a m ! i) = min chunk_size (int (length ks) - int i * chunk_size)
                \<and> fs' (path_join dir (chunk_filename (int i))) = Some (Bin bs)
                \<and> bs = concat (map float32_le (concat (map (map f32)
                         (take (nat (keyword_count_a (chunks_a m ! i)))
                            (drop (nat (start_index_a (chunks_a m ! i))) (rows e))))))
                \<and> int (length bs) = keyword_count_a (chunks_a m ! i) * embedding_dimension_a m * 4)
            \<and> (\<forall>p. fs' p \<noteq> fs p \<longrightarrow> p = path_join dir ''metadata.json''
                  \<or> (\<exists>i < length (chunks_a m). p = path_join dir (chunk_filename (int i)))))"
  proof -
    let ?m = "metadata_of ks e (int c)"
    from convert_files_frame [OF c(2) assms(2,3), of f32 dir fs] obtain fs'
      where run: "convert_to_binary_chunks No_fault f32 db dir (int c) fs = (Inr (), fs')"
        and man: "fs' (path_join dir ''metadata.json'') = Some (Json ?m)"
        and files: "\<forall>i < ?n. fs' (path_join dir (chunk_filename (int i)))
             = Some (Bin (chunk_data f32 ks e (int c) (int i)))"
        and frame: "\<forall>p. p \<noteq> path_join dir ''metadata.json''
                 \<and> (\<forall>i < ?n. p \<noteq> path_join dir (chunk_filename (int i))) \<longrightarrow> fs' p = fs p"
      by blast
    have len: "length (chunks_a ?m) = ?n" by (rule chunks_a_nth [OF c(2)])
    have dim: "embedding_dimension_a ?m = int (ncols e)"
      by (simp add: metadata_of_def shape_def)
    have per: "\<exists>bs.
                  filename_a (chunks_a ?m ! i) = chunk_filename (int i)
                \<and> start_index_a (chunks_a ?m ! i) = int i * int c
                \<and> keyword_count_a (chunks_a ?m ! i) = min (int c) (int (length ks) - int i * int c)
                \<and> fs' (path_join dir (chunk_filename (int i))) = Some (Bin bs)
                \<and> bs = concat (map float32_le (concat (map (map f32)
                         (take (nat (keyword_count_a (chunks_a ?m ! i)))
                            (drop (nat (start_index_a (chunks_a ?m ! i))) (rows e))))))
                \<and> int (length bs) = keyword_count_a (chunks_a ?m ! i) * embedding_dimension_a ?m * 4"
      if i: "i < ?n" for i
    proof -
      let ?x = "chunks_a ?m ! i"
      have x: "?x = chunk_info_at ks (int c) (int i)" using i by (rule chunks_a_nth [OF c(2)])
      have f: "filename_a ?x = chunk_filename (int i)"
        and s: "start_index_a ?x = int i * int c"
        and k: "keyword_count_a ?x = min (int c) (int (length ks) - int i * int c)"
        unfolding x by (rule chunk_info_fields [OF c(2) i])+
      from chunk_bytes_nat [OF c(2) assms(4,5) i s k, of f32]
      have b: "chunk_data f32 ks e (int c) (int i) =
           concat (map float32_le (concat (map (map f32)
             (take (nat (keyword_count_a ?x)) (drop (nat (start_index_a ?x)) (rows e))))))"
        and l: "int (length (chunk_data f32 ks e (int c) (int i))) = keyword_count_a ?x * int (ncols e) * 4"
        by blast+
      have w: "fs' (path_join dir (chunk_filename (int i))) = Some (Bin (chunk_data f32 ks e (int c) (int i)))"
        using files i by blast
      show ?thesis
        apply (rule exI [of _ "chunk_data f32 ks e (int c) (int i)"])
        using f s k w b l by (simp only: dim simp_thms)
    qed
    have fr: "p = path_join dir ''metadata.json''
                  \<or> (\<exists>i < length (chunks_a ?m). p = path_join dir (chunk_filename (int i)))"
      if "fs' p \<noteq> fs p" for p
      using that frame unfolding len by blast
    show ?thesis
      unfolding c(1)
      apply (rule exI [of _ ?m])
      apply (rule exI [of _ fs'])
      apply (intro conjI allI impI)
      subgoal by (rule run)
      subgoal by (rule man)
      subgoal using n by (simp only: len c(1))
      subgoal by (rule dim)
      subgoal for i using per [of i] by (simp only: len)
      subgoal for p by (rule fr)
      done
  qed
  have B: "(\<exists>m fs'. main_with chunk_size d No_fault now f32 fs_b = (Inr (), fs')
            \<and> fs' ''data/embeddings_metadata.json'' = Some (Json m)
            \<and> int (length (chunks_b m)) = (int (length ks) + chunk_size - 1) div chunk_size
            \<and> embedding_dimensions_b m = int (ncols e)
            \<and> (\<forall>i < length (chunks_b m). \<exists>bs.
                  file_path_b (chunks_b m ! i) = chunk_filename_b (int i)
                \<and> start_index_b (chunks_b m ! i) = int i * chunk_size
                \<and> keyword_count_b (chunks_b m ! i) = min chunk_size (int (length ks) - int i * chunk_size)
                \<and> fs' (''data/embeddings_chunks/'' @ chunk_filename_b (int i)) = Some (Bin bs)
                \<and> bs = concat (map float32_le (concat (map (map f32)
                         (take (nat (keyword_count_b (chunks_b m ! i)))
                            (drop (nat (start_index_b (chunks_b m ! i))) (rows e))))))
                \<and> int (length bs) = keyword_count_b (chunks_b m ! i) * embedding_dimensions_b m * 4)
            \<and> (\<forall>p. fs' p \<noteq> fs_b p \<longrightarrow> p = ''data/embeddings_metadata.json''
                  \<or> (\<exists>i < length (chunks_b m). p = ''data/embeddings_chunks/'' @ chunk_filename_b (int i))))"
    if hb: "fs_b ''new_keywords/vector_database.pkl'' = Some (Pickle db)
            \<and> shape e = (int (length ks), d)"
  proof -
    let ?m = "metadata_b_of ks (int c) d now"
    from main_with_files_frame [of fs_b db ks e d c now f32] hb assms(2,3) c(2) obtain fs'
      where run: "main_with (int c) d No_fault now f32 fs_b = (Inr (), fs')"
        and man: "fs' ''data/embeddings_metadata.json'' = Some (Json ?m)"
        and files: "\<forall>i < ?n. fs' (''data/embeddings_chunks/'' @ chunk_filename_b (int i))
             = Some (Bin (chunk_data f32 ks e (int c) (int i)))"
        and frame: "\<forall>p. p \<noteq> ''data/embeddings_metadata.json''
                 \<and> (\<forall>i < ?n. p \<noteq> ''data/embeddings_chunks/'' @ chunk_filename_b (int i)) \<longrightarrow> fs' p = fs_b p"
      by blast
    have len: "length (chunks_b ?m) = ?n" by (rule chunks_b_nth [OF c(2)])
    have dim: "embedding_dimensions_b ?m = int (ncols e)"
      using hb by (simp add: metadata_b_of_def shape_def)
    have per: "\<exists>bs.
                  file_path_b (chunks_b ?m ! i) = chunk_filename_b (int i)
                \<and> start_index_b (chunks_b ?m ! i) = int i * int c
                \<and> keyword_count_b (chunks_b ?m ! i) = min (int c) (int (length ks) - int i * int c)
                \<and> fs' (''data/embeddings_chunks/'' @ chunk_filename_b (int i)) = Some (Bin bs)
                \<and> bs = concat (map float32_le (concat (map (map f32)
                         (take (nat (keyword_count_b (chunks_b ?m ! i)))
                            (drop (nat (start_index_b (chunks_b ?m ! i))) (rows e))))))
                \<and> int (length bs) = keyword_count_b (chunks_b ?m ! i) * embedding_dimensions_b ?m * 4"
      if i: "i < ?n" for i
    proof -
      let ?x = "chunks_b ?m ! i"
      have x: "?x = chunk_entry_at ks (int c) (int i)" using i by (rule chunks_b_nth [OF c(2)])
      have f: "file_path_b ?x = chunk_filename_b (int i)"
        and s: "start_index_b ?x = int i * int c"
        and k: "keyword_count_b ?x = min (int c) (int (length ks) - int i * int c)"
        unfolding x by (rule chunk_entry_fields [OF c(2) i])+
      from chunk_bytes_nat [OF c(2) assms(4,5) i s k, of f32]
      have b: "chunk_data f32 ks e (int c) (int i) =
           concat (map float32_le (concat (map (map f32)
             (take (nat (keyword_count_b ?x)) (drop (nat (start_index_b ?x)) (rows e))))))"
        and l: "int (length (chunk_data f32 ks e (int c) (int i))) = keyword_count_b ?x * int (ncols e) * 4"
        by blast+
      have w: "fs' (''data/embeddings_chunks/'' @ chunk_filename_b (int i))
          = Some (Bin (chunk_data f32 ks e (int c) (int i)))"
        using files i by blast
      show ?thesis
        apply (rule exI [of _ "chunk_data f32 ks e (int c) (int i)"])
        using f s k w b l by (simp only: dim simp_thms)
    qed
    have fr: "p = ''data/embeddings_metadata.json''
                  \<or> (\<exists>i < length (chunks_b ?m). p = ''data/embeddings_chunks/'' @ chunk_filename_b (int i))"
      if "fs' p \<noteq> fs_b p" for p
      using that frame unfolding len by blast
    show ?thesis
      unfolding c(1)
      apply (rule exI [of _ ?m])
      apply (rule exI [of _ fs'])
      apply (intro conjI allI impI)
      subgoal by (rule run)
      subgoal by (rule man)
      subgoal using n by (simp only: len c(1))
      subgoal by (rule dim)
      subgoal for i using per [of i] by (simp only: len)
      subgoal for p by (rule fr)
      done
  qed
  from A B show ?thesis by blast
qed

text \<open>
  C2 on the scenario of the specification, for both scripts: three keywords, two
  dimensions and chunk size 2 give two chunk files, of 16 and of 8 bytes.
\<close>

theorem chunk_file_layout_witness:
  "(\<exists>m fs'. convert_to_binary_chunks No_fault id scenario ''out'' 2 Map.empty = (Inr (), fs')
      \<and> fs' ''out/metadata.json'' = Some (Json m)
      \<and> length (chunks_a m) = 2
      \<and> map filename_a (chunks_a m) = [''chunk_00.bin'', ''chunk_01.bin'']
      \<and> fs' ''out/chunk_00.bin'' = Some (Bin [1, 0, 0, 0, 2, 0, 0, 0, 3, 0, 0, 0, 4, 0, 0, 0])
      \<and> fs' ''out/chunk_01.bin'' = Some (Bin [5, 0, 0, 0, 6, 0, 0, 0])
      \<and> dom fs' = {''out/metadata.json'', ''out/chunk_00.bin'', ''out/chunk_01.bin''})
   \<and> (\<exists>m fs'. main_with 2 2 No_fault ''t'' id scenario_fs = (Inr (), fs')
      \<and> fs' ''data/embeddings_metadata.json'' = Some (Json m)
      \<and> length (chunks_b m) = 2
      \<and> map file_path_b (chunks_b m) = [''chunk_000.bin'', ''chunk_001.bin'']
      \<and> fs' ''data/embeddings_chunks/chunk_000.bin'' = Some (Bin [1, 0, 0, 0, 2, 0, 0, 0, 3, 0, 0, 0, 4, 0, 0, 0])
      \<and> fs' ''data/embeddings_chunks/chunk_001.bin'' = Some (Bin [5, 0, 0, 0, 6, 0, 0, 0]))"
proof -
  let ?e = "\<lparr>rows = [[1, 2], [3, 4], [5, 6 :: float32]], ncols = 2\<rparr>"
  let ?ks = "[''a'', ''b'', ''c'']"
  have h1: "(0::int) < 2" by simp
  have h2: "db_keywords scenario = Some ?ks" by (simp add: scenario_def)
  have h3: "db_embeddings scenario = Some ?e" by (simp add: scenario_def)
  have h4: "length (rows ?e) = length ?ks" by simp
  have h5: "well_shaped ?e" by (simp add: well_shaped_def)
  have h6: "scenario_fs ''new_keywords/vector_database.pkl'' = Some (Pickle scenario)
      \<and> shape ?e = (int (length ?ks), 2)"
    by (simp add: scenario_fs_def shape_def)
  note th = chunk_file_layout [OF h1 h2 h3 h4 h5, of id "''out''" Map.empty scenario_fs 2 "''t''"]
  have p: "path_join ''out'' ''metadata.json'' = ''out/metadata.json''"
    "path_join ''out'' (chunk_filename 0) = ''out/chunk_00.bin''"
    "path_join ''out'' (chunk_filename 1) = ''out/chunk_01.bin''"
    "chunk_filename 0 = ''chunk_00.bin''" "chunk_filename 1 = ''chunk_01.bin''"
    "chunk_filename_b 0 = ''chunk_000.bin''" "chunk_filename_b 1 = ''chunk_001.bin''"
    "path_join ''out'' ''chunk_00.bin'' = ''out/chunk_00.bin''"
    "path_join ''out'' ''chunk_01.bin'' = ''out/chunk_01.bin''"
    by code_simp+
  have b: "concat (map float32_le (concat (map (map id) (take 2 (drop 0 (rows ?e))))))
      = [1, 0, 0, 0, 2, 0, 0, 0, 3, 0, 0, 0, 4, 0, 0, 0]"
    "concat (map float32_le (concat (map (map id) (take 1 (drop 2 (rows ?e))))))
      = [5, 0, 0, 0, 6, 0, 0, 0]"
    by code_simp+
  have ex2: "(\<exists>i < (2::nat). P i) \<longleftrightarrow> P 0 \<or> P 1" for P
    by (auto simp: less_Suc_eq numeral_2_eq_2)
  have names: "map f xs = [f (xs ! 0), f (xs ! 1)]" if "length xs = 2" for f :: "'x \<Rightarrow> string" and xs
    using that by (cases xs; cases "tl xs") auto
  from th [THEN conjunct1] obtain m fs'
    where run: "convert_to_binary_chunks No_fault id scenario ''out'' 2 Map.empty = (Inr (), fs')"
      and man: "fs' (path_join ''out'' ''metadata.json'') = Some (Json m)"
      and len': "int (length (chunks_a m)) = (int (length ?ks) + 2 - 1) div 2"
      and per: "\<forall>i < length (chunks_a m). \<exists>bs.
                  filename_a (chunks_a m ! i) = chunk_filename (int i)
                \<and> start_index_a (chunks_a m ! i) = int i * 2
                \<and> keyword_count_a (chunks_a m ! i) = min 2 (int (length ?ks) - int i * 2)
                \<and> fs' (path_join ''out'' (chunk_filename (int i))) = Some (Bin bs)
                \<and> bs = concat (map float32_le (concat (map (map id)
                         (take (nat (keyword_count_a (chunks_a m ! i)))
                            (drop (nat (start_index_a (chunks_a m ! i))) (rows ?e))))))
                \<and> int (length bs) = keyword_count_a (chunks_a m ! i) * embedding_dimension_a m * 4"
      and frame: "\<forall>p. fs' p \<noteq> Map.empty p \<longrightarrow> p = path_join ''out'' ''metadata.json''
                  \<or> (\<exists>i < length (chunks_a m). p = path_join ''out'' (chunk_filename (int i)))"
    by (elim exE conjE) (rule that)
  from len' have len: "length (chunks_a m) = 2" by simp
  from per [rule_format, of 0] len
  have f0: "filename_a (chunks_a m ! 0) = ''chunk_00.bin''"
    and c0: "fs' ''out/chunk_00.bin'' = Some (Bin [1, 0, 0, 0, 2, 0, 0, 0, 3, 0, 0, 0, 4, 0, 0, 0])"
    using b(1) by (auto simp: p)
  from per [rule_format, of 1] len
  have f1: "filename_a (chunks_a m ! 1) = ''chunk_01.bin''"
    and c1: "fs' ''out/chunk_01.bin'' = Some (Bin [5, 0, 0, 0, 6, 0, 0, 0])"
    using b(2) by (auto simp: p)
  have man': "fs' ''out/metadata.json'' = Some (Json m)" using man by (simp only: p)
  have d: "dom fs' = {''out/metadata.json'', ''out/chunk_00.bin'', ''out/chunk_01.bin''}"
  proof (rule set_eqI)
    fix q
    from frame have "fs' q \<noteq> None \<longrightarrow> q = ''out/metadata.json'' \<or> q = ''out/chunk_00.bin'' \<or> q = ''out/chunk_01.bin''"
      unfolding len ex2 by (simp add: p)
    with man' c0 c1 show "q \<in> dom fs' \<longleftrightarrow> q \<in> {''out/metadata.json'', ''out/chunk_00.bin'', ''out/chunk_01.bin''}"
      by (auto simp: dom_def)
  qed
  have A: "\<exists>m fs'. convert_to_binary_chunks No_fault id scenario ''out'' 2 Map.empty = (Inr (), fs')
      \<and> fs' ''out/metadata.json'' = Some (Json m)
      \<and> length (chunks_a m) = 2
      \<and> map filename_a (chunks_a m) = [''chunk_00.bin'', ''chunk_01.bin'']
      \<and> fs' ''out/chunk_00.bin'' = Some (Bin [1, 0, 0, 0, 2, 0, 0, 0, 3, 0, 0, 0, 4, 0, 0, 0])
      \<and> fs' ''out/chunk_01.bin'' = Some (Bin [5, 0, 0, 0, 6, 0, 0, 0])
      \<and> dom fs' = {''out/metadata.json'', ''out/chunk_00.bin'', ''out/chunk_01.bin''}"
    apply (rule exI [of _ m])
    apply (rule exI [of _ fs'])
    using run man' len names [OF len, of filename_a] f0 f1 c0 c1 d by (simp only: simp_thms)
  from th [THEN conjunct2, rule_format, OF h6] obtain mb fb
    where runb: "main_with 2 2 No_fault ''t'' id scenario_fs = (Inr (), fb)"
      and manb: "fb ''data/embeddings_metadata.json'' = Some (Json mb)"
      and lenb': "int (length (chunks_b mb)) = (int (length ?ks) + 2 - 1) div 2"
      and perb: "\<forall>i < length (chunks_b mb). \<exists>bs.
                  file_path_b (chunks_b mb ! i) = chunk_filename_b (int i)
                \<and> start_index_b (chunks_b mb ! i) = int i * 2
                \<and> keyword_count_b (chunks_b mb ! i) = min 2 (int (length ?ks) - int i * 2)
                \<and> fb (''data/embeddings_chunks/'' @ chunk_filename_b (int i)) = Some (Bin bs)
                \<and> bs = concat (map float32_le (concat (map (map id)
                         (take (nat (keyword_count_b (chunks_b mb ! i)))
                            (drop (nat (start_index_b (chunks_b mb ! i))) (rows ?e))))))
                \<and> int (length bs) = keyword_count_b (chunks_b mb ! i) * embedding_dimensions_b mb * 4"
    by (elim exE conjE) (rule that)
  from lenb' have lenb: "length (chunks_b mb) = 2" by simp
  from perb [rule_format, of 0] lenb
  have g0: "file_path_b (chunks_b mb ! 0) = ''chunk_000.bin''"
    and e0: "fb ''data/embeddings_chunks/chunk_000.bin'' = Some (Bin [1, 0, 0, 0, 2, 0, 0, 0, 3, 0, 0, 0, 4, 0, 0, 0])"
    using b(1) by (auto simp: p)
  from perb [rule_format, of 1] lenb
  have g1: "file_path_b (chunks_b mb ! 1) = ''chunk_001.bin''"
    and e1: "fb ''data/embeddings_chunks/chunk_001.bin'' = Some (Bin [5, 0, 0, 0, 6, 0, 0, 0])"
    using b(2) by (auto simp: p)
  have B: "\<exists>m fs'. main_with 2 2 No_fault ''t'' id scenario_fs = (Inr (), fs')
      \<and> fs' ''data/embeddings_metadata.json'' = Some (Json m)
      \<and> length (chunks_b m) = 2
      \<and> map file_path_b (chunks_b m) = [''chunk_000.bin'', ''chunk_001.bin'']
      \<and> fs' ''data/embeddings_chunks/chunk_000.bin'' = Some (Bin [1, 0, 0, 0, 2, 0, 0, 0, 3, 0, 0, 0, 4, 0, 0, 0])
      \<and> fs' ''data/embeddings_chunks/chunk_001.bin'' = Some (Bin [5, 0, 0, 0, 6, 0, 0, 0])"
    apply (rule exI [of _ mb])
    apply (rule exI [of _ fb])
    using runb manb lenb names [OF lenb, of file_path_b] g0 g1 e0 e1 by (simp only: simp_thms)
  from A B show ?thesis by (rule conjI)
qed

subsection \<open>The loaders\<close>

text \<open>
  C5 (as amended). Given a path that is absent or holds a pickled container:
  \<^item> \<^verbatim>\<open>main\<close> of \<^verbatim>\<open>convert-pickle-to-binary.py\<close> (lines 20-35) fails with
    \<open>FileNotFoundError\<close> exactly if the path is absent, with \<open>KeyError\<close> exactly if the
    container lacks \<^verbatim>\<open>embeddings\<close> or \<^verbatim>\<open>keywords\<close>, and with \<open>ValueError\<close> exactly if both
    are present and the row count differs from the number of keywords or the column count
    differs from \<open>EMBEDDING_DIM\<close>; otherwise it goes on with the embeddings and keywords of
    the container, unchanged;
  \<^item> \<^verbatim>\<open>load_pickle_database\<close> fails with \<open>FileNotFoundError\<close> exactly if the path is absent
    and with \<open>KeyError\<close> exactly if the container lacks a field; whatever it returns is the
    container, unchanged, with both fields; and it returns the container whenever both
    fields are present and the matrix has one row for every keyword. The \<^verbatim>\<open>main\<close> that
    calls it returns without loading exactly if the path is absent.
\<close>

theorem loader_contract:
  "(fs_b ''new_keywords/vector_database.pkl'' = None
      \<or> (\<exists>c. fs_b ''new_keywords/vector_database.pkl'' = Some (Pickle c)) \<longrightarrow>
      (main_load d fs_b = Inl FileNotFoundError \<longleftrightarrow> fs_b ''new_keywords/vector_database.pkl'' = None)
    \<and> (\<forall>c. fs_b ''new_keywords/vector_database.pkl'' = Some (Pickle c) \<longrightarrow>
          ((\<exists>k. main_load d fs_b = Inl (KeyError k)) \<longleftrightarrow> db_embeddings c = None \<or> db_keywords c = None)
        \<and> (main_load d fs_b = Inl ValueError \<longleftrightarrow>
             (\<exists>e ks. db_embeddings c = Some e \<and> db_keywords c = Some ks
                \<and> (length (rows e) \<noteq> length ks \<or> int (ncols e) \<noteq> d)))
        \<and> (\<forall>e ks. db_embeddings c = Some e \<and> db_keywords c = Some ks
                \<and> length (rows e) = length ks \<and> int (ncols e) = d \<longrightarrow>
              main_load d fs_b = Inr (e, ks))))
   \<and> (fs p = None \<or> (\<exists>c. fs p = Some (Pickle c)) \<longrightarrow>
      (load_pickle_database p fs = Inl FileNotFoundError \<longleftrightarrow> fs p = None)
    \<and> (main_load_database p fs = Inr None \<longleftrightarrow> fs p = None)
    \<and> (\<forall>c. fs p = Some (Pickle c) \<longrightarrow>
          ((\<exists>k. load_pickle_database p fs = Inl (KeyError k)) \<longleftrightarrow> db_keywords c = None \<or> db_embeddings c = None)
        \<and> (\<forall>c'. load_pickle_database p fs = Inr c' \<longrightarrow>
              c' = c \<and> db_keywords c \<noteq> None \<and> db_embeddings c \<noteq> None)
        \<and> (\<forall>ks e. db_keywords c = Some ks \<and> db_embeddings c = Some e
                \<and> length (rows e) = length ks \<longrightarrow>
              load_pickle_database p fs = Inr c \<and> main_load_database p fs = Inr (Some c))))"
proof (intro conjI impI)
  assume "fs_b ''new_keywords/vector_database.pkl'' = None
      \<or> (\<exists>c. fs_b ''new_keywords/vector_database.pkl'' = Some (Pickle c))"
  then show "main_load d fs_b = Inl FileNotFoundError \<longleftrightarrow> fs_b ''new_keywords/vector_database.pkl'' = None"
    by (auto simp: main_load_def Let_def split: option.splits if_splits)
next
  show "\<forall>c. fs_b ''new_keywords/vector_database.pkl'' = Some (Pickle c) \<longrightarrow>
          ((\<exists>k. main_load d fs_b = Inl (KeyError k)) \<longleftrightarrow> db_embeddings c = None \<or> db_keywords c = None)
        \<and> (main_load d fs_b = Inl ValueError \<longleftrightarrow>
             (\<exists>e ks. db_embeddings c = Some e \<and> db_keywords c = Some ks
                \<and> (length (rows e) \<noteq> length ks \<or> int (ncols e) \<noteq> d)))
        \<and> (\<forall>e ks. db_embeddings c = Some e \<and> db_keywords c = Some ks
                \<and> length (rows e) = length ks \<and> int (ncols e) = d \<longrightarrow>
              main_load d fs_b = Inr (e, ks))"
  proof (intro allI impI)
    fix c assume c: "fs_b ''new_keywords/vector_database.pkl'' = Some (Pickle c)"
    show "((\<exists>k. main_load d fs_b = Inl (KeyError k)) \<longleftrightarrow> db_embeddings c = None \<or> db_keywords c = None)
        \<and> (main_load d fs_b = Inl ValueError \<longleftrightarrow>
             (\<exists>e ks. db_embeddings c = Some e \<and> db_keywords c = Some ks
                \<and> (length (rows e) \<noteq> length ks \<or> int (ncols e) \<noteq> d)))
        \<and> (\<forall>e ks. db_embeddings c = Some e \<and> db_keywords c = Some ks
                \<and> length (rows e) = length ks \<and> int (ncols e) = d \<longrightarrow>
              main_load d fs_b = Inr (e, ks))"
    proof (cases "db_embeddings c")
      case None
      then show ?thesis by (simp add: main_load_def c)
    next
      case e: (Some e)
      show ?thesis
      proof (cases "db_keywords c")
        case None
        with e show ?thesis by (simp add: main_load_def c)
      next
        case (Some ks)
        with e show ?thesis by (auto simp add: main_load_def c shape_def)
      qed
    qed
  qed
next
  assume "fs p = None \<or> (\<exists>c. fs p = Some (Pickle c))"
  then show "load_pickle_database p fs = Inl FileNotFoundError \<longleftrightarrow> fs p = None"
    by (auto simp: load_pickle_database_def split: option.splits)
next
  show "main_load_database p fs = Inr None \<longleftrightarrow> fs p = None"
    by (auto simp: main_load_database_def split: sum.splits)
next
  show "\<forall>c. fs p = Some (Pickle c) \<longrightarrow>
          ((\<exists>k. load_pickle_database p fs = Inl (KeyError k)) \<longleftrightarrow> db_keywords c = None \<or> db_embeddings c = None)
        \<and> (\<forall>c'. load_pickle_database p fs = Inr c' \<longrightarrow>
              c' = c \<and> db_keywords c \<noteq> None \<and> db_embeddings c \<noteq> None)
        \<and> (\<forall>ks e. db_keywords c = Some ks \<and> db_embeddings c = Some e
                \<and> length (rows e) = length ks \<longrightarrow>
              load_pickle_database p fs = Inr c \<and> main_load_database p fs = Inr (Some c))"
    by (auto simp: load_pickle_database_def main_load_database_def split: option.splits)
qed

text \<open>
  C5 as stated fails for \<^verbatim>\<open>main\<close> of \<^verbatim>\<open>convert-pickle-to-binary.py\<close>: a container with both
  fields, one keyword and one row of two values is refused with \<open>ValueError\<close>, although
  the row count is the number of keywords.
\<close>

theorem loader_contract_counterexample:
  "fst (main No_fault ''t'' id
     [''new_keywords/vector_database.pkl'' \<mapsto>
        Pickle \<lparr>db_keywords = Some [''a''],
                db_embeddings = Some \<lparr>rows = [[1, 2 :: float32]], ncols = 2\<rparr>\<rparr>]) = Inl ValueError
   \<and> main_load EMBEDDING_DIM
     ([''new_keywords/vector_database.pkl'' \<mapsto>
        Pickle \<lparr>db_keywords = Some [''a''],
                db_embeddings = Some \<lparr>rows = [[1, 2 :: float32]], ncols = 2\<rparr>\<rparr>]
       :: (float32, metadata) fs) = Inl ValueError
   \<and> length (rows \<lparr>rows = [[1, 2 :: float32]], ncols = 2\<rparr>) = length [''a'']"
  by (simp add: main_def main_with_def main_load_def shape_def EMBEDDING_DIM_def)

text \<open>
  C5 (as amended) on concrete file systems: the scenario of the specification is loaded
  by both scripts, an absent path is reported by both, a container without keywords is
  refused by both, and \<^verbatim>\<open>main\<close> of \<^verbatim>\<open>convert-pickle-to-binary.py\<close> refuses a wrong number
  of rows.
\<close>

theorem loader_contract_witness:
  "main_load 2 scenario_fs =
      Inr (\<lparr>rows = [[1, 2], [3, 4], [5, 6 :: float32]], ncols = 2\<rparr>, [''a'', ''b'', ''c''])
   \<and> main_load EMBEDDING_DIM (Map.empty :: (float32, metadata) fs) = Inl FileNotFoundError
   \<and> main_load EMBEDDING_DIM
        ([''new_keywords/vector_database.pkl'' \<mapsto>
           Pickle \<lparr>db_keywords = Some [''a'', ''b''],
                   db_embeddings = Some \<lparr>rows = [replicate 384 (0 :: float32)], ncols = 384\<rparr>\<rparr>]
          :: (float32, metadata) fs)
      = Inl ValueError
   \<and> (\<exists>k. main_load EMBEDDING_DIM
        ([''new_keywords/vector_database.pkl'' \<mapsto>
           Pickle \<lparr>db_keywords = None,
                   db_embeddings = Some \<lparr>rows = [replicate 384 (0 :: float32)], ncols = 384\<rparr>\<rparr>]
          :: (float32, metadata) fs)
      = Inl (KeyError k))
   \<and> load_pickle_database ''p'' (Map.empty :: (float32, chunk_metadata) fs) = Inl FileNotFoundError
   \<and> main_load_database ''p'' (Map.empty :: (float32, chunk_metadata) fs) = Inr None
   \<and> (\<exists>k. load_pickle_database ''p''
        ([''p'' \<mapsto> Pickle \<lparr>db_keywords = None,
                   db_embeddings = Some \<lparr>rows = [[0 :: float32]], ncols = 1\<rparr>\<rparr>] :: (float32, chunk_metadata) fs)
      = Inl (KeyError k))
   \<and> load_pickle_database ''p'' ([''p'' \<mapsto> Pickle scenario] :: (float32, chunk_metadata) fs)
      = Inr scenario
   \<and> main_load_database ''p'' ([''p'' \<mapsto> Pickle scenario] :: (float32, chunk_metadata) fs)
      = Inr (Some scenario)"
proof -
  let ?e = "\<lparr>rows = [[1, 2], [3, 4], [5, 6 :: float32]], ncols = 2\<rparr>"
  let ?short = "\<lparr>db_keywords = Some [''a'', ''b''],
                   db_embeddings = Some \<lparr>rows = [replicate 384 (0 :: float32)], ncols = 384\<rparr>\<rparr>"
  let ?nok = "\<lparr>db_keywords = None,
                   db_embeddings = Some \<lparr>rows = [replicate 384 (0 :: float32)], ncols = 384\<rparr>\<rparr>"
  let ?nok1 = "\<lparr>db_keywords = None, db_embeddings = Some \<lparr>rows = [[0 :: float32]], ncols = 1\<rparr>\<rparr>"
  let ?sfs = "[''new_keywords/vector_database.pkl'' \<mapsto> Pickle ?short] :: (float32, metadata) fs"
  let ?kfs = "[''new_keywords/vector_database.pkl'' \<mapsto> Pickle ?nok] :: (float32, metadata) fs"
  let ?efs = "Map.empty :: (float32, chunk_metadata) fs"
  let ?pfs = "[''p'' \<mapsto> Pickle scenario] :: (float32, chunk_metadata) fs"
  let ?qfs = "[''p'' \<mapsto> Pickle ?nok1] :: (float32, chunk_metadata) fs"
  have s1: "scenario_fs ''new_keywords/vector_database.pkl'' = Some (Pickle scenario)"
    by (simp add: scenario_fs_def)
  have s2: "db_embeddings scenario = Some ?e \<and> db_keywords scenario = Some [''a'', ''b'', ''c'']
      \<and> length (rows ?e) = length [''a'', ''b'', ''c''] \<and> int (ncols ?e) = 2"
    by (simp add: scenario_def)
  note b1 = loader_contract [where fs_b = scenario_fs and d = 2 and p = "''p''" and fs = ?pfs,
      THEN conjunct1, THEN mp, OF disjI2, OF exI, OF s1]
  note b1' = b1 [THEN conjunct2, THEN spec, THEN mp, OF s1]
  have A: "main_load 2 scenario_fs = Inr (?e, [''a'', ''b'', ''c''])"
    by (rule b1' [THEN conjunct2, THEN conjunct2, THEN spec, THEN spec, THEN mp, OF s2])
  have e0: "(Map.empty :: (float32, metadata) fs) ''new_keywords/vector_database.pkl'' = None" by simp
  note b2 = loader_contract [where fs_b = "Map.empty :: (float32, metadata) fs" and d = EMBEDDING_DIM
      and p = "''p''" and fs = ?pfs, THEN conjunct1, THEN mp, OF disjI1, OF e0]
  have B: "main_load EMBEDDING_DIM (Map.empty :: (float32, metadata) fs) = Inl FileNotFoundError"
    by (rule b2 [THEN conjunct1, THEN iffD2, OF e0])
  have s3: "?sfs ''new_keywords/vector_database.pkl'' = Some (Pickle ?short)" by simp
  have s4: "\<exists>e ks. db_embeddings ?short = Some e \<and> db_keywords ?short = Some ks
                \<and> (length (rows e) \<noteq> length ks \<or> int (ncols e) \<noteq> EMBEDDING_DIM)"
    by simp
  note b3 = loader_contract [where fs_b = ?sfs and d = EMBEDDING_DIM and p = "''p''" and fs = ?pfs,
      THEN conjunct1, THEN mp, OF disjI2, OF exI, OF s3]
  note b3' = b3 [THEN conjunct2, THEN spec, THEN mp, OF s3]
  have C: "main_load EMBEDDING_DIM ?sfs = Inl ValueError"
    by (rule b3' [THEN conjunct2, THEN conjunct1, THEN iffD2, OF s4])
  have k3: "?kfs ''new_keywords/vector_database.pkl'' = Some (Pickle ?nok)" by simp
  have k4: "db_embeddings ?nok = None \<or> db_keywords ?nok = None" by simp
  note b4 = loader_contract [where fs_b = ?kfs and d = EMBEDDING_DIM and p = "''p''" and fs = ?pfs,
      THEN conjunct1, THEN mp, OF disjI2, OF exI, OF k3]
  note b4' = b4 [THEN conjunct2, THEN spec, THEN mp, OF k3]
  have K: "\<exists>k. main_load EMBEDDING_DIM ?kfs = Inl (KeyError k)"
    by (rule b4' [THEN conjunct1, THEN iffD2, OF k4])
  have p0: "?efs ''p'' = None" by simp
  note a1 = loader_contract [where fs_b = scenario_fs and d = 2 and p = "''p''"
      and fs = ?efs, THEN conjunct2, THEN mp, OF disjI1, OF p0]
  have D: "load_pickle_database ''p'' ?efs = Inl FileNotFoundError"
    by (rule a1 [THEN conjunct1, THEN iffD2, OF p0])
  have E: "main_load_database ''p'' ?efs = Inr None"
    by (rule a1 [THEN conjunct2, THEN conjunct1, THEN iffD2, OF p0])
  have q1: "?qfs ''p'' = Some (Pickle ?nok1)" by simp
  have q2: "db_keywords ?nok1 = None \<or> db_embeddings ?nok1 = None" by simp
  note a2 = loader_contract [where fs_b = scenario_fs and d = 2 and p = "''p''" and fs = ?qfs,
      THEN conjunct2, THEN mp, OF disjI2, OF exI, OF q1]
  note a2' = a2 [THEN conjunct2, THEN conjunct2, THEN spec, THEN mp, OF q1]
  have Q: "\<exists>k. load_pickle_database ''p'' ?qfs = Inl (KeyError k)"
    by (rule a2' [THEN conjunct1, THEN iffD2, OF q2])
  have p1: "?pfs ''p'' = Some (Pickle scenario)" by simp
  have p2: "db_keywords scenario = Some [''a'', ''b'', ''c''] \<and> db_embeddings scenario = Some ?e
      \<and> length (rows ?e) = length [''a'', ''b'', ''c'']"
    by (simp add: scenario_def)
  note a3 = loader_contract [where fs_b = scenario_fs and d = 2 and p = "''p''" and fs = ?pfs,
      THEN conjunct2, THEN mp, OF disjI2, OF exI, OF p1]
  note a3' = a3 [THEN conjunct2, THEN conjunct2, THEN spec, THEN mp, OF p1]
  note a3'' = a3' [THEN conjunct2, THEN conjunct2, THEN spec, THEN spec, THEN mp, OF p2]
  have F: "load_pickle_database ''p'' ?pfs = Inr scenario" by (rule a3'' [THEN conjunct1])
  have G: "main_load_database ''p'' ?pfs = Inr (Some scenario)" by (rule a3'' [THEN conjunct2])
  from A B C K D E Q F G show ?thesis by (intro conjI)
qed

subsection \<open>Digits of a chunk file name\<close>

lemma str_nat_step: "10 \<le> n \<Longrightarrow> str_nat n = str_nat (n div 10) @ [char_of (48 + n mod 10)]"
  by (subst str_nat.simps) simp

lemma length_str_nat_ge2: "10 \<le> n \<Longrightarrow> 2 \<le> length (str_nat n)"
proof -
  assume n: "10 \<le> n"
  have "0 < length (str_nat (n div 10))" by (rule length_str_nat_pos)
  then have "2 \<le> length (str_nat (n div 10) @ [char_of (48 + n mod 10)])"
    by (simp only: length_append list.size)
  then show ?thesis by (simp only: str_nat_step [OF n])
qed

lemma length_str_nat_ge3: "100 \<le> n \<Longrightarrow> 3 \<le> length (str_nat n)"
  using length_str_nat_ge2 [of "n div 10"] by (simp add: str_nat_step)

lemma length_str_nat_ge4: "1000 \<le> n \<Longrightarrow> 4 \<le> length (str_nat n)"
  using length_str_nat_ge3 [of "n div 10"] by (simp add: str_nat_step)

lemma str_nat_not_Nil: "str_nat n \<noteq> []"
  using length_str_nat_pos [of n] by auto

lemma hd_str_nat: "0 < n \<Longrightarrow> hd (str_nat n) \<noteq> CHR ''0''"
proof (induction n rule: str_nat.induct)
  case (1 n)
  show ?case
  proof (cases "n < 10")
    case True
    then have s: "str_nat n = [char_of (48 + n)]" by (subst str_nat.simps) simp
    have "of_char (char_of (48 + n) :: char) = (48 + n :: nat)" using True by (rule of_char_digit)
    moreover have "of_char (CHR ''0'') = (48 :: nat)" by simp
    ultimately have "char_of (48 + n) \<noteq> CHR ''0''" using "1.prems" by (metis add_cancel_right_right less_numeral_extra(3))
    then show ?thesis by (simp add: s)
  next
    case False
    then have "0 < n div 10" by simp
    with "1.IH" False have "hd (str_nat (n div 10)) \<noteq> CHR ''0''" by simp
    with False show ?thesis by (simp add: str_nat_step str_nat_not_Nil)
  qed
qed

lemma format_0d_plain:
  "0 \<le> idx \<Longrightarrow> w \<le> length (str_nat (nat idx)) \<Longrightarrow> format_0d w idx = str_nat (nat idx)"
  by (simp add: format_0d_def zfill_def)

lemma chunk_name_digits_a:
  "\<exists>digits. chunk_filename (int i) = ''chunk_'' @ digits @ ''.bin''
     \<and> set digits \<subseteq> set ''0123456789''
     \<and> digits_value digits = i
     \<and> 2 \<le> length digits
     \<and> (i < 100 \<longrightarrow> length digits = 2)
     \<and> (100 \<le> i \<longrightarrow> hd digits \<noteq> CHR ''0'' \<and> digits = str_nat i)"
proof -
  have idx: "0 \<le> int i" by simp
  have plain: "format_0d 2 (int i) = str_nat i" if "100 \<le> i"
    using length_str_nat_ge3 [OF that] by (simp add: format_0d_plain)
  have big: "hd (format_0d 2 (int i)) \<noteq> CHR ''0'' \<and> format_0d 2 (int i) = str_nat i" if "100 \<le> i"
    using plain [OF that] hd_str_nat [of i] that by simp
  have small: "length (format_0d 2 (int i)) = 2" if "i < 100"
    using that by (intro format_0d_width_2) simp_all
  show ?thesis
  proof (intro exI [of _ "format_0d 2 (int i)"] conjI impI)
    show "hd (format_0d 2 (int i)) \<noteq> CHR ''0''" if "100 \<le> i" using big [OF that] by (rule conjunct1)
    show "format_0d 2 (int i) = str_nat i" if "100 \<le> i" using that by (rule plain)
    show "length (format_0d 2 (int i)) = 2" if "i < 100" using that by (rule small)
  qed (use format_0d_shape [OF idx, of 2] in \<open>simp_all add: chunk_filename_def\<close>)
qed

lemma chunk_name_digits_b:
  "\<exists>digits. chunk_filename_b (int i) = ''chunk_'' @ digits @ ''.bin''
     \<and> set digits \<subseteq> set ''0123456789''
     \<and> digits_value digits = i
     \<and> 3 \<le> length digits
     \<and> (i < 1000 \<longrightarrow> length digits = 3)
     \<and> (1000 \<le> i \<longrightarrow> hd digits \<noteq> CHR ''0'' \<and> digits = str_nat i)"
proof -
  have idx: "0 \<le> int i" by simp
  have plain: "format_0d 3 (int i) = str_nat i" if "1000 \<le> i"
    using length_str_nat_ge4 [OF that] by (simp add: format_0d_plain)
  have big: "hd (format_0d 3 (int i)) \<noteq> CHR ''0'' \<and> format_0d 3 (int i) = str_nat i" if "1000 \<le> i"
    using plain [OF that] hd_str_nat [of i] that by simp
  have small: "length (format_0d 3 (int i)) = 3" if "i < 1000"
    using that by (intro format_0d_width_3) simp_all
  show ?thesis
  proof (intro exI [of _ "format_0d 3 (int i)"] conjI impI)
    show "hd (format_0d 3 (int i)) \<noteq> CHR ''0''" if "1000 \<le> i" using big [OF that] by (rule conjunct1)
    show "format_0d 3 (int i) = str_nat i" if "1000 \<le> i" using that by (rule plain)
    show "length (format_0d 3 (int i)) = 3" if "i < 1000" using that by (rule small)
  qed (use format_0d_shape [OF idx, of 3] in \<open>simp_all add: chunk_filename_b_def\<close>)
qed

text \<open>
  C8 (as amended). For a positive chunk size a run without faults completes with one
  chunk record for every chunk index below \<open>\<lceil>N / chunk_size\<rceil>\<close>, and the record of chunk
  \<open>i\<close> names its file \<^verbatim>\<open>chunk_<digits>.bin\<close>, where the digits are the decimal \<open>i\<close> padded
  with zeros on the left to at least \<open>W\<close> digits: exactly \<open>W\<close> digits for \<open>i < 10 ^ W\<close>,
  and the plain decimal number, without a leading zero, from \<open>10 ^ W\<close> on; \<open>W = 2\<close> in
  \<^verbatim>\<open>convert_to_binary_chunks\<close> and \<open>W = 3\<close> in \<^verbatim>\<open>main\<close> of \<^verbatim>\<open>convert-pickle-to-binary.py\<close>.
  The names of different chunks differ, the file written for the chunk is the file of
  that name in the output directory, and the run changes no file beside the files so
  named and the metadata file.
\<close>

theorem chunk_file_names:
  assumes "0 < chunk_size" "db_keywords db = Some ks" "db_embeddings db = Some e"
  shows "(\<exists>m fs'. convert_to_binary_chunks No_fault f32 db dir chunk_size fs = (Inr (), fs')
            \<and> fs' (path_join dir ''metadata.json'') = Some (Json m)
            \<and> int (length (chunks_a m)) = (int (length ks) + chunk_size - 1) div chunk_size
            \<and> distinct (map filename_a (chunks_a m))
            \<and> (\<forall>i < length (chunks_a m).
                  chunk_id_a (chunks_a m ! i) = int i
                \<and> (\<exists>digits. filename_a (chunks_a m ! i) = ''chunk_'' @ digits @ ''.bin''
                      \<and> set digits \<subseteq> set ''0123456789''
                      \<and> digits_value digits = i
                      \<and> 2 \<le> length digits
                      \<and> (i < 100 \<longrightarrow> length digits = 2)
                      \<and> (100 \<le> i \<longrightarrow> hd digits \<noteq> CHR ''0'' \<and> digits = str_nat i))
                \<and> fs' (path_join dir (filename_a (chunks_a m ! i))) =
                    Some (Bin (tobytes (astype_float32 f32
                      (array_slice e (start_index_a (chunks_a m ! i)) (end_index_a (chunks_a m ! i)))))))
            \<and> (\<forall>p. fs' p \<noteq> fs p \<longrightarrow> p = path_join dir ''metadata.json''
                  \<or> (\<exists>c \<in> set (chunks_a m). p = path_join dir (filename_a c))))
       \<and> (fs_b ''new_keywords/vector_database.pkl'' = Some (Pickle db)
            \<and> shape e = (int (length ks), d) \<longrightarrow>
          (\<exists>m fs'. main_with chunk_size d No_fault now f32 fs_b = (Inr (), fs')
            \<and> fs' ''data/embeddings_metadata.json'' = Some (Json m)
            \<and> int (length (chunks_b m)) = (int (length ks) + chunk_size - 1) div chunk_size
            \<and> distinct (map file_path_b (chunks_b m))
            \<and> (\<forall>i < length (chunks_b m).
                  chunk_id_b (chunks_b m ! i) = int i
                \<and> (\<exists>digits. file_path_b (chunks_b m ! i) = ''chunk_'' @ digits @ ''.bin''
                      \<and> set digits \<subseteq> set ''0123456789''
                      \<and> digits_value digits = i
                      \<and> 3 \<le> length digits
                      \<and> (i < 1000 \<longrightarrow> length digits = 3)
                      \<and> (1000 \<le> i \<longrightarrow> hd digits \<noteq> CHR ''0'' \<and> digits = str_nat i))
                \<and> fs' (''data/embeddings_chunks/'' @ file_path_b (chunks_b m ! i)) =
                    Some (Bin (tobytes (astype_float32 f32
                      (array_slice e (start_index_b (chunks_b m ! i)) (end_index_b (chunks_b m ! i) + 1))))))
            \<and> (\<forall>p. fs' p \<noteq> fs_b p \<longrightarrow> p = ''data/embeddings_metadata.json''
                  \<or> (\<exists>c \<in> set (chunks_b m). p = ''data/embeddings_chunks/'' @ file_path_b c))))"
proof -
  from assms(1) obtain c where c: "chunk_size = int c" "0 < c" by (rule pos_int_obtain)
  let ?n = "(length ks + c - 1) div c"
  have n: "(int (length ks) + chunk_size - 1) div chunk_size = int ?n"
    unfolding c(1) by (rule num_chunks_nat [OF c(2)])
  have A: "(\<exists>m fs'. convert_to_binary_chunks No_fault f32 db dir chunk_size fs = (Inr (), fs')
            \<and> fs' (path_join dir ''metadata.json'') = Some (Json m)
            \<and> int (length (chunks_a m)) = (int (length ks) + chunk_size - 1) div chunk_size
            \<and> distinct (map filename_a (chunks_a m))
            \<and> (\<forall>i < length (chunks_a m).
                  chunk_id_a (chunks_a m ! i) = int i
                \<and> (\<exists>digits. filename_a (chunks_a m ! i) = ''chunk_'' @ digits @ ''.bin''
                      \<and> set digits \<subseteq> set ''0123456789''
                      \<and> digits_value digits = i
                      \<and> 2 \<le> length digits
                      \<and> (i < 100 \<longrightarrow> length digits = 2)
                      \<and> (100 \<le> i \<longrightarrow> hd digits \<noteq> CHR ''0'' \<and> digits = str_nat i))
                \<and> fs' (path_join dir (filename_a (chunks_a m ! i))) =
                    Some (Bin (tobytes (astype_float32 f32
                      (array_slice e (start_index_a (chunks_a m ! i)) (end_index_a (chunks_a m ! i)))))))
            \<and> (\<forall>p. fs' p \<noteq> fs p \<longrightarrow> p = path_join dir ''metadata.json''
                  \<or> (\<exists>c \<in> set (chunks_a m). p = path_join dir (filename_a c))))"
  proof -
    let ?m = "metadata_of ks e (int c)"
    from convert_files_frame [OF c(2) assms(2,3), of f32 dir fs] obtain fs'
      where run: "convert_to_binary_chunks No_fault f32 db dir (int c) fs = (Inr (), fs')"
        and man: "fs' (path_join dir ''metadata.json'') = Some (Json ?m)"
        and files: "\<forall>i < ?n. fs' (path_join dir (chunk_filename (int i)))
             = Some (Bin (chunk_data f32 ks e (int c) (int i)))"
        and frame: "\<forall>p. p \<noteq> path_join dir ''metadata.json''
                 \<and> (\<forall>i < ?n. p \<noteq> path_join dir (chunk_filename (int i))) \<longrightarrow> fs' p = fs p"
      by blast
    have len: "length (chunks_a ?m) = ?n" by (rule chunks_a_nth [OF c(2)])
    have "map filename_a (chunks_a ?m) = map chunk_filename (range ((int (length ks) + int c - 1) div int c))"
      by (simp add: metadata_of_def chunk_info_at_def comp_def)
    then have dis: "distinct (map filename_a (chunks_a ?m))"
      by (simp only: distinct_chunk_filenames)
    have per: "chunk_id_a (chunks_a ?m ! i) = int i
                \<and> (\<exists>digits. filename_a (chunks_a ?m ! i) = ''chunk_'' @ digits @ ''.bin''
                      \<and> set digits \<subseteq> set ''0123456789''
                      \<and> digits_value digits = i
                      \<and> 2 \<le> length digits
                      \<and> (i < 100 \<longrightarrow> length digits = 2)
                      \<and> (100 \<le> i \<longrightarrow> hd digits \<noteq> CHR ''0'' \<and> digits = str_nat i))
                \<and> fs' (path_join dir (filename_a (chunks_a ?m ! i))) =
                    Some (Bin (tobytes (astype_float32 f32
                      (array_slice e (start_index_a (chunks_a ?m ! i)) (end_index_a (chunks_a ?m ! i))))))"
      if i: "i < ?n" for i
    proof -
      have x: "chunks_a ?m ! i = chunk_info_at ks (int c) (int i)" using i by (rule chunks_a_nth [OF c(2)])
      have id: "chunk_id_a (chunks_a ?m ! i) = int i" and f: "filename_a (chunks_a ?m ! i) = chunk_filename (int i)"
        unfolding x by (simp_all add: chunk_info_at_def)
      have w: "fs' (path_join dir (chunk_filename (int i))) = Some (Bin (chunk_data f32 ks e (int c) (int i)))"
        using files i by blast
      have bytes: "fs' (path_join dir (filename_a (chunks_a ?m ! i))) =
          Some (Bin (tobytes (astype_float32 f32 (array_slice e (start_index_a (chunks_a ?m ! i)) (end_index_a (chunks_a ?m ! i))))))"
        unfolding f using w unfolding x by (simp only: chunk_data_info [symmetric])
      from chunk_name_digits_a [of i] id bytes show ?thesis
        unfolding f by (simp only: simp_thms)
    qed
    have fr: "p = path_join dir ''metadata.json'' \<or> (\<exists>c \<in> set (chunks_a ?m). p = path_join dir (filename_a c))"
      if "fs' p \<noteq> fs p" for p
    proof (cases "p = path_join dir ''metadata.json''")
      case True
      then show ?thesis by (rule disjI1)
    next
      case False
      with that frame obtain i where i: "i < ?n" and p: "p = path_join dir (chunk_filename (int i))" by blast
      have x: "chunks_a ?m ! i = chunk_info_at ks (int c) (int i)" using i by (rule chunks_a_nth [OF c(2)])
      have f: "filename_a (chunks_a ?m ! i) = chunk_filename (int i)" unfolding x by (simp add: chunk_info_at_def)
      have "chunks_a ?m ! i \<in> set (chunks_a ?m)" using i by (simp only: len [symmetric] nth_mem)
      with p f show ?thesis by (intro disjI2 bexI [of _ "chunks_a ?m ! i"]) (simp_all only:)
    qed
    show ?thesis
      unfolding c(1)
      apply (rule exI [of _ ?m])
      apply (rule exI [of _ fs'])
      apply (intro conjI allI impI)
      subgoal by (rule run)
      subgoal by (rule man)
      subgoal using n by (simp only: len c(1))
      subgoal by (rule dis)
      subgoal for i using per [of i] by (simp only: len)
      subgoal for i using per [of i] by (simp only: len)
      subgoal for i using per [of i] by (simp only: len)
      subgoal for p by (rule fr)
      done
  qed
  have B: "(\<exists>m fs'. main_with chunk_size d No_fault now f32 fs_b = (Inr (), fs')
            \<and> fs' ''data/embeddings_metadata.json'' = Some (Json m)
            \<and> int (length (chunks_b m)) = (int (length ks) + chunk_size - 1) div chunk_size
            \<and> distinct (map file_path_b (chunks_b m))
            \<and> (\<forall>i < length (chunks_b m).
                  chunk_id_b (chunks_b m ! i) = int i
                \<and> (\<exists>digits. file_path_b (chunks_b m ! i) = ''chunk_'' @ digits @ ''.bin''
                      \<and> set digits \<subseteq> set ''0123456789''
                      \<and> digits_value digits = i
                      \<and> 3 \<le> length digits
                      \<and> (i < 1000 \<longrightarrow> length digits = 3)
                      \<and> (1000 \<le> i \<longrightarrow> hd digits \<noteq> CHR ''0'' \<and> digits = str_nat i))
                \<and> fs' (''data/embeddings_chunks/'' @ file_path_b (chunks_b m ! i)) =
                    Some (Bin (tobytes (astype_float32 f32
                      (array_slice e (start_index_b (chunks_b m ! i)) (end_index_b (chunks_b m ! i) + 1))))))
            \<and> (\<forall>p. fs' p \<noteq> fs_b p \<longrightarrow> p = ''data/embeddings_metadata.json''
                  \<or> (\<exists>c \<in> set (chunks_b m). p = ''data/embeddings_chunks/'' @ file_path_b c)))"
    if hb: "fs_b ''new_keywords/vector_database.pkl'' = Some (Pickle db)
            \<and> shape e = (int (length ks), d)"
  proof -
    let ?m = "metadata_b_of ks (int c) d now"
    from main_with_files_frame [of fs_b db ks e d c now f32] hb assms(2,3) c(2) obtain fs'
      where run: "main_with (int c) d No_fault now f32 fs_b = (Inr (), fs')"
        and man: "fs' ''data/embeddings_metadata.json'' = Some (Json ?m)"
        and files: "\<forall>i < ?n. fs' (''data/embeddings_chunks/'' @ chunk_filename_b (int i))
             = Some (Bin (chunk_data f32 ks e (int c) (int i)))"
        and frame: "\<forall>p. p \<noteq> ''data/embeddings_metadata.json''
                 \<and> (\<forall>i < ?n. p \<noteq> ''data/embeddings_chunks/'' @ chunk_filename_b (int i)) \<longrightarrow> fs' p = fs_b p"
      by blast
    have len: "length (chunks_b ?m) = ?n" by (rule chunks_b_nth [OF c(2)])
    have "map file_path_b (chunks_b ?m) = map chunk_filename_b (range ((int (length ks) + int c - 1) div int c))"
      by (simp add: metadata_b_of_def chunk_entry_at_def comp_def)
    then have dis: "distinct (map file_path_b (chunks_b ?m))"
      by (simp only: distinct_chunk_filenames_b)
    have per: "chunk_id_b (chunks_b ?m ! i) = int i
                \<and> (\<exists>digits. file_path_b (chunks_b ?m ! i) = ''chunk_'' @ digits @ ''.bin''
                      \<and> set digits \<subseteq> set ''0123456789''
                      \<and> digits_value digits = i
                      \<and> 3 \<le> length digits
                      \<and> (i < 1000 \<longrightarrow> length digits = 3)
                      \<and> (1000 \<le> i \<longrightarrow> hd digits \<noteq> CHR ''0'' \<and> digits = str_nat i))
                \<and> fs' (''data/embeddings_chunks/'' @ file_path_b (chunks_b ?m ! i)) =
                    Some (Bin (tobytes (astype_float32 f32
                      (array_slice e (start_index_b (chunks_b ?m ! i)) (end_index_b (chunks_b ?m ! i) + 1)))))"
      if i: "i < ?n" for i
    proof -
      have x: "chunks_b ?m ! i = chunk_entry_at ks (int c) (int i)" using i by (rule chunks_b_nth [OF c(2)])
      have id: "chunk_id_b (chunks_b ?m ! i) = int i" and f: "file_path_b (chunks_b ?m ! i) = chunk_filename_b (int i)"
        unfolding x by (simp_all add: chunk_entry_at_def)
      have w: "fs' (''data/embeddings_chunks/'' @ chunk_filename_b (int i)) = Some (Bin (chunk_data f32 ks e (int c) (int i)))"
        using files i by blast
      have bytes: "fs' (''data/embeddings_chunks/'' @ file_path_b (chunks_b ?m ! i)) =
          Some (Bin (tobytes (astype_float32 f32 (array_slice e (start_index_b (chunks_b ?m ! i)) (end_index_b (chunks_b ?m ! i) + 1)))))"
        unfolding f using w unfolding x by (simp only: chunk_data_entry [symmetric])
      from chunk_name_digits_b [of i] id bytes show ?thesis
        unfolding f by (simp only: simp_thms)
    qed
    have fr: "p = ''data/embeddings_metadata.json'' \<or> (\<exists>c \<in> set (chunks_b ?m). p = ''data/embeddings_chunks/'' @ file_path_b c)"
      if "fs' p \<noteq> fs_b p" for p
    proof (cases "p = ''data/embeddings_metadata.json''")
      case True
      then show ?thesis by (rule disjI1)
    next
      case False
      with that frame obtain i where i: "i < ?n" and p: "p = ''data/embeddings_chunks/'' @ chunk_filename_b (int i)" by blast
      have x: "chunks_b ?m ! i = chunk_entry_at ks (int c) (int i)" using i by (rule chunks_b_nth [OF c(2)])
      have f: "file_path_b (chunks_b ?m ! i) = chunk_filename_b (int i)" unfolding x by (simp add: chunk_entry_at_def)
      have "chunks_b ?m ! i \<in> set (chunks_b ?m)" using i by (simp only: len [symmetric] nth_mem)
      with p f show ?thesis by (intro disjI2 bexI [of _ "chunks_b ?m ! i"]) (simp_all only:)
    qed
    show ?thesis
      unfolding c(1)
      apply (rule exI [of _ ?m])
      apply (rule exI [of _ fs'])
      apply (intro conjI allI impI)
      subgoal by (rule run)
      subgoal by (rule man)
      subgoal using n by (simp only: len c(1))
      subgoal by (rule dis)
      subgoal for i using per [of i] by (simp only: len)
      subgoal for i using per [of i] by (simp only: len)
      subgoal for i using per [of i] by (simp only: len)
      subgoal for p by (rule fr)
      done
  qed
  from A B show ?thesis by blast
qed

text \<open>
  C8 (as amended) on the scenario of the specification, for both scripts: chunk size 2
  gives the two files \<^verbatim>\<open>chunk_00.bin\<close> and \<^verbatim>\<open>chunk_01.bin\<close>, respectively \<^verbatim>\<open>chunk_000.bin\<close>
  and \<^verbatim>\<open>chunk_001.bin\<close>.
\<close>

theorem chunk_file_names_witness:
  "(\<exists>m fs'. convert_to_binary_chunks No_fault id scenario ''out'' 2 Map.empty = (Inr (), fs')
      \<and> fs' ''out/metadata.json'' = Some (Json m)
      \<and> map filename_a (chunks_a m) = [''chunk_00.bin'', ''chunk_01.bin'']
      \<and> (\<exists>bs. fs' ''out/chunk_00.bin'' = Some (Bin bs))
      \<and> (\<exists>bs. fs' ''out/chunk_01.bin'' = Some (Bin bs))
      \<and> dom fs' = {''out/metadata.json'', ''out/chunk_00.bin'', ''out/chunk_01.bin''})
   \<and> (\<exists>m fs'. main_with 2 2 No_fault ''t'' id scenario_fs = (Inr (), fs')
      \<and> fs' ''data/embeddings_metadata.json'' = Some (Json m)
      \<and> map file_path_b (chunks_b m) = [''chunk_000.bin'', ''chunk_001.bin'']
      \<and> (\<exists>bs. fs' ''data/embeddings_chunks/chunk_000.bin'' = Some (Bin bs))
      \<and> (\<exists>bs. fs' ''data/embeddings_chunks/chunk_001.bin'' = Some (Bin bs))
      \<and> dom fs' = {''new_keywords/vector_database.pkl'', ''data/embeddings_metadata.json'',
            ''data/embeddings_chunks/chunk_000.bin'', ''data/embeddings_chunks/chunk_001.bin''})"
proof -
  let ?e = "\<lparr>rows = [[1, 2], [3, 4], [5, 6 :: float32]], ncols = 2\<rparr>"
  let ?ks = "[''a'', ''b'', ''c'']"
  have h1: "(0::int) < 2" by simp
  have h2: "db_keywords scenario = Some ?ks" by (simp add: scenario_def)
  have h3: "db_embeddings scenario = Some ?e" by (simp add: scenario_def)
  have h6: "scenario_fs ''new_keywords/vector_database.pkl'' = Some (Pickle scenario)
      \<and> shape ?e = (int (length ?ks), 2)"
    by (simp add: scenario_fs_def shape_def)
  note th = chunk_file_names [OF h1 h2 h3, of id "''out''" Map.empty scenario_fs 2 "''t''"]
  have p: "path_join ''out'' ''metadata.json'' = ''out/metadata.json''"
    "path_join ''out'' ''chunk_00.bin'' = ''out/chunk_00.bin''"
    "path_join ''out'' ''chunk_01.bin'' = ''out/chunk_01.bin''"
    by code_simp+
  have two: "xs = [xs ! 0, xs ! 1]" if "length xs = 2" for xs :: "'x list"
    using that by (cases xs; cases "tl xs") auto
  have ma: "map filename_a (chunks_a (metadata_of ?ks ?e 2)) = [''chunk_00.bin'', ''chunk_01.bin'']"
    by code_simp
  have mb: "map file_path_b (chunks_b (metadata_b_of ?ks 2 2 ''t'')) = [''chunk_000.bin'', ''chunk_001.bin'']"
    by code_simp
  have nth2: "f (xs ! 0) = a \<and> f (xs ! 1) = b" if "map f xs = [a, b]" for f :: "'x \<Rightarrow> string" and xs a b
    using that by (cases xs; cases "tl xs") auto
  from th [THEN conjunct1] obtain m fs'
    where run: "convert_to_binary_chunks No_fault id scenario ''out'' 2 Map.empty = (Inr (), fs')"
      and man: "fs' (path_join ''out'' ''metadata.json'') = Some (Json m)"
      and len': "int (length (chunks_a m)) = (int (length ?ks) + 2 - 1) div 2"
      and per: "\<forall>i < length (chunks_a m).
                  chunk_id_a (chunks_a m ! i) = int i
                \<and> (\<exists>digits. filename_a (chunks_a m ! i) = ''chunk_'' @ digits @ ''.bin''
                      \<and> set digits \<subseteq> set ''0123456789''
                      \<and> digits_value digits = i
                      \<and> 2 \<le> length digits
                      \<and> (i < 100 \<longrightarrow> length digits = 2)
                      \<and> (100 \<le> i \<longrightarrow> hd digits \<noteq> CHR ''0'' \<and> digits = str_nat i))
                \<and> fs' (path_join ''out'' (filename_a (chunks_a m ! i))) =
                    Some (Bin (tobytes (astype_float32 id
                      (array_slice ?e (start_index_a (chunks_a m ! i)) (end_index_a (chunks_a m ! i))))))"
      and frame: "\<forall>p. fs' p \<noteq> Map.empty p \<longrightarrow> p = path_join ''out'' ''metadata.json''
                  \<or> (\<exists>c \<in> set (chunks_a m). p = path_join ''out'' (filename_a c))"
    by (elim exE conjE) (rule that)
  from len' have len: "length (chunks_a m) = 2" by simp
  have "convert_to_binary_chunks No_fault id scenario ''out'' 2 Map.empty =
      (Inr (),
       (chunks_written (\<lambda>idx. path_join ''out'' (chunk_filename idx)) (chunk_data id ?ks ?e 2)
          ((int (length ?ks) + 2 - 1) div 2) Map.empty)
         (path_join ''out'' ''metadata.json'' \<mapsto> Json (metadata_of ?ks ?e 2)))"
    using h2 h3 by (rule convert_No_fault) simp
  with run have "fs' = (chunks_written (\<lambda>idx. path_join ''out'' (chunk_filename idx)) (chunk_data id ?ks ?e 2)
          ((int (length ?ks) + 2 - 1) div 2) Map.empty)
         (path_join ''out'' ''metadata.json'' \<mapsto> Json (metadata_of ?ks ?e 2))"
    by (simp only: prod.inject)
  then have "fs' (path_join ''out'' ''metadata.json'') = Some (Json (metadata_of ?ks ?e 2))"
    by (simp only: fun_upd_same)
  with man have m: "m = metadata_of ?ks ?e 2" by (simp only: option.inject content.inject)
  have names: "map filename_a (chunks_a m) = [''chunk_00.bin'', ''chunk_01.bin'']"
    unfolding m by (rule ma)
  from nth2 [OF names] have f0: "filename_a (chunks_a m ! 0) = ''chunk_00.bin''"
    and f1: "filename_a (chunks_a m ! 1) = ''chunk_01.bin''"
    by simp_all
  from per [rule_format, of 0] len have c0: "\<exists>bs. fs' ''out/chunk_00.bin'' = Some (Bin bs)"
    unfolding f0 p by simp
  from per [rule_format, of 1] len have c1: "\<exists>bs. fs' ''out/chunk_01.bin'' = Some (Bin bs)"
    unfolding f1 p by simp
  have ca: "chunks_a m = [chunks_a m ! 0, chunks_a m ! 1]" using len by (rule two)
  have man': "fs' ''out/metadata.json'' = Some (Json m)" using man by (simp only: p)
  have d: "dom fs' = {''out/metadata.json'', ''out/chunk_00.bin'', ''out/chunk_01.bin''}"
  proof (rule set_eqI)
    fix q
    have "set (chunks_a m) = {chunks_a m ! 0, chunks_a m ! 1}" by (subst ca) simp
    moreover have "filename_a (chunks_a m ! Suc 0) = ''chunk_01.bin''" using f1 by simp
    ultimately have "fs' q \<noteq> None \<longrightarrow> q = ''out/metadata.json'' \<or> q = ''out/chunk_00.bin'' \<or> q = ''out/chunk_01.bin''"
      using frame by (auto simp: p f0)
    with man' c0 c1 show "q \<in> dom fs' \<longleftrightarrow> q \<in> {''out/metadata.json'', ''out/chunk_00.bin'', ''out/chunk_01.bin''}"
      by (auto simp: dom_def)
  qed
  have A: "\<exists>m fs'. convert_to_binary_chunks No_fault id scenario ''out'' 2 Map.empty = (Inr (), fs')
      \<and> fs' ''out/metadata.json'' = Some (Json m)
      \<and> map filename_a (chunks_a m) = [''chunk_00.bin'', ''chunk_01.bin'']
      \<and> (\<exists>bs. fs' ''out/chunk_00.bin'' = Some (Bin bs))
      \<and> (\<exists>bs. fs' ''out/chunk_01.bin'' = Some (Bin bs))
      \<and> dom fs' = {''out/metadata.json'', ''out/chunk_00.bin'', ''out/chunk_01.bin''}"
    apply (rule exI [of _ m])
    apply (rule exI [of _ fs'])
    using run man' names c0 c1 d by (simp only: simp_thms)
  from th [THEN conjunct2, rule_format, OF h6] obtain mb fb
    where runb: "main_with 2 2 No_fault ''t'' id scenario_fs = (Inr (), fb)"
      and manb: "fb ''data/embeddings_metadata.json'' = Some (Json mb)"
      and lenb': "int (length (chunks_b mb)) = (int (length ?ks) + 2 - 1) div 2"
      and perb: "\<forall>i < length (chunks_b mb).
                  chunk_id_b (chunks_b mb ! i) = int i
                \<and> (\<exists>digits. file_path_b (chunks_b mb ! i) = ''chunk_'' @ digits @ ''.bin''
                      \<and> set digits \<subseteq> set ''0123456789''
                      \<and> digits_value digits = i
                      \<and> 3 \<le> length digits
                      \<and> (i < 1000 \<longrightarrow> length digits = 3)
                      \<and> (1000 \<le> i \<longrightarrow> hd digits \<noteq> CHR ''0'' \<and> digits = str_nat i))
                \<and> fb (''data/embeddings_chunks/'' @ file_path_b (chunks_b mb ! i)) =
                    Some (Bin (tobytes (astype_float32 id
                      (array_slice ?e (start_index_b (chunks_b mb ! i)) (end_index_b (chunks_b mb ! i) + 1)))))"
      and frameb: "\<forall>p. fb p \<noteq> scenario_fs p \<longrightarrow> p = ''data/embeddings_metadata.json''
                  \<or> (\<exists>c \<in> set (chunks_b mb). p = ''data/embeddings_chunks/'' @ file_path_b c)"
    by (elim exE conjE) (rule that)
  from lenb' have lenb: "length (chunks_b mb) = 2" by simp
  have "main_with 2 2 No_fault ''t'' id scenario_fs =
      (Inr (),
       (chunks_written (\<lambda>idx. ''data/embeddings_chunks/'' @ chunk_filename_b idx) (chunk_data id ?ks ?e 2)
          ((int (length ?ks) + 2 - 1) div 2) scenario_fs)
         (''data/embeddings_metadata.json'' \<mapsto> Json (metadata_b_of ?ks 2 2 ''t'')))"
    using h6 h2 h3 by (intro main_with_No_fault) simp_all
  with runb have "fb = (chunks_written (\<lambda>idx. ''data/embeddings_chunks/'' @ chunk_filename_b idx) (chunk_data id ?ks ?e 2)
          ((int (length ?ks) + 2 - 1) div 2) scenario_fs)
         (''data/embeddings_metadata.json'' \<mapsto> Json (metadata_b_of ?ks 2 2 ''t''))"
    by (simp only: prod.inject)
  then have "fb ''data/embeddings_metadata.json'' = Some (Json (metadata_b_of ?ks 2 2 ''t''))"
    by (simp only: fun_upd_same)
  with manb have mb': "mb = metadata_b_of ?ks 2 2 ''t''" by (simp only: option.inject content.inject)
  have namesb: "map file_path_b (chunks_b mb) = [''chunk_000.bin'', ''chunk_001.bin'']"
    unfolding mb' by (rule mb)
  from nth2 [OF namesb] have g0: "file_path_b (chunks_b mb ! 0) = ''chunk_000.bin''"
    and g1: "file_path_b (chunks_b mb ! 1) = ''chunk_001.bin''"
    by simp_all
  from perb [rule_format, of 0] lenb have e0: "\<exists>bs. fb ''data/embeddings_chunks/chunk_000.bin'' = Some (Bin bs)"
    unfolding g0 by simp
  from perb [rule_format, of 1] lenb have e1: "\<exists>bs. fb ''data/embeddings_chunks/chunk_001.bin'' = Some (Bin bs)"
    unfolding g1 by simp
  have cb: "chunks_b mb = [chunks_b mb ! 0, chunks_b mb ! 1]" using lenb by (rule two)
  have db: "dom fb = {''new_keywords/vector_database.pkl'', ''data/embeddings_metadata.json'',
            ''data/embeddings_chunks/chunk_000.bin'', ''data/embeddings_chunks/chunk_001.bin''}"
  proof (rule set_eqI)
    fix q
    have sb: "set (chunks_b mb) = {chunks_b mb ! 0, chunks_b mb ! 1}" by (subst cb) simp
    have g1': "file_path_b (chunks_b mb ! Suc 0) = ''chunk_001.bin''" using g1 by simp
    show "q \<in> dom fb \<longleftrightarrow> q \<in> {''new_keywords/vector_database.pkl'', ''data/embeddings_metadata.json'',
            ''data/embeddings_chunks/chunk_000.bin'', ''data/embeddings_chunks/chunk_001.bin''}"
    proof (cases "q = ''data/embeddings_metadata.json'' \<or> q = ''data/embeddings_chunks/chunk_000.bin''
        \<or> q = ''data/embeddings_chunks/chunk_001.bin''")
      case True
      then show ?thesis using manb e0 e1 by (auto simp: dom_def)
    next
      case False
      then have "fb q = scenario_fs q"
        using frameb [rule_format, of q] unfolding sb by (auto simp: g0 g1')
      with False show ?thesis by (simp add: dom_def scenario_fs_def)
    qed
  qed
  have B: "\<exists>m fs'. main_with 2 2 No_fault ''t'' id scenario_fs = (Inr (), fs')
      \<and> fs' ''data/embeddings_metadata.json'' = Some (Json m)
      \<and> map file_path_b (chunks_b m) = [''chunk_000.bin'', ''chunk_001.bin'']
      \<and> (\<exists>bs. fs' ''data/embeddings_chunks/chunk_000.bin'' = Some (Bin bs))
      \<and> (\<exists>bs. fs' ''data/embeddings_chunks/chunk_001.bin'' = Some (Bin bs))
      \<and> dom fs' = {''new_keywords/vector_database.pkl'', ''data/embeddings_metadata.json'',
            ''data/embeddings_chunks/chunk_000.bin'', ''data/embeddings_chunks/chunk_001.bin''}"
    apply (rule exI [of _ mb])
    apply (rule exI [of _ fb])
    using runb manb namesb e0 e1 db by (simp only: simp_thms)
  from A B show ?thesis by (rule conjI)
qed

text \<open>
  C8 as stated fails for \<^verbatim>\<open>convert_to_binary_chunks\<close>: with 101 keywords and chunk size 1
  the first chunk file is \<^verbatim>\<open>chunk_00.bin\<close> and the last is \<^verbatim>\<open>chunk_100.bin\<close>, two digits
  and three.
\<close>

theorem chunk_file_names_counterexample:
  "map_option (take 1 \<circ> map filename_a \<circ> chunks_a)
     (manifest_at
        (snd (convert_to_binary_chunks No_fault id
           \<lparr>db_keywords = Some (replicate 101 ''k''),
            db_embeddings = Some \<lparr>rows = replicate 101 [0 :: float32], ncols = 1\<rparr>\<rparr>
           ''out'' 1 Map.empty))
        ''out/metadata.json'') = Some [''chunk_00.bin'']
   \<and> map_option (drop 100 \<circ> map filename_a \<circ> chunks_a)
     (manifest_at
        (snd (convert_to_binary_chunks No_fault id
           \<lparr>db_keywords = Some (replicate 101 ''k''),
            db_embeddings = Some \<lparr>rows = replicate 101 [0 :: float32], ncols = 1\<rparr>\<rparr>
           ''out'' 1 Map.empty))
        ''out/metadata.json'') = Some [''chunk_100.bin'']
   \<and> length ''chunk_00.bin'' \<noteq> length ''chunk_100.bin''"
proof -
  let ?ks = "replicate 101 ''k''"
  let ?e = "\<lparr>rows = replicate 101 [0 :: float32], ncols = 1\<rparr>"
  let ?db = "\<lparr>db_keywords = Some ?ks, db_embeddings = Some ?e\<rparr>"
  have "convert_to_binary_chunks No_fault id ?db ''out'' 1 Map.empty =
      (Inr (),
       (chunks_written (\<lambda>idx. path_join ''out'' (chunk_filename idx)) (chunk_data id ?ks ?e 1)
          ((int (length ?ks) + 1 - 1) div 1) Map.empty)
         (path_join ''out'' ''metadata.json'' \<mapsto> Json (metadata_of ?ks ?e 1)))"
    by (rule convert_No_fault) simp_all
  moreover have "path_join ''out'' ''metadata.json'' = ''out/metadata.json''"
    by (simp add: path_join_def)
  ultimately have m: "manifest_at (snd (convert_to_binary_chunks No_fault id ?db ''out'' 1 Map.empty))
      ''out/metadata.json'' = Some (metadata_of ?ks ?e 1)"
    by (simp add: manifest_at_def)
  have names: "map filename_a (chunks_a (metadata_of ?ks ?e 1)) = map (chunk_filename \<circ> int) [0..<101]"
    by (simp add: metadata_of_def range_def chunk_info_at_def comp_def)
  have t: "take 1 (map (chunk_filename \<circ> int) [0..<101]) = [chunk_filename 0]"
    by (simp add: take_map)
  have d: "drop 100 (map (chunk_filename \<circ> int) [0..<101]) = [chunk_filename 100]"
    by (simp add: drop_map)
  have f: "chunk_filename 0 = ''chunk_00.bin''" "chunk_filename 100 = ''chunk_100.bin''"
    by code_simp+
  show ?thesis
    by (simp only: m option.map comp_apply names t d f) simp
qed

end
